(* ===== verification/Crab_Prelude.thy ===== *)
theory Crab_Prelude
  imports Main "HOL-Library.Word"
begin

text \<open>
  The prelude of the development: names for the machine integers of the source, the
  little- and big-endian byte layouts the wire formats use, the program type in which the
  fallible and stateful code is written, the one-shot channel of the task layer and the
  decimal rendering used by the messages, with the lemmas the components share.

  \<^item> \<open>u8\<close>, \<open>u16\<close>, \<open>u32\<close>, \<open>u64\<close> are the Rust integers of these widths; byte strings
    are lists of \<open>u8\<close>.
  \<^item> \<open>('e, 's, 'a) prog\<close> is a function from a state to a result, an error (\<open>Inl\<close>) or a
    value (\<open>Inr\<close>), and the state left behind.  \<open>andthen\<close> is the question mark operator:
    it stops at the first error and keeps the effects made so far.
  \<^item> the locale \<open>fixed_codec\<close> is the interface of a fixed-width binary format; it is
    interpreted for the integer layouts here and for the message header in \<open>Crab_Wire\<close>.
\<close>

unbundle bit_operations_syntax

type_synonym u8 = "8 word"
type_synonym u16 = "16 word"
type_synonym u32 = "32 word"
type_synonym u64 = "64 word"
type_synonym bytes = "8 word list"

named_theorems prog_simps \<open>evaluation of programs\<close>
named_theorems wire_simps \<open>wire layout of the formats\<close>

section \<open>Programs: state, errors and early returns\<close>

type_synonym ('e, 's, 'a) prog = "'s \<Rightarrow> ('e + 'a) \<times> 's"

definition ret :: "'a \<Rightarrow> ('e, 's, 'a) prog" where
  "ret a s = (Inr a, s)"

definition throw :: "'e \<Rightarrow> ('e, 's, 'a) prog" where
  "throw e s = (Inl e, s)"

definition andthen :: "('e, 's, 'a) prog \<Rightarrow> ('a \<Rightarrow> ('e, 's, 'b) prog) \<Rightarrow> ('e, 's, 'b) prog" where
  "andthen m f s = (case m s of (Inl e, t) \<Rightarrow> (Inl e, t) | (Inr a, t) \<Rightarrow> f a t)"

text \<open>\<open>attempt m\<close> runs \<open>m\<close> and hands its result on as a value: the \<open>match\<close> or
  \<open>if let Err(e)\<close> of the source on a fallible call.\<close>

definition attempt :: "('e, 's, 'a) prog \<Rightarrow> ('e, 's, 'e + 'a) prog" where
  "attempt m s = (case m s of (r, t) \<Rightarrow> (Inr r, t))"

text \<open>\<open>lift r\<close> is a computed result as a program; \<open>map_error\<close> is \<open>map_err\<close>.\<close>

definition lift :: "'e + 'a \<Rightarrow> ('e, 's, 'a) prog" where
  "lift r s = (r, s)"

definition map_error :: "('e \<Rightarrow> 'f) \<Rightarrow> 'e + 'a \<Rightarrow> 'f + 'a" where
  "map_error f r = (case r of Inl e \<Rightarrow> Inl (f e) | Inr a \<Rightarrow> Inr a)"

lemma ret_apply [simp, prog_simps]: "ret a s = (Inr a, s)"
  by (simp add: ret_def)

lemma throw_apply [simp, prog_simps]: "throw e s = (Inl e, s)"
  by (simp add: throw_def)

lemma lift_apply [simp, prog_simps]: "lift r s = (r, s)"
  by (simp add: lift_def)

lemma map_error_simps [simp]:
  "map_error f (Inl e) = Inl (f e)" "map_error f (Inr a) = Inr a"
  by (simp_all add: map_error_def)

lemma andthen_Inr [prog_simps]: "m s = (Inr a, t) \<Longrightarrow> andthen m f s = f a t"
  by (simp add: andthen_def)

lemma andthen_Inl [prog_simps]: "m s = (Inl e, t) \<Longrightarrow> andthen m f s = (Inl e, t)"
  by (simp add: andthen_def)

lemma attempt_apply [prog_simps]: "m s = (r, t) \<Longrightarrow> attempt m s = (Inr r, t)"
  by (simp add: attempt_def)

lemma andthen_ret [simp]: "andthen (ret a) f s = f a s"
  by (simp add: andthen_def)

lemma andthen_throw [simp]: "andthen (throw e) f s = (Inl e, s)"
  by (simp add: andthen_def)

lemma andthen_lift [simp]:
  "andthen (lift (Inr a)) f s = f a s" "andthen (lift (Inl e)) f s = (Inl e, s)"
  by (simp_all add: andthen_def)

lemma andthen_assoc: "andthen (andthen m f) g = andthen m (\<lambda>a. andthen (f a) g)"
  by (rule ext) (auto simp: andthen_def split: prod.splits sum.splits)

lemma andthen_InrE:
  assumes "andthen m f s = (Inr b, u)"
  obtains a t where "m s = (Inr a, t)" "f a t = (Inr b, u)"
  using assms by (auto simp: andthen_def split: prod.splits sum.splits)

section \<open>What a program keeps\<close>

text \<open>\<open>m\<close> relates every state to the one it leaves behind, and its value satisfies \<open>Q\<close>.\<close>

definition keeps :: "('s \<Rightarrow> 's \<Rightarrow> bool) \<Rightarrow> ('e, 's, 'a) prog \<Rightarrow> ('a \<Rightarrow> bool) \<Rightarrow> bool" where
  "keeps rel m Q \<longleftrightarrow> (\<forall>s r t. m s = (r, t) \<longrightarrow> rel s t \<and> (\<forall>a. r = Inr a \<longrightarrow> Q a))"

lemma keepsI: "(\<And>s r t. m s = (r, t) \<Longrightarrow> rel s t) \<Longrightarrow> keeps rel m (\<lambda>_. True)"
  by (simp add: keeps_def)

lemma keepsD: "keeps rel m Q \<Longrightarrow> m s = (r, t) \<Longrightarrow> rel s t"
  by (simp add: keeps_def)

text \<open>
  A relation between the state before and after that is reflexive and transitive is kept by a
  program that is built of steps which keep it.
\<close>

locale kept_relation =
  fixes rel :: "'s \<Rightarrow> 's \<Rightarrow> bool"
  assumes rel_refl: "rel s s"
    and rel_trans: "rel s t \<Longrightarrow> rel t u \<Longrightarrow> rel s u"
begin

lemma keeps_ret: "Q a \<Longrightarrow> keeps rel (ret a) Q"
  by (simp add: keeps_def rel_refl)

lemma keeps_throw: "keeps rel (throw e) Q"
  by (simp add: keeps_def rel_refl)

lemma keeps_fail: "keeps rel (Pair (Inl e)) Q"
  by (simp add: keeps_def rel_refl)

lemma keeps_lift: "(\<And>a. r = Inr a \<Longrightarrow> Q a) \<Longrightarrow> keeps rel (lift r) Q"
  by (simp add: keeps_def rel_refl)

lemma keeps_bind:
  assumes "keeps rel m P" "\<And>a. P a \<Longrightarrow> keeps rel (f a) Q"
  shows "keeps rel (andthen m f) Q"
  unfolding keeps_def
proof (intro allI impI)
  fix s r u assume run: "andthen m f s = (r, u)"
  obtain x t where m: "m s = (x, t)" by (cases "m s")
  show "rel s u \<and> (\<forall>a. r = Inr a \<longrightarrow> Q a)"
  proof (cases x)
    case (Inl e)
    with run m assms(1) show ?thesis by (auto simp: andthen_def keeps_def)
  next
    case (Inr a)
    with m assms(1) have "rel s t" "P a" by (auto simp: keeps_def)
    moreover from run m Inr have "f a t = (r, u)" by (simp add: andthen_def)
    ultimately show ?thesis using assms(2)[of a] rel_trans[of s t u] by (auto simp: keeps_def)
  qed
qed

lemmas keeps_seq = keeps_bind[where P = "\<lambda>_. True"]

lemma keeps_attempt: "keeps rel m P \<Longrightarrow> keeps rel (attempt m) (\<lambda>r. \<forall>a. r = Inr a \<longrightarrow> P a)"
  by (auto simp: keeps_def attempt_def split: prod.splits)

lemma keeps_tried: "keeps rel m (\<lambda>_. True) \<Longrightarrow> keeps rel (attempt m) (\<lambda>_. True)"
  by (auto simp: keeps_def attempt_def split: prod.splits)

text \<open>A program that first makes an allowed change of the state that depends on the state.\<close>

lemma keeps_after:
  assumes "\<And>s. rel s (g s)" "\<And>s. keeps rel (m s) Q"
  shows "keeps rel (\<lambda>s. m s (g s)) Q"
  using assms rel_trans unfolding keeps_def by blast

lemmas rules = keeps_ret keeps_throw keeps_fail keeps_lift keeps_seq keeps_tried

end

section \<open>Byte layouts of integers\<close>

definition le16 :: "u16 \<Rightarrow> bytes" where
  "le16 w = [ucast w, ucast (drop_bit 8 w)]"

definition le32 :: "u32 \<Rightarrow> bytes" where
  "le32 w = [ucast w, ucast (drop_bit 8 w), ucast (drop_bit 16 w), ucast (drop_bit 24 w)]"

definition be16 :: "u16 \<Rightarrow> bytes" where
  "be16 w = [ucast (drop_bit 8 w), ucast w]"

fun of_le16 :: "bytes \<Rightarrow> (u16 \<times> bytes) option" where
  "of_le16 (a # b # r) = Some (ucast a OR push_bit 8 (ucast b), r)"
| "of_le16 _ = None"

fun of_le32 :: "bytes \<Rightarrow> (u32 \<times> bytes) option" where
  "of_le32 (a # b # c # d # r) =
     Some (ucast a OR push_bit 8 (ucast b) OR push_bit 16 (ucast c) OR push_bit 24 (ucast d), r)"
| "of_le32 _ = None"

fun of_be16 :: "bytes \<Rightarrow> (u16 \<times> bytes) option" where
  "of_be16 (a # b # r) = Some (push_bit 8 (ucast a) OR ucast b, r)"
| "of_be16 _ = None"

text \<open>
  A fixed-width format: every encoding has the same length, decoding an encoding returns
  the value and the bytes after it, and only encodings are accepted.
\<close>

locale fixed_codec =
  fixes enc :: "'a \<Rightarrow> bytes" and dec :: "bytes \<Rightarrow> ('a \<times> bytes) option" and width :: nat
  assumes enc_width: "length (enc a) = width"
    and dec_enc: "dec (enc a @ r) = Some (a, r)"
    and dec_sound: "dec bs = Some (a, r) \<Longrightarrow> bs = enc a @ r"
begin

lemma enc_inj: "enc a = enc b \<Longrightarrow> a = b"
  using dec_enc[of a "[]"] dec_enc[of b "[]"] by simp

lemma enc_prefix_free: "enc a @ r = enc b @ q \<Longrightarrow> a = b \<and> r = q"
  using dec_enc[of a r] dec_enc[of b q] by (metis option.inject prod.inject)

lemma take_enc: "take width (enc a @ r) = enc a" and drop_enc: "drop width (enc a @ r) = r"
  unfolding enc_width[of a, symmetric] by simp_all

lemma dec_take: "dec (take width (enc a @ r)) = Some (a, [])"
  using dec_enc[of a "[]"] by (simp only: take_enc append_Nil2)

lemma dec_length: "dec bs = Some (a, r) \<Longrightarrow> length bs = width + length r"
  using dec_sound[of bs a r] enc_width[of a] by simp

lemma dec_short: "length bs < width \<Longrightarrow> dec bs = None"
  using dec_length[of bs] by (cases "dec bs") auto

lemma dec_rest: "dec bs = Some (a, r) \<Longrightarrow> r = drop width bs"
  using dec_sound[of bs a r] by (simp only: drop_enc)

lemma dec_eq_Some: "dec bs = Some (a, r) \<longleftrightarrow> bs = enc a @ r"
  using dec_enc dec_sound by blast

end

lemma le16_split: "ucast (ucast (w :: u16) :: u8) OR push_bit 8 (ucast (ucast (drop_bit 8 w) :: u8)) = w"
  by (rule bit_word_eqI) (auto simp: bit_simps)

lemma be16_split: "push_bit 8 (ucast (ucast (drop_bit 8 w) :: u8)) OR ucast (ucast (w :: u16) :: u8) = w"
  by (rule bit_word_eqI) (auto simp: bit_simps)

lemma le32_split:
  "ucast (ucast (w :: u32) :: u8) OR push_bit 8 (ucast (ucast (drop_bit 8 w) :: u8))
     OR push_bit 16 (ucast (ucast (drop_bit 16 w) :: u8))
     OR push_bit 24 (ucast (ucast (drop_bit 24 w) :: u8)) = w"
proof (rule bit_word_eqI)
  fix n assume n: "n < LENGTH(32)"
  consider "n < 8" | "8 \<le> n" "n < 16" | "16 \<le> n" "n < 24" | "24 \<le> n" by linarith
  then show "bit (ucast (ucast (w :: u32) :: u8) OR push_bit 8 (ucast (ucast (drop_bit 8 w) :: u8))
     OR push_bit 16 (ucast (ucast (drop_bit 16 w) :: u8))
     OR push_bit 24 (ucast (ucast (drop_bit 24 w) :: u8)) :: u32) n = bit w n"
    using n by cases (auto simp: bit_simps)
qed

lemma bit_u8_beyond [simp]: "8 \<le> n \<Longrightarrow> \<not> bit (b :: u8) n"
  by (auto dest: bit_imp_le_length)

interpretation le16: fixed_codec le16 of_le16 2
proof unfold_locales
  show "of_le16 bs = Some (a, r) \<Longrightarrow> bs = le16 a @ r" for bs a r
    by (cases bs rule: of_le16.cases)
        (auto simp: le16_def bit_simps intro!: bit_word_eqI dest: bit_imp_le_length)
qed (simp_all add: le16_def le16_split)

interpretation be16: fixed_codec be16 of_be16 2
proof unfold_locales
  show "of_be16 bs = Some (a, r) \<Longrightarrow> bs = be16 a @ r" for bs a r
    by (cases bs rule: of_be16.cases)
        (auto simp: be16_def bit_simps intro!: bit_word_eqI dest: bit_imp_le_length)
qed (simp_all add: be16_def be16_split)

interpretation le32: fixed_codec le32 of_le32 4
proof unfold_locales
  show "of_le32 bs = Some (a, r) \<Longrightarrow> bs = le32 a @ r" for bs a r
    by (cases bs rule: of_le32.cases)
        (auto simp: le32_def bit_simps intro!: bit_word_eqI dest: bit_imp_le_length)
qed (simp_all add: le32_def le32_split)

lemmas [wire_simps] = le16.dec_enc be16.dec_enc le32.dec_enc
  le16.enc_width be16.enc_width le32.enc_width

section \<open>One-shot channels\<close>

text \<open>
  The state of a \<open>tokio::sync::oneshot\<close> channel as the code uses it: open, holding the one
  value sent, or closed because the receiver or the sender was dropped.  \<open>oneshot_send\<close>
  reports whether the value was taken (the code only tests \<open>is_err\<close>), \<open>oneshot_close\<close> is
  the sender going out of scope, \<open>oneshot_recv\<close> awaits the receiver: \<open>None\<close> is
  \<open>RecvError\<close>, also the reading of a channel that is still open when nothing is left to
  run that could send.
\<close>

datatype 'a oneshot = Os_open | Os_value 'a | Os_rx_dropped | Os_tx_dropped

fun oneshot_send :: "'a \<Rightarrow> 'a oneshot \<Rightarrow> bool \<times> 'a oneshot" where
  "oneshot_send v Os_open = (True, Os_value v)"
| "oneshot_send v c = (False, c)"

fun oneshot_close :: "'a oneshot \<Rightarrow> 'a oneshot" where
  "oneshot_close Os_open = Os_tx_dropped"
| "oneshot_close c = c"

fun oneshot_recv :: "'a oneshot \<Rightarrow> 'a option" where
  "oneshot_recv (Os_value v) = Some v"
| "oneshot_recv _ = None"

lemma oneshot_close_idem [simp]: "oneshot_close (oneshot_close c) = oneshot_close c"
  by (cases c) simp_all

lemma oneshot_recv_close [simp]: "oneshot_recv (oneshot_close c) = oneshot_recv c"
  by (cases c) simp_all

section \<open>Runs that come to an end\<close>

text \<open>
  The steps of a part of the program that is winding down: they keep an invariant and each
  takes something of the work that is left.
\<close>

locale winding_down =
  fixes step :: "'s \<Rightarrow> 's \<Rightarrow> bool" and inv :: "'s \<Rightarrow> bool" and less_work :: "('s \<times> 's) set"
  assumes less_work_wf: "wf less_work"
    and step_inv: "step s t \<Longrightarrow> inv s \<Longrightarrow> inv t"
    and step_work: "step s t \<Longrightarrow> inv s \<Longrightarrow> (t, s) \<in> less_work"
begin

lemma run_inv: "step\<^sup>*\<^sup>* s t \<Longrightarrow> inv s \<Longrightarrow> inv t"
  by (induction rule: rtranclp_induct) (auto intro: step_inv)

lemma run_ends: "inv s \<Longrightarrow> \<exists>t. step\<^sup>*\<^sup>* s t \<and> (\<nexists>u. step t u)"
proof (induction s rule: wf_induct_rule[OF less_work_wf])
  case (1 s)
  show ?case
  proof (cases "\<exists>u. step s u")
    case True
    then obtain u where u: "step s u" by blast
    with 1 step_work step_inv show ?thesis by (meson converse_rtranclp_into_rtranclp)
  qed blast
qed

lemma no_endless_run: "inv s \<Longrightarrow> \<nexists>f. f 0 = s \<and> (\<forall>n. step (f n) (f (Suc n)))"
proof
  assume "inv s" and "\<exists>f. f 0 = s \<and> (\<forall>n. step (f n) (f (Suc n)))"
  then obtain f where f: "inv (f 0)" "\<And>n. step (f n) (f (Suc n))" by auto
  have "inv (f n)" for n by (induction n) (auto intro: f step_inv)
  with f(2) have "\<forall>n. (f (Suc n), f n) \<in> less_work" by (auto intro: step_work)
  with less_work_wf show False by (auto simp: wf_iff_no_infinite_down_chain)
qed

end

section \<open>Decimal rendering\<close>

fun digits :: "nat \<Rightarrow> string" where
  "digits n = (if n < 10 then [char_of (48 + n)] else digits (n div 10) @ [char_of (48 + n mod 10)])"

declare digits.simps [simp del]

lemma digits_not_Nil [simp]: "digits n \<noteq> []"
  by (subst digits.simps) simp

lemma digits_less_10: "n < 10 \<Longrightarrow> digits n = [char_of (48 + n)]"
  by (simp add: digits.simps)

lemma digits_ge_10: "10 \<le> n \<Longrightarrow> digits n = digits (n div 10) @ [char_of (48 + n mod 10)]"
  by (subst digits.simps) simp

lemmas digits_rec = digits_less_10 digits_ge_10

end
