(* ===== verification/Crab_Errors.thy ===== *)
theory Crab_Errors
  imports Crab_Prelude
begin

text \<open>
  \<^verbatim>\<open>src/src/crab/errors.rs\<close>: the error type \<open>CrabError\<close>, its numeric codes, their messages and
  the \<open>Display\<close> rendering.  An error value of another library (rustls, std::io, quinn,
  binrw, tokio) is observed by the code only through \<open>Display\<close>; it is represented by the
  text it prints, \<open>ext_error\<close>.
\<close>

type_synonym ext_error = string

datatype crab_error =
    TLS ext_error
  | IO ext_error
  | TLSVerifier ext_error
  | QuicConnectionError ext_error
  | QuicReadExactError ext_error
  | QuicWriteError ext_error
  | EncodeError ext_error
  | JoinError ext_error
  | ErrorCode u32
  | ErrorCodeWithMessage u32 string

section \<open>The numeric codes\<close>

definition NO_ERROR :: u32 where "NO_ERROR = 0"
definition BAD_STATUS_ERROR :: u32 where "BAD_STATUS_ERROR = 1"
definition UNSUPPORTED_ERROR :: u32 where "UNSUPPORTED_ERROR = 2"
definition KEY_NOT_FOUND :: u32 where "KEY_NOT_FOUND = 3"
definition CRYPTO_ERROR :: u32 where "CRYPTO_ERROR = 4"
definition BAD_ADDR :: u32 where "BAD_ADDR = 5"
definition PARSE_ERROR :: u32 where "PARSE_ERROR = 6"
definition IO_BAD_MESSAGE :: u32 where "IO_BAD_MESSAGE = 7"
definition NO_PAYLOAD :: u32 where "NO_PAYLOAD = 8"
definition CONNECT_HANDSHAKE_ERROR :: u32 where "CONNECT_HANDSHAKE_ERROR = 9"
definition HANDSHAKE_ERROR :: u32 where "HANDSHAKE_ERROR = 10"
definition BAD_REMOTE_ADDR :: u32 where "BAD_REMOTE_ADDR = 11"
definition CONNECT_ERROR :: u32 where "CONNECT_ERROR = 12"
definition HANDSHAKE_TIMEOUT :: u32 where "HANDSHAKE_TIMEOUT = 13"
definition CANCELED_ERROR :: u32 where "CANCELED_ERROR = 14"
definition PAYLOAD_TOO_LARGE :: u32 where "PAYLOAD_TOO_LARGE = 15"
definition BAD_MESSAGE_HEADER :: u32 where "BAD_MESSAGE_HEADER = 16"
definition DESERIALIZATION_ERROR :: u32 where "DESERIALIZATION_ERROR = 17"
definition HEARTBEAT_TIMEOUT :: u32 where "HEARTBEAT_TIMEOUT = 18"
definition CONN_HANDSHAKE_ERROR :: u32 where "CONN_HANDSHAKE_ERROR = 19"
definition NODE_ALREADY_EXIT :: u32 where "NODE_ALREADY_EXIT = 20"
definition NODE_EXISTS :: u32 where "NODE_EXISTS = 21"
definition UNEXCEPTED_RESPONSE :: u32 where "UNEXCEPTED_RESPONSE = 22"
definition TASK_ACK_FAILED :: u32 where "TASK_ACK_FAILED = 23"
definition BAD_PARAMETER :: u32 where "BAD_PARAMETER = 24"
definition TIMEOUT_ERROR :: u32 where "TIMEOUT_ERROR = 25"
definition NO_ENOUGH_SPACE :: u32 where "NO_ENOUGH_SPACE = 26"
definition ALREADY_SERVED :: u32 where "ALREADY_SERVED = 27"
definition ENCODING_ERROR :: u32 where "ENCODING_ERROR = 28"
definition DNS_RESOLVE_ERROR :: u32 where "DNS_RESOLVE_ERROR = 29"
definition NETWORK_ERROR :: u32 where "NETWORK_ERROR = 30"
definition ILLEGAL_ERROR :: u32 where "ILLEGAL_ERROR = 0xfffffffe"
definition UNKNOWN_ERROR :: u32 where "UNKNOWN_ERROR = 0xffffffff"

lemmas error_codes = NO_ERROR_def BAD_STATUS_ERROR_def UNSUPPORTED_ERROR_def KEY_NOT_FOUND_def
    CRYPTO_ERROR_def BAD_ADDR_def PARSE_ERROR_def IO_BAD_MESSAGE_def NO_PAYLOAD_def
    CONNECT_HANDSHAKE_ERROR_def HANDSHAKE_ERROR_def BAD_REMOTE_ADDR_def CONNECT_ERROR_def
    HANDSHAKE_TIMEOUT_def CANCELED_ERROR_def PAYLOAD_TOO_LARGE_def BAD_MESSAGE_HEADER_def
    DESERIALIZATION_ERROR_def HEARTBEAT_TIMEOUT_def CONN_HANDSHAKE_ERROR_def NODE_ALREADY_EXIT_def
    NODE_EXISTS_def UNEXCEPTED_RESPONSE_def TASK_ACK_FAILED_def BAD_PARAMETER_def
    TIMEOUT_ERROR_def NO_ENOUGH_SPACE_def ALREADY_SERVED_def ENCODING_ERROR_def
    DNS_RESOLVE_ERROR_def NETWORK_ERROR_def ILLEGAL_ERROR_def UNKNOWN_ERROR_def

text \<open>All the codes of the source, in the order of their declaration.\<close>

definition all_codes :: "u32 list" where
    "all_codes = [NO_ERROR, BAD_STATUS_ERROR, UNSUPPORTED_ERROR, KEY_NOT_FOUND, CRYPTO_ERROR,
    BAD_ADDR, PARSE_ERROR, IO_BAD_MESSAGE, NO_PAYLOAD, CONNECT_HANDSHAKE_ERROR, HANDSHAKE_ERROR,
    BAD_REMOTE_ADDR, CONNECT_ERROR, HANDSHAKE_TIMEOUT, CANCELED_ERROR, PAYLOAD_TOO_LARGE,
    BAD_MESSAGE_HEADER, DESERIALIZATION_ERROR, HEARTBEAT_TIMEOUT, CONN_HANDSHAKE_ERROR,
    NODE_ALREADY_EXIT, NODE_EXISTS, UNEXCEPTED_RESPONSE, TASK_ACK_FAILED, BAD_PARAMETER,
    TIMEOUT_ERROR, NO_ENOUGH_SPACE, ALREADY_SERVED, ENCODING_ERROR, DNS_RESOLVE_ERROR,
    NETWORK_ERROR, ILLEGAL_ERROR, UNKNOWN_ERROR]"

section \<open>Observations\<close>

fun err_no :: "crab_error \<Rightarrow> u32" where
  "err_no (ErrorCode c) = c"
| "err_no _ = UNKNOWN_ERROR"

definition code_message :: "u32 \<Rightarrow> string" where
  "code_message c =
    (if c = NO_ERROR then ''No error'' else
     if c = BAD_STATUS_ERROR then ''Bad status error'' else
     if c = UNSUPPORTED_ERROR then ''Unsupported error'' else
     if c = KEY_NOT_FOUND then ''Key not found'' else
     if c = CRYPTO_ERROR then ''Crypto error'' else
     if c = BAD_ADDR then ''Bad addr'' else
     if c = PARSE_ERROR then ''Parse error'' else
     if c = IO_BAD_MESSAGE then ''Bad message format'' else
     if c = NO_PAYLOAD then ''No payload'' else
     if c = CONNECT_HANDSHAKE_ERROR then ''connection handshake error'' else
     if c = HANDSHAKE_ERROR then ''Handshake error'' else
     if c = BAD_REMOTE_ADDR then ''Bad remote address'' else
     if c = CONNECT_ERROR then ''Connection error'' else
     if c = HANDSHAKE_TIMEOUT then ''Handshake timeout'' else
     if c = CANCELED_ERROR then ''Canceled error'' else
     if c = PAYLOAD_TOO_LARGE then ''Payload too large'' else
     if c = BAD_MESSAGE_HEADER then ''Bad message header'' else
     if c = DESERIALIZATION_ERROR then ''Deserialization error'' else
     if c = HEARTBEAT_TIMEOUT then ''Heartbeat timeout'' else
     if c = CONN_HANDSHAKE_ERROR then ''Connection handshake error'' else
     if c = NODE_ALREADY_EXIT then ''Node already exited'' else
     if c = ILLEGAL_ERROR then ''Illegal error'' else
     if c = UNKNOWN_ERROR then ''Unknown error'' else
     if c = UNEXCEPTED_RESPONSE then ''Unexpected response'' else
     if c = TASK_ACK_FAILED then ''Task ack failure'' else
     if c = BAD_PARAMETER then ''Bad parameter'' else
     if c = TIMEOUT_ERROR then ''Timeout error'' else
     if c = NO_ENOUGH_SPACE then ''No enough space'' else
     if c = ENCODING_ERROR then ''Encoding error'' else
     if c = DNS_RESOLVE_ERROR then ''DNS resolution error'' else
     if c = ALREADY_SERVED then ''Already served'' else
     if c = NETWORK_ERROR then ''Encoding error'' else
     ''Unknown error code'')"

fun error_message :: "crab_error \<Rightarrow> string" where
  "error_message (ErrorCode c) = code_message c"
| "error_message _ = []"

definition error_text :: "u32 \<Rightarrow> string \<Rightarrow> string" where
  "error_text c m = ''Error code '' @ digits (unat c) @ '': '' @ m"

fun display_error :: "crab_error \<Rightarrow> string" where
  "display_error (ErrorCode c) = error_text c (error_message (ErrorCode c))"
| "display_error (TLS e) = e"
| "display_error (IO e) = e"
| "display_error (TLSVerifier e) = e"
| "display_error (QuicConnectionError e) = e"
| "display_error (QuicReadExactError e) = e"
| "display_error (QuicWriteError e) = e"
| "display_error (EncodeError e) = e"
| "display_error (JoinError e) = e"
| "display_error (ErrorCodeWithMessage c m) = error_text c m"

lemma all_codes_distinct: "distinct all_codes"
  by (simp add: all_codes_def error_codes)

text \<open>\<open>NODE_EXISTS\<close> is the one code the match of \<open>error_message\<close> does not name.\<close>

lemma code_message_named:
  "c \<in> set all_codes \<Longrightarrow> c \<noteq> NODE_EXISTS \<Longrightarrow> code_message c \<noteq> ''Unknown error code''"
  unfolding all_codes_def by (auto simp: code_message_def)

lemma code_message_NODE_EXISTS: "code_message NODE_EXISTS = ''Unknown error code''"
  by (simp add: code_message_def error_codes)

lemma code_message_unnamed: "c \<notin> set all_codes \<Longrightarrow> code_message c = ''Unknown error code''"
  unfolding all_codes_def by (simp add: code_message_def)

lemma code_messages_distinct: "distinct (map code_message (remove1 NETWORK_ERROR all_codes))"
  by (simp add: all_codes_def code_message_def error_codes)

lemma err_no_code [simp]: "err_no (ErrorCode c) = c"
  by simp

section \<open>Properties\<close>

text \<open>
  A number has a message of its own exactly if it is one of the declared codes other
  than \<open>NODE_EXISTS\<close>: every code but that one is named by \<open>error_message\<close>, all codes are
  different numbers, and different codes have different messages, with the one exception
  that \<open>NETWORK_ERROR\<close> carries the message of \<open>ENCODING_ERROR\<close>.
\<close>

lemma code_messages:
  "(code_message c \<noteq> ''Unknown error code'' \<longleftrightarrow> c \<in> set all_codes \<and> c \<noteq> NODE_EXISTS) \<and>
   distinct all_codes \<and> distinct (map code_message (remove1 NETWORK_ERROR all_codes)) \<and>
   code_message NETWORK_ERROR = code_message ENCODING_ERROR"
proof (intro conjI)
  show "code_message c \<noteq> ''Unknown error code'' \<longleftrightarrow> c \<in> set all_codes \<and> c \<noteq> NODE_EXISTS"
    using code_message_named code_message_unnamed code_message_NODE_EXISTS by blast
  show "code_message NETWORK_ERROR = code_message ENCODING_ERROR"
    by (simp add: code_message_def error_codes)
qed (rule all_codes_distinct code_messages_distinct)+

end
