(* ===== verification/Crab_Types.thy ===== *)
theory Crab_Types
  imports Crab_Errors
begin

text \<open>
  \<^verbatim>\<open>src/src/crab/types.rs\<close>: the status of a node, the timing options, the metadata a
  handshake yields, and \<open>std::net::SocketAddr\<close>.  The octets of an address are a byte list;
  \<open>wf_addr\<close> says that it has the length of the Rust array.
\<close>

datatype node_status =
  NodeStatus_Ready | NodeStatus_Running | NodeStatus_Stopping | NodeStatus_Stopped

fun display_status :: "node_status \<Rightarrow> string" where
  "display_status NodeStatus_Ready = ''Ready''"
| "display_status NodeStatus_Running = ''Running''"
| "display_status NodeStatus_Stopping = ''Stopping''"
| "display_status NodeStatus_Stopped = ''Stopped''"

text \<open>The order in which a node passes through its states.\<close>

fun status_rank :: "node_status \<Rightarrow> nat" where
  "status_rank NodeStatus_Ready = 0"
| "status_rank NodeStatus_Running = 1"
| "status_rank NodeStatus_Stopping = 2"
| "status_rank NodeStatus_Stopped = 3"

lemma status_rank_inj: "status_rank a = status_rank b \<Longrightarrow> a = b"
  by (cases a; cases b) simp_all

instantiation node_status :: linorder
begin

definition less_eq_node_status :: "node_status \<Rightarrow> node_status \<Rightarrow> bool" where
  "less_eq_node_status a b \<longleftrightarrow> status_rank a \<le> status_rank b"

definition less_node_status :: "node_status \<Rightarrow> node_status \<Rightarrow> bool" where
  "less_node_status a b \<longleftrightarrow> status_rank a < status_rank b"

instance
  by (intro_classes) (auto simp: less_eq_node_status_def less_node_status_def dest: status_rank_inj)

end

lemmas status_order = less_eq_node_status_def less_node_status_def

record options =
  connect_timeout :: u64
  handshake_timeout :: u64
  first_heartbeat :: u64
  heartbeat_interval :: u64
  heartbeat_timeout :: u64

definition default_options :: options where
  "default_options = \<lparr>connect_timeout = 10, handshake_timeout = 10, first_heartbeat = 3,
     heartbeat_interval = 15, heartbeat_timeout = 30\<rparr>"

text \<open>Octets and port; an IPv6 address also has its flow information and scope.\<close>

datatype socket_addr = SocketAddrV4 bytes u16 | SocketAddrV6 bytes u16 u32 u32

fun addr_port :: "socket_addr \<Rightarrow> u16" where
  "addr_port (SocketAddrV4 _ p) = p"
| "addr_port (SocketAddrV6 _ p _ _) = p"

fun wf_addr :: "socket_addr \<Rightarrow> bool" where
  "wf_addr (SocketAddrV4 o4 _) \<longleftrightarrow> length o4 = 4"
| "wf_addr (SocketAddrV6 o16 _ _ _) \<longleftrightarrow> length o16 = 16"

record node_metadata =
  nm_node_id :: string
  nm_remote_addr :: socket_addr
  nm_as_client :: bool

end
