(* ===== verification/Crab_App_Types.thy ===== *)
theory Crab_App_Types
  imports Crab_Types
begin

text \<open>
  The data of the application: the handshake packet (\<^verbatim>\<open>src/src/app/types.rs\<close>), the HTTP
  request and response (\<^verbatim>\<open>src/src/app/utils/http.rs\<close>), the forwarding addresses and
  parameters (\<^verbatim>\<open>src/src/app/protocol/forwarder\<close>), the command structures
  (\<^verbatim>\<open>src/src/app/protocol/commands.rs\<close>) and the \<open>Command\<close> enum
  (\<^verbatim>\<open>src/src/app/protocol/types.rs\<close>).
\<close>

section \<open>Handshake\<close>

record disk_info =
  di_path :: string
  di_size :: u64
  di_free :: u64

record host_info =
  hi_version :: string
  hi_hostname :: string
  hi_os_version :: string
  hi_disk_info :: "disk_info list"

record handshake =
  hs_device_id :: string
  hs_host_info :: host_info

text \<open>The host name, the system version and the disks come from the operating system.\<close>

definition host_info_new :: "string option \<Rightarrow> string option \<Rightarrow> disk_info list \<Rightarrow> host_info" where
  "host_info_new host os disks =
    \<lparr>hi_version = ''0.1.0'',
     hi_hostname = (case host of None \<Rightarrow> ''unknown'' | Some h \<Rightarrow> h),
     hi_os_version = (case os of None \<Rightarrow> ''unknown'' | Some v \<Rightarrow> v),
     hi_disk_info = disks\<rparr>"

definition handshake_new :: "host_info \<Rightarrow> string \<Rightarrow> handshake" where
  "handshake_new host device = \<lparr>hs_device_id = device, hs_host_info = host\<rparr>"

section \<open>HTTP\<close>

datatype http_method =
  Http_Options | Http_Get | Http_Post | Http_Put | Http_Delete | Http_Head | Http_Trace
  | Http_Connect | Http_Patch

type_synonym headers = "(string \<times> string) list"

record http_request =
  hq_method :: http_method
  hq_request_uri :: string
  hq_headers :: headers

record http_response =
  hr_status_code :: u16
  hr_headers :: headers

section \<open>Forwarding\<close>

datatype address = SocketAddress socket_addr | DomainAddress string u16

text \<open>
  \<open>resolve\<close>: the first address the name lookup yields.  The lookup is the system's; it may
  fail or find nothing.
\<close>

definition resolve ::
  "(string \<Rightarrow> u16 \<Rightarrow> crab_error + socket_addr list) \<Rightarrow> address \<Rightarrow> crab_error + socket_addr" where
  "resolve lookup a =
    (case a of
       SocketAddress addr \<Rightarrow> Inr addr
     | DomainAddress host port \<Rightarrow>
         (case lookup host port of
            Inl e \<Rightarrow> Inl e
          | Inr [] \<Rightarrow> Inl (ErrorCode DNS_RESOLVE_ERROR)
          | Inr (x # _) \<Rightarrow> Inr x))"

record tcp_forward_params =
  tf_target_address :: address
  tf_connect_timeout :: u8
  tf_keepalive_timeout :: u8
  tf_keepalive_interval :: u8
  tf_keepalive_retries :: u8

section \<open>Commands\<close>

record delete_command =
  dc_path :: string
  dc_dir :: bool

record file_metadata =
  fm_filesize :: u64
  fm_dir :: bool
  fm_mtime :: u64
  fm_atime :: u64

record read_file =
  rf_path :: string

record write_file =
  wf_path :: string
  wf_overwrite :: bool
  wf_mkdir :: bool

record dir_entry =
  de_name :: string
  de_dir :: bool

datatype command =
    Command_Ping
  | Command_Delete delete_command
  | Command_ReadFile read_file
  | Command_ListDir string
  | Command_WriteFile write_file
  | Command_HttpProxy http_request
  | Command_TcpForward tcp_forward_params
  | Command_UdpForward "socket_addr option"

fun display_bool :: "bool \<Rightarrow> string" where
  "display_bool True = ''true''"
| "display_bool False = ''false''"

text \<open>\<open>Display\<close> for an address and for a command, given the rendering of socket addresses.\<close>

fun display_address :: "(socket_addr \<Rightarrow> string) \<Rightarrow> address \<Rightarrow> string" where
  "display_address show_addr (SocketAddress addr) = show_addr addr"
| "display_address show_addr (DomainAddress host port) =
     ''host:'' @ host @ '',port:'' @ digits (unat port)"

fun display_command :: "(socket_addr \<Rightarrow> string) \<Rightarrow> command \<Rightarrow> string" where
  "display_command sa Command_Ping = ''ping''"
| "display_command sa (Command_Delete d) = ''delete('' @ dc_path d @ '')''"
| "display_command sa (Command_ReadFile r) = ''read_file('' @ rf_path r @ '')''"
| "display_command sa (Command_WriteFile w) =
     ''write_file('' @ wf_path w @ '',mkdir='' @ display_bool (wf_mkdir w)
       @ '',overwrite='' @ display_bool (wf_overwrite w) @ '')''"
| "display_command sa (Command_ListDir p) = ''dir('' @ p @ '')''"
| "display_command sa (Command_HttpProxy h) = ''http_proxy('' @ hq_request_uri h @ '')''"
| "display_command sa (Command_TcpForward t) =
     ''tcp_forward('' @ display_address sa (tf_target_address t) @ '')''"
| "display_command sa (Command_UdpForward _) = ''udp_forward''"

end
