(* ===== verification/Crab_Files.thy ===== *)
theory Crab_Files
  imports Crab_App_Types
begin

text \<open>
  The file system as the commands see it, and \<^verbatim>\<open>src/src/app/protocol/util.rs\<close>.

  Paths are the component lists of \<open>std::path::Path\<close> on Unix.  A \<open>file_sys\<close> maps paths to
  files and directories and carries what the operating system decides: which operation
  on which path is refused (\<open>fs_denied\<close>), the text of an error, the times and the listing
  of a directory.  The operations are those of \<open>tokio::fs\<close>, which are the ones of \<open>std::fs\<close>:
  they return an error and leave the tree as it is, or succeed with their documented effect.
  The empty path names nothing (\<open>stat\<close> reports it as absent).  \<open>file_store\<close> is the contract of
  these operations on which the commands rely.
\<close>

section \<open>Paths\<close>

datatype path_comp = RootDir | CurDir | ParentDir | Normal string

type_synonym path = "path_comp list"

fun split_slash :: "string \<Rightarrow> string list" where
  "split_slash [] = [[]]"
| "split_slash (c # cs) =
    (if c = CHR ''/'' then [] # split_slash cs
     else (case split_slash cs of [] \<Rightarrow> [[c]] | p # ps \<Rightarrow> (c # p) # ps))"

definition piece_comp :: "string \<Rightarrow> path_comp option" where
  "piece_comp p =
    (if p = [] \<or> p = ''.'' then None else if p = ''..'' then Some ParentDir else Some (Normal p))"

definition components :: "string \<Rightarrow> path" where
  "components s =
    (let ps = split_slash s in
     (if s \<noteq> [] \<and> hd s = CHR ''/'' then [RootDir]
      else if ps \<noteq> [] \<and> hd ps = ''.'' then [CurDir] else [])
     @ List.map_filter piece_comp ps)"

definition file_name :: "path \<Rightarrow> string option" where
  "file_name p = (if p = [] then None else (case last p of Normal n \<Rightarrow> Some n | _ \<Rightarrow> None))"

definition parent :: "path \<Rightarrow> path option" where
  "parent p = (if p = [] \<or> last p = RootDir then None else Some (butlast p))"

lemma file_name_Some: "file_name p = Some n \<longleftrightarrow> (\<exists>q. p = q @ [Normal n])"
proof
  assume "file_name p = Some n"
  then have "p \<noteq> []" "last p = Normal n"
    by (auto simp: file_name_def split: if_splits path_comp.splits)
  then show "\<exists>q. p = q @ [Normal n]" by (metis append_butlast_last_id)
qed (auto simp: file_name_def)

lemma parent_Normal [simp]: "parent (q @ [Normal n]) = Some q"
  by (simp add: parent_def)

section \<open>The tree and its operations\<close>

datatype fnode = File bytes | Dir

datatype fs_op =
  Op_stat | Op_create | Op_write | Op_read | Op_rename | Op_remove | Op_remove_all | Op_mkdir | Op_list

text \<open>An entry of a directory stream: a name that may not be Unicode, a type that may not be known.\<close>

record raw_entry =
  re_name :: "string option"
  re_is_dir :: "ext_error + bool"

record file_sys =
  fs_nodes :: "path \<rightharpoonup> fnode"
  fs_denied :: "fs_op \<Rightarrow> path \<Rightarrow> bool"
  fs_text :: "fs_op \<Rightarrow> path \<Rightarrow> ext_error"
  fs_times :: "path \<Rightarrow> int option \<times> int option"
  fs_dir_len :: "path \<Rightarrow> u64"
  fs_entries :: "path \<Rightarrow> ext_error + (ext_error + raw_entry) list"

definition stat :: "file_sys \<Rightarrow> path \<Rightarrow> fnode option" where
  "stat f p = (if p = [] then None else fs_nodes f p)"

definition fs_fail :: "fs_op \<Rightarrow> path \<Rightarrow> file_sys \<Rightarrow> crab_error" where
  "fs_fail op p f = IO (fs_text f op p)"

definition fs_guard ::
  "fs_op \<Rightarrow> path \<Rightarrow> (file_sys \<Rightarrow> bool) \<Rightarrow> (file_sys \<Rightarrow> file_sys) \<Rightarrow> (file_sys \<Rightarrow> 'a)
    \<Rightarrow> (crab_error, file_sys, 'a) prog" where
  "fs_guard op p allowed effect result f =
    (if fs_denied f op p \<or> \<not> allowed f then (Inl (fs_fail op p f), f) else (Inr (result f), effect f))"

definition try_exists :: "path \<Rightarrow> (crab_error, file_sys, bool) prog" where
  "try_exists p = fs_guard Op_stat p (\<lambda>_. True) (\<lambda>f. f) (\<lambda>f. stat f p \<noteq> None)"

definition is_dir_at :: "path \<Rightarrow> (crab_error, file_sys, bool) prog" where
  "is_dir_at p = fs_guard Op_stat p (\<lambda>f. stat f p \<noteq> None) (\<lambda>f. f) (\<lambda>f. stat f p = Some Dir)"

definition create_dir_all :: "path \<Rightarrow> (crab_error, file_sys, unit) prog" where
  "create_dir_all p =
    (if p = [] then ret ()
     else fs_guard Op_mkdir p
       (\<lambda>f. list_all (\<lambda>n. case stat f (take n p) of Some (File _) \<Rightarrow> False | _ \<Rightarrow> True) [1..<Suc (length p)])
       (\<lambda>f. f\<lparr>fs_nodes := (\<lambda>q. if q \<noteq> [] \<and> take (length q) p = q then Some Dir else fs_nodes f q)\<rparr>)
       (\<lambda>_. ()))"

text \<open>A name without a directory part is looked up in the working directory.\<close>

definition parent_is_dir :: "file_sys \<Rightarrow> path \<Rightarrow> bool" where
  "parent_is_dir f p \<longleftrightarrow> butlast p = [] \<or> stat f (butlast p) = Some Dir"

definition create_file :: "path \<Rightarrow> (crab_error, file_sys, unit) prog" where
  "create_file p =
    fs_guard Op_create p (\<lambda>f. p \<noteq> [] \<and> stat f p \<noteq> Some Dir \<and> parent_is_dir f p)
      (\<lambda>f. f\<lparr>fs_nodes := (fs_nodes f)(p \<mapsto> File [])\<rparr>) (\<lambda>_. ())"

text \<open>Writing to an open file; a name that is gone takes the bytes with it.\<close>

definition write_contents :: "path \<Rightarrow> bytes \<Rightarrow> (crab_error, file_sys, unit) prog" where
  "write_contents p bs =
    fs_guard Op_write p (\<lambda>_. True)
      (\<lambda>f. case stat f p of Some (File _) \<Rightarrow> f\<lparr>fs_nodes := (fs_nodes f)(p \<mapsto> File bs)\<rparr> | _ \<Rightarrow> f)
      (\<lambda>_. ())"

definition rename :: "path \<Rightarrow> path \<Rightarrow> (crab_error, file_sys, unit) prog" where
  "rename p q =
    fs_guard Op_rename p
      (\<lambda>f. (case stat f p of Some (File _) \<Rightarrow> True | _ \<Rightarrow> False) \<and> q \<noteq> [] \<and> stat f q \<noteq> Some Dir
         \<and> parent_is_dir f q)
      (\<lambda>f. f\<lparr>fs_nodes := ((fs_nodes f)(p := None))(q := stat f p)\<rparr>) (\<lambda>_. ())"

definition remove_file :: "path \<Rightarrow> (crab_error, file_sys, unit) prog" where
  "remove_file p =
    fs_guard Op_remove p (\<lambda>f. case stat f p of Some (File _) \<Rightarrow> True | _ \<Rightarrow> False)
      (\<lambda>f. f\<lparr>fs_nodes := (fs_nodes f)(p := None)\<rparr>) (\<lambda>_. ())"

definition remove_dir_all :: "path \<Rightarrow> (crab_error, file_sys, unit) prog" where
  "remove_dir_all p =
    fs_guard Op_remove_all p (\<lambda>f. stat f p = Some Dir)
      (\<lambda>f. f\<lparr>fs_nodes := (\<lambda>q. if take (length p) q = p then None else fs_nodes f q)\<rparr>) (\<lambda>_. ())"

text \<open>Opening for reading succeeds on a directory too; reading it then fails.\<close>

definition open_file :: "path \<Rightarrow> (crab_error, file_sys, fnode) prog" where
  "open_file p = fs_guard Op_read p (\<lambda>f. stat f p \<noteq> None) (\<lambda>f. f) (\<lambda>f. the (stat f p))"

section \<open>The contract\<close>

text \<open>
  What the commands use of the operations: a failed operation changes nothing; creating,
  writing, renaming and removing have their effect on the named paths and on no other.
\<close>

locale file_store =
  fixes look :: "'f \<Rightarrow> path \<Rightarrow> fnode option"
    and mk :: "path \<Rightarrow> (crab_error, 'f, unit) prog"
    and put :: "path \<Rightarrow> bytes \<Rightarrow> (crab_error, 'f, unit) prog"
    and mv :: "path \<Rightarrow> path \<Rightarrow> (crab_error, 'f, unit) prog"
    and rm :: "path \<Rightarrow> (crab_error, 'f, unit) prog"
  assumes mk_fail: "mk p f = (Inl e, g) \<Longrightarrow> g = f"
    and put_fail: "put p bs f = (Inl e, g) \<Longrightarrow> g = f"
    and mv_fail: "mv p q f = (Inl e, g) \<Longrightarrow> g = f"
    and rm_fail: "rm p f = (Inl e, g) \<Longrightarrow> g = f"
    and mk_ok: "mk p f = (Inr u, g) \<Longrightarrow> look g = (look f)(p \<mapsto> File [])"
    and put_ok: "put p bs f = (Inr u, g) \<Longrightarrow> look f p = Some (File cs) \<Longrightarrow> look g = (look f)(p \<mapsto> File bs)"
    and mv_ok: "mv p q f = (Inr u, g) \<Longrightarrow> look g = ((look f)(p := None))(q := look f p)"
    and rm_ok: "rm p f = (Inr u, g) \<Longrightarrow> look g = (look f)(p := None)"
begin

lemma publish:
  assumes "mk p f = (Inr u, f1)" "put p bs f1 = (Inr v, f2)" "mv p q f2 = (Inr w, f3)"
  shows "look f3 = ((look f)(p := None))(q \<mapsto> File bs)"
proof -
  have 1: "look f1 = (look f)(p \<mapsto> File [])" using assms(1) by (rule mk_ok)
  then have 2: "look f2 = (look f)(p \<mapsto> File bs)" using put_ok[OF assms(2)] by simp
  from mv_ok[OF assms(3)] show ?thesis by (auto simp: 2)
qed

lemma abandon:
  assumes "mk p f = (Inr u, f1)" "put p bs f1 = (r, f2)" "rm p f2 = (Inr w, f3)"
  shows "look f3 = (look f)(p := None)"
proof -
  have 1: "look f1 = (look f)(p \<mapsto> File [])" using assms(1) by (rule mk_ok)
  have "\<exists>n. look f2 = (look f)(p \<mapsto> File n)"
  proof (cases r)
    case (Inl e)
    with assms(2) 1 put_fail show ?thesis by blast
  next
    case (Inr v)
    with put_ok[of p bs f1 v f2] assms(2) 1 show ?thesis by auto
  qed
  with rm_ok[OF assms(3)] show ?thesis by auto
qed

end

lemmas fs_op_defs = try_exists_def is_dir_at_def create_dir_all_def create_file_def
  write_contents_def rename_def remove_file_def remove_dir_all_def open_file_def

interpretation disk: file_store stat create_file write_contents rename remove_file
  by unfold_locales
    (auto simp: fs_op_defs fs_guard_def stat_def fun_eq_iff split: if_splits option.splits fnode.splits)

section \<open>Temporary paths\<close>

definition TEMP_FILE_SUFFIX :: string where "TEMP_FILE_SUFFIX = ''.crab_temp''"

definition temp_path :: "path \<Rightarrow> path option" where
  "temp_path p =
    map_option (\<lambda>n. (case parent p of None \<Rightarrow> [] | Some b \<Rightarrow> b) @ [Normal (n @ TEMP_FILE_SUFFIX)])
      (file_name p)"

definition generate_temp_path :: "string \<Rightarrow> bool \<Rightarrow> (crab_error, file_sys, path) prog" where
  "generate_temp_path target mkdir =
    (let filepath = components target;
         base = (case parent filepath of None \<Rightarrow> [] | Some b \<Rightarrow> b)
     in case file_name filepath of
          None \<Rightarrow> throw (ErrorCode BAD_PARAMETER)
        | Some filename \<Rightarrow>
            andthen (if mkdir then create_dir_all base else ret ()) (\<lambda>_.
            andthen (try_exists base) (\<lambda>exists.
              if \<not> exists then throw (IO ''directory not exists'')
              else andthen (is_dir_at base) (\<lambda>dir.
                if \<not> dir then throw (IO ''directory not exists'')
                else ret (base @ [Normal (filename @ TEMP_FILE_SUFFIX)])))))"

lemma temp_path_Some:
  "temp_path p = Some t \<longleftrightarrow>
    (\<exists>q n. p = q @ [Normal n] \<and> t = q @ [Normal (n @ TEMP_FILE_SUFFIX)])"
  by (auto simp: temp_path_def file_name_Some)

lemma temp_path_differs: "temp_path p = Some t \<Longrightarrow> t \<noteq> p"
  by (auto simp: temp_path_Some TEMP_FILE_SUFFIX_def)

lemma temp_path_inj: "temp_path p = Some t \<Longrightarrow> temp_path q = Some t \<Longrightarrow> p = q"
  by (auto simp: temp_path_Some)

text \<open>Without \<open>mkdir\<close> the path is found without touching the tree.\<close>

lemma generate_temp_path_pure:
  "generate_temp_path target False f = (r, g) \<Longrightarrow> g = f"
  by (auto simp: generate_temp_path_def Let_def andthen_def fs_op_defs fs_guard_def
      split: option.splits if_splits prod.splits sum.splits)

text \<open>With it, all that can change is that directories appear above the target.\<close>

lemma create_dir_all_made:
  assumes "create_dir_all p f = (r, g)"
  shows "stat g q = stat f q \<or>
    (length q \<le> length p \<and> take (length q) p = q \<and> stat f q = None \<and> stat g q = Some Dir)"
proof (cases "q \<noteq> [] \<and> take (length q) p = q \<and> g \<noteq> f")
  case True
  then have q: "length q \<le> length p" "length q \<noteq> 0" "take (length q) p = q"
    by (metis length_take min.cobounded1, simp_all)
  then have "p \<noteq> []" by auto
  with True assms have free: "\<And>n. n \<in> {1..length p} \<Longrightarrow> case stat f (take n p) of Some (File _) \<Rightarrow> False | _ \<Rightarrow> True"
    and g: "g = f\<lparr>fs_nodes := (\<lambda>q. if q \<noteq> [] \<and> take (length q) p = q then Some Dir else fs_nodes f q)\<rparr>"
    by (auto simp: create_dir_all_def fs_guard_def list_all_iff simp del: upt_Suc split: if_splits)
  from free[of "length q"] q have "stat f q = None \<or> stat f q = Some Dir"
    by (auto split: option.splits fnode.splits)
  moreover from g True have "stat g q = Some Dir" by (simp add: stat_def)
  ultimately show ?thesis using q by auto
next
  case False
  then show ?thesis
    using assms by (auto simp: create_dir_all_def fs_guard_def stat_def split: if_splits)
qed

definition dirs_made :: "path \<Rightarrow> bool \<Rightarrow> file_sys \<Rightarrow> file_sys \<Rightarrow> bool" where
  "dirs_made p mkdir f g \<longleftrightarrow> (\<forall>q. stat g q = stat f q \<or>
    (mkdir \<and> length q < length p \<and> take (length q) p = q \<and> stat f q = None \<and> stat g q = Some Dir))"

lemma dirs_made_refl [simp]: "dirs_made p mkdir f f"
  by (simp add: dirs_made_def)

lemma generate_temp_path_made:
  assumes "generate_temp_path target mkdir f = (r, g)"
  shows "dirs_made (components target) mkdir f g"
proof (cases "g = f")
  case False
  with assms obtain base n r' where "mkdir" "components target = base @ [n]" "create_dir_all base f = (r', g)"
    by (auto simp: generate_temp_path_def Let_def andthen_def try_exists_def is_dir_at_def fs_guard_def file_name_Some
        split: option.splits if_splits prod.splits sum.splits)
  then show ?thesis
    unfolding dirs_made_def using create_dir_all_made[of base f r' g] by force
qed simp

lemma generate_temp_path_ok:
  assumes "generate_temp_path target mkdir f = (Inr t, g)"
  shows "temp_path (components target) = Some t \<and> stat g (butlast t) = Some Dir"
  using assms
  by (auto simp: generate_temp_path_def Let_def andthen_def fs_op_defs fs_guard_def file_name_Some
      temp_path_Some stat_def
      split: option.splits if_splits prod.splits sum.splits)

section \<open>Properties\<close>

text \<open>
  The temporary file is a sibling of its target and of no other.  The path that
  \<open>generate_temp_path\<close> yields is in the target's directory, which is an existing directory
  then, it is not the target, and two targets with the same temporary path are the same.
\<close>

lemma temp_path_sibling:
  assumes "generate_temp_path target mkdir f = (Inr t, g)"
  shows "butlast t = butlast (components target) \<and> t \<noteq> components target \<and>
    stat g (butlast t) = Some Dir \<and>
    (\<forall>target' mkdir' f' g'. generate_temp_path target' mkdir' f' = (Inr t, g') \<longrightarrow>
       components target' = components target)"
proof -
  from generate_temp_path_ok[OF assms]
  have t: "temp_path (components target) = Some t" "stat g (butlast t) = Some Dir" by auto
  moreover from t(1) have "butlast t = butlast (components target)"
    by (auto simp: temp_path_Some)
  ultimately show ?thesis
    using temp_path_differs temp_path_inj by (blast dest: generate_temp_path_ok)
qed

definition sample_fs :: file_sys where
  "sample_fs = \<lparr>fs_nodes = [[RootDir] \<mapsto> Dir, [RootDir, Normal ''a''] \<mapsto> File [1]],
     fs_denied = (\<lambda>_ _. False), fs_text = (\<lambda>_ _. ''os error''), fs_times = (\<lambda>_. (None, Some 1500000)),
     fs_dir_len = (\<lambda>_. 4096),
     fs_entries = (\<lambda>_. Inr [Inr \<lparr>re_name = Some ''a'', re_is_dir = Inr False\<rparr>])\<rparr>"

lemma sample_temp:
  "generate_temp_path ''/a'' False sample_fs = (Inr [RootDir, Normal ''a.crab_temp''], sample_fs)"
  by (simp add: generate_temp_path_def components_def piece_comp_def List.map_filter_simps file_name_def
      parent_def Let_def andthen_def fs_op_defs fs_guard_def sample_fs_def stat_def TEMP_FILE_SUFFIX_def)

lemma temp_path_sibling_witness:
  "butlast [RootDir, Normal ''a.crab_temp''] = butlast (components ''/a'') \<and>
   [RootDir, Normal ''a.crab_temp''] \<noteq> components ''/a'' \<and>
   stat sample_fs (butlast [RootDir, Normal ''a.crab_temp'']) = Some Dir"
  using temp_path_sibling[OF sample_temp] by blast

text \<open>
  A target given as a bare file name is always refused.  Its parent is the empty path,
  which does not exist as a path, so \<open>generate_temp_path\<close> fails with \<open>directory not exists\<close>
  and changes nothing, whatever is in the working directory and also when asked to create
  the directory.
\<close>

lemma bare_name_refused:
  assumes "components target = [Normal n]" "\<not> fs_denied f Op_stat []"
  shows "generate_temp_path target mkdir f = (Inl (IO ''directory not exists''), f)"
  using assms
  by (simp add: generate_temp_path_def file_name_def parent_def andthen_def fs_op_defs fs_guard_def stat_def)

lemma bare_name_refused_witness:
  "generate_temp_path ''a'' True sample_fs = (Inl (IO ''directory not exists''), sample_fs)"
  by (rule bare_name_refused[of _ "''a''"])
    (simp_all add: components_def piece_comp_def List.map_filter_simps sample_fs_def)

end
