(* ===== verification/Crab_Wire.thy ===== *)
theory Crab_Wire
  imports Crab_Errors
begin

text \<open>
  \<^verbatim>\<open>src/src/crab/proto/types.rs\<close>: the message header, the methods and the acknowledgement.

  The byte layout of \<open>MessageHeader\<close> is the one its \<open>binrw\<close> attributes declare: the magic
  \<open>CRAB\<close>, then the fields in order, little-endian, the method as the \<open>u16\<close> of its
  discriminant.  Reading fails on another magic, an unknown discriminant or missing bytes.
  The payloads are serialised by \<open>bincode\<close>, which is not part of the sources: a codec is a
  parameter, a record of a serialiser (which may fail) and a deserialiser, which returns
  the value and the number of bytes it used.  \<open>codec_ok\<close> is the round trip \<open>bincode\<close>
  documents.
\<close>

section \<open>Methods\<close>

datatype method_t =
  Method_Handshake | Method_Heartbeat | Method_Ack | Method_Error | Method_Command

fun method_repr :: "method_t \<Rightarrow> u16" where
  "method_repr Method_Handshake = 0"
| "method_repr Method_Heartbeat = 1"
| "method_repr Method_Ack = 2"
| "method_repr Method_Error = 3"
| "method_repr Method_Command = 4"

definition method_of_repr :: "u16 \<Rightarrow> method_t option" where
  "method_of_repr w =
    (if w = 0 then Some Method_Handshake else if w = 1 then Some Method_Heartbeat
     else if w = 2 then Some Method_Ack else if w = 3 then Some Method_Error
     else if w = 4 then Some Method_Command else None)"

lemma method_of_repr_repr [simp]: "method_of_repr (method_repr m) = Some m"
  by (cases m) (simp_all add: method_of_repr_def)

lemma method_of_repr_Some: "method_of_repr w = Some m \<Longrightarrow> w = method_repr m"
  by (auto simp: method_of_repr_def split: if_splits)

section \<open>The message header\<close>

record message_header =
  mh_version :: u8
  mh_option :: u8
  mh_method :: method_t
  mh_length :: u32

definition OPTION_NONE :: u8 where "OPTION_NONE = 0"
definition OPTION_ERROR :: u8 where "OPTION_ERROR = 1"

definition header_ok :: "message_header \<Rightarrow> bool" where
  "header_ok h \<longleftrightarrow> mh_option h AND OPTION_ERROR \<noteq> OPTION_ERROR"

definition header_magic :: bytes where
  "header_magic = [0x43, 0x52, 0x41, 0x42]"

definition write_header :: "message_header \<Rightarrow> bytes" where
  "write_header h = header_magic @ [mh_version h, mh_option h]
     @ le16 (method_repr (mh_method h)) @ le32 (mh_length h)"

definition read_header :: "bytes \<Rightarrow> (message_header \<times> bytes) option" where
  "read_header bs =
    (case bs of
       m1 # m2 # m3 # m4 # v # opt # r \<Rightarrow>
         if [m1, m2, m3, m4] \<noteq> header_magic then None
         else (case of_le16 r of
             None \<Rightarrow> None
           | Some (w, r1) \<Rightarrow> (case method_of_repr w of
               None \<Rightarrow> None
             | Some m \<Rightarrow> (case of_le32 r1 of
                 None \<Rightarrow> None
               | Some (n, r2) \<Rightarrow> Some (\<lparr>mh_version = v, mh_option = opt, mh_method = m, mh_length = n\<rparr>, r2))))
     | _ \<Rightarrow> None)"

lemma write_header_length: "length (write_header h) = 12"
  by (simp add: write_header_def header_magic_def wire_simps)

lemma read_write_header: "read_header (write_header h @ r) = Some (h, r)"
  by (simp add: read_header_def write_header_def header_magic_def wire_simps)

lemma write_read_header: "read_header bs = Some (h, r) \<Longrightarrow> bs = write_header h @ r"
  by (auto simp: read_header_def write_header_def header_magic_def
      split: list.splits if_splits option.splits
      dest!: method_of_repr_Some le16.dec_sound le32.dec_sound)

interpretation mh: fixed_codec write_header read_header 12
  by unfold_locales (simp_all add: write_header_length read_write_header write_read_header)

lemmas [wire_simps] = mh.dec_enc mh.enc_width mh.dec_take

section \<open>Payload codecs\<close>

record 'm codec =
  ser :: "'m \<Rightarrow> bytes option"
  de :: "bytes \<Rightarrow> ('m \<times> nat) option"

definition codec_ok :: "'m codec \<Rightarrow> bool" where
  "codec_ok c \<longleftrightarrow> (\<forall>m bs. ser c m = Some bs \<longrightarrow> (\<exists>n. de c bs = Some (m, n)))"

lemma codec_okD: "codec_ok c \<Longrightarrow> ser c m = Some bs \<Longrightarrow> \<exists>n. de c bs = Some (m, n)"
  by (simp add: codec_ok_def)

text \<open>A codec given by a table of values and their encodings, for concrete instances.\<close>

definition table_codec :: "('m \<times> bytes) list \<Rightarrow> 'm codec" where
  "table_codec tab =
    \<lparr>ser = map_of tab, de = (\<lambda>bs. map_option (\<lambda>m. (m, length bs)) (map_of (map prod.swap tab) bs))\<rparr>"

lemma table_codec_ok: "distinct (map snd tab) \<Longrightarrow> codec_ok (table_codec tab)"
  unfolding codec_ok_def table_codec_def
  by (force dest!: map_of_SomeD intro!: map_of_is_SomeI simp: comp_def prod.swap_def)

section \<open>Acknowledgements\<close>

record ack_message =
  ack_code :: u32
  ack_msg :: "string option"

fun ack_from_error :: "crab_error \<Rightarrow> ack_message" where
  "ack_from_error (ErrorCode c) = \<lparr>ack_code = c, ack_msg = None\<rparr>"
| "ack_from_error e = \<lparr>ack_code = UNKNOWN_ERROR, ack_msg = Some (display_error e)\<rparr>"

definition ack_success :: ack_message where
  "ack_success = \<lparr>ack_code = NO_ERROR, ack_msg = None\<rparr>"

definition ack_into_result :: "ack_message \<Rightarrow> crab_error + unit" where
  "ack_into_result a =
    (if ack_code a = NO_ERROR then Inr ()
     else (case ack_msg a of
         None \<Rightarrow> Inl (ErrorCode (ack_code a))
       | Some m \<Rightarrow> Inl (ErrorCodeWithMessage (ack_code a) m)))"

definition ack_from_result :: "crab_error + unit \<Rightarrow> ack_message" where
  "ack_from_result r =
    ack_from_error (case r of Inr _ \<Rightarrow> ErrorCode NO_ERROR | Inl e \<Rightarrow> e)"

lemma ack_success_ok [simp]: "ack_into_result ack_success = Inr ()"
  by (simp add: ack_into_result_def ack_success_def)

lemma ack_from_ok [simp]: "ack_from_result (Inr ()) = ack_success"
  by (simp add: ack_from_result_def ack_success_def)

lemma ack_from_error_code: "ack_code (ack_from_error e) = err_no e"
  by (cases e) simp_all

lemma ack_into_Inr_iff: "ack_into_result a = Inr () \<longleftrightarrow> ack_code a = NO_ERROR"
  by (simp add: ack_into_result_def split: option.splits)

end
