(* ===== verification/Crab_Stream.thy ===== *)
theory Crab_Stream
  imports Crab_Wire
begin

text \<open>
  \<^verbatim>\<open>src/src/crab/proto/util.rs\<close>: a bidirectional stream and the messages on it.

  A \<open>stream\<close> holds what the code can observe of a QUIC stream: the bytes the peer sends
  that are not read yet (\<open>rx\<close>), whether they end with a clean finish or with an error
  (\<open>rx_fin\<close>, \<open>rx_err\<close> is the text of that error), the bytes written so far (\<open>tx\<close>), how
  many more bytes the connection accepts before writing fails (\<open>tx_cap\<close>, \<open>None\<close> for a
  connection that stays up) and the text of that failure.  The operations are written over
  the record scheme, so components extend the state with their own fields.
\<close>

section \<open>Stream state and byte operations\<close>

record stream =
  rx :: bytes
  rx_fin :: bool
  rx_err :: ext_error
  tx :: bytes
  tx_cap :: "nat option"
  tx_err :: ext_error

type_synonym ('z, 'a) sprog = "(crab_error, 'z stream_scheme, 'a) prog"

definition HEADER_SIZE :: nat where "HEADER_SIZE = 12"
definition MAX_PAYLOAD_SIZE :: nat where "MAX_PAYLOAD_SIZE = 16 * 1024 * 1024"

definition read_exact :: "nat \<Rightarrow> ('z, bytes) sprog" where
  "read_exact n s =
    (if n \<le> length (rx s) then (Inr (take n (rx s)), s\<lparr>rx := drop n (rx s)\<rparr>)
     else (Inl (QuicReadExactError (rx_err s)), s\<lparr>rx := []\<rparr>))"

definition write_bytes :: "(ext_error \<Rightarrow> crab_error) \<Rightarrow> bytes \<Rightarrow> ('z, unit) sprog" where
  "write_bytes mk bs s =
    (case tx_cap s of
       None \<Rightarrow> (Inr (), s\<lparr>tx := tx s @ bs\<rparr>)
     | Some n \<Rightarrow>
         if length bs \<le> n then (Inr (), s\<lparr>tx := tx s @ bs, tx_cap := Some (n - length bs)\<rparr>)
         else (Inl (mk (tx_err s)), s\<lparr>tx := tx s @ take n bs, tx_cap := Some 0\<rparr>))"

definition write_all :: "bytes \<Rightarrow> ('z, unit) sprog" where
  "write_all = write_bytes QuicWriteError"

text \<open>
  \<open>tokio::io::copy\<close> from the stream to its end, and of a byte source onto the stream: the
  errors of both sides arrive as \<open>std::io::Error\<close>.
\<close>

definition read_to_end :: "('z, bytes) sprog" where
  "read_to_end s =
    (if rx_fin s then (Inr (rx s), s\<lparr>rx := []\<rparr>) else (Inl (IO (rx_err s)), s\<lparr>rx := []\<rparr>))"

definition copy_to_stream :: "bytes \<Rightarrow> ('z, unit) sprog" where
  "copy_to_stream = write_bytes IO"

section \<open>Messages\<close>

definition frame :: "'m codec \<Rightarrow> method_t \<Rightarrow> u8 \<Rightarrow> 'm \<Rightarrow> bytes option" where
  "frame c method opt msg =
    map_option (\<lambda>body.
      write_header \<lparr>mh_version = 0, mh_option = opt, mh_method = method,
        mh_length = word_of_nat (length body)\<rparr> @ body) (ser c msg)"

definition write_message :: "'m codec \<Rightarrow> method_t \<Rightarrow> u8 \<Rightarrow> 'm \<Rightarrow> ('z, unit) sprog" where
  "write_message c method opt msg =
    (case frame c method opt msg of
       None \<Rightarrow> throw (ErrorCode IO_BAD_MESSAGE)
     | Some buf \<Rightarrow> write_all buf)"

definition write_error ::
  "ack_message codec \<Rightarrow> method_t \<Rightarrow> u8 \<Rightarrow> crab_error \<Rightarrow> ('z, unit) sprog" where
  "write_error ac method opt err =
    write_message ac method (opt OR OPTION_ERROR) (ack_from_error err)"

definition decode_payload ::
  "ack_message codec \<Rightarrow> 'm codec \<Rightarrow> message_header \<Rightarrow> bytes \<Rightarrow> crab_error + message_header \<times> 'm" where
  "decode_payload ac c h buf =
    (if \<not> header_ok h then
       (case de ac buf of
          None \<Rightarrow> Inl (ErrorCode DESERIALIZATION_ERROR)
        | Some (msg, _) \<Rightarrow> Inl (ErrorCode (ack_code msg)))
     else
       (case de c buf of
          None \<Rightarrow> Inl (ErrorCode DESERIALIZATION_ERROR)
        | Some (msg, _) \<Rightarrow> Inr (h, msg)))"

definition read_message ::
  "ack_message codec \<Rightarrow> 'm codec \<Rightarrow> ('z, message_header \<times> 'm) sprog" where
  "read_message ac c =
    andthen (read_exact HEADER_SIZE) (\<lambda>header.
      case read_header header of
        None \<Rightarrow> throw (ErrorCode IO_BAD_MESSAGE)
      | Some (h, _) \<Rightarrow>
          if MAX_PAYLOAD_SIZE < unat (mh_length h) then throw (ErrorCode PAYLOAD_TOO_LARGE)
          else andthen (read_exact (unat (mh_length h))) (\<lambda>buf. lift (decode_payload ac c h buf)))"

definition read_ack :: "ack_message codec \<Rightarrow> ('z, unit) sprog" where
  "read_ack ac = andthen (read_message ac ac) (\<lambda>(_, ack). lift (ack_into_result ack))"

definition read_and_ack ::
  "ack_message codec \<Rightarrow> 'm codec \<Rightarrow> ('m \<Rightarrow> crab_error + 'm) option \<Rightarrow> ('z, message_header \<times> 'm) sprog" where
  "read_and_ack ac c valid =
    andthen (read_message ac c) (\<lambda>(h, msg).
      case (case valid of Some val \<Rightarrow> val msg | None \<Rightarrow> Inr msg) of
        Inr msg' \<Rightarrow>
          andthen (write_message ac (mh_method h) (mh_option h) ack_success) (\<lambda>_. ret (h, msg'))
      | Inl err \<Rightarrow>
          andthen (write_error ac (mh_method h) (mh_option h) err) (\<lambda>_. throw err))"

definition write_and_ack ::
  "ack_message codec \<Rightarrow> 'm codec \<Rightarrow> method_t \<Rightarrow> u8 \<Rightarrow> 'm \<Rightarrow> ('z, unit) sprog" where
  "write_and_ack ac c method opt msg =
    andthen (write_message c method opt msg) (\<lambda>_. read_ack ac)"

section \<open>Lemmas on byte operations\<close>

lemma read_exact_append [prog_simps]:
  "length bs = n \<Longrightarrow> rx s = bs @ rest \<Longrightarrow> read_exact n s = (Inr bs, s\<lparr>rx := rest\<rparr>)"
  by (simp add: read_exact_def)

lemma read_exact_short:
  "length (rx s) < n \<Longrightarrow> read_exact n s = (Inl (QuicReadExactError (rx_err s)), s\<lparr>rx := []\<rparr>)"
  by (simp add: read_exact_def)

lemma write_all_up [prog_simps]:
  "tx_cap s = None \<Longrightarrow> write_all bs s = (Inr (), s\<lparr>tx := tx s @ bs\<rparr>)"
  by (simp add: write_all_def write_bytes_def)

lemma copy_to_stream_up [prog_simps]:
  "tx_cap s = None \<Longrightarrow> copy_to_stream bs s = (Inr (), s\<lparr>tx := tx s @ bs\<rparr>)"
  by (simp add: copy_to_stream_def write_bytes_def)

lemma read_to_end_fin [prog_simps]:
  "rx_fin s \<Longrightarrow> read_to_end s = (Inr (rx s), s\<lparr>rx := []\<rparr>)"
  by (simp add: read_to_end_def)

text \<open>Whatever happens, writing only appends, and a failed write has used up its room.\<close>

lemma write_bytes_prefix:
  assumes "write_bytes mk bs s = (r, t)"
  shows "\<exists>n. tx t = tx s @ take n bs \<and> rx t = rx s \<and> (r = Inr () \<longrightarrow> length bs \<le> n)"
proof (cases "tx_cap s")
  case None
  with assms show ?thesis by (auto simp: write_bytes_def intro!: exI[of _ "length bs"])
next
  case (Some n)
  with assms show ?thesis
    by (auto simp: write_bytes_def split: if_splits intro!: exI[of _ n])
qed

section \<open>Written bytes are not taken back\<close>

definition grows :: "'z stream_scheme \<Rightarrow> 'z stream_scheme \<Rightarrow> bool" where
  "grows s t \<longleftrightarrow> (\<exists>out. tx t = tx s @ out)"

named_theorems grow_rules \<open>programs that only add to the bytes written\<close>

interpretation growth: kept_relation grows
  by unfold_locales (auto simp: grows_def)

lemmas [grow_rules] = growth.rules

lemma keeps_grows_stream [grow_rules]:
  "keeps grows (write_bytes mk bs) (\<lambda>_. True)" "keeps grows (read_exact n) (\<lambda>_. True)"
  by (auto intro!: keepsI simp: grows_def read_exact_def dest: write_bytes_prefix split: if_splits)

lemma keeps_grows_messages [grow_rules]:
  "keeps grows (write_message c me op m) (\<lambda>_. True)" "keeps grows (read_message ac c) (\<lambda>_. True)"
  "keeps grows (write_error ac me op e) (\<lambda>_. True)"
  unfolding write_message_def write_error_def write_all_def read_message_def
  by (auto intro!: grow_rules split: option.split)

section \<open>Lemmas on messages\<close>

text \<open>
  \<open>framed c method opt m bs\<close>: \<open>bs\<close> is the message \<open>m\<close> on the wire and its payload is small
  enough for the reader.
\<close>

definition framed :: "'m codec \<Rightarrow> method_t \<Rightarrow> u8 \<Rightarrow> 'm \<Rightarrow> bytes \<Rightarrow> bool" where
  "framed c method opt m bs \<longleftrightarrow>
     frame c method opt m = Some bs \<and> length bs \<le> HEADER_SIZE + MAX_PAYLOAD_SIZE"

definition head_of :: "method_t \<Rightarrow> u8 \<Rightarrow> bytes \<Rightarrow> message_header" where
  "head_of method opt bs = \<lparr>mh_version = 0, mh_option = opt, mh_method = method,
     mh_length = word_of_nat (length bs - HEADER_SIZE)\<rparr>"

lemma head_of_simps [simp]:
  "mh_method (head_of me op bs) = me" "mh_option (head_of me op bs) = op"
  by (simp_all add: head_of_def)

lemma frame_Some:
  "frame c me op m = Some bs \<longleftrightarrow>
     (\<exists>body. ser c m = Some body \<and> bs = write_header (head_of me op bs) @ body)"
  by (auto simp: frame_def head_of_def HEADER_SIZE_def wire_simps)
    (metis HEADER_SIZE_def add_diff_cancel_left' length_append write_header_length)

lemma frame_length: "frame c me op m = Some bs \<Longrightarrow> HEADER_SIZE \<le> length bs"
  by (auto simp: frame_def HEADER_SIZE_def wire_simps)

lemma framed_body:
  assumes "framed c me op m bs"
  obtains body where "ser c m = Some body" "bs = write_header (head_of me op bs) @ body"
    "unat (mh_length (head_of me op bs)) = length body" "length body \<le> MAX_PAYLOAD_SIZE"
proof -
  from assms obtain body where b: "ser c m = Some body" "bs = write_header (head_of me op bs) @ body"
    and len: "length bs \<le> HEADER_SIZE + MAX_PAYLOAD_SIZE"
    by (auto simp: framed_def frame_Some)
  have "length bs = HEADER_SIZE + length body"
    by (subst b(2)) (simp add: HEADER_SIZE_def wire_simps)
  with len have "length body \<le> MAX_PAYLOAD_SIZE" and
    "unat (mh_length (head_of me op bs)) = length body"
    by (simp_all add: head_of_def MAX_PAYLOAD_SIZE_def unat_of_nat take_bit_nat_eq_self)
  then show thesis using b that by blast
qed

lemma write_message_up [prog_simps]:
  "framed c me op m bs \<Longrightarrow> tx_cap s = None \<Longrightarrow>
     write_message c me op m s = (Inr (), s\<lparr>tx := tx s @ bs\<rparr>)"
  by (simp add: write_message_def framed_def prog_simps)

lemma read_message_framed:
  assumes fr: "framed c me op m bs" and rx: "rx s = bs @ rest"
  shows "read_message ac d s =
    (decode_payload ac d (head_of me op bs) (drop HEADER_SIZE bs), s\<lparr>rx := rest\<rparr>)"
proof -
  from fr obtain body where b: "bs = write_header (head_of me op bs) @ body"
    and n: "unat (mh_length (head_of me op bs)) = length body" "length body \<le> MAX_PAYLOAD_SIZE"
    by (rule framed_body)
  let ?w = "write_header (head_of me op bs)"
  have rx': "rx s = ?w @ body @ rest" using rx b by (metis append_assoc)
  have hd: "read_exact HEADER_SIZE s = (Inr ?w, s\<lparr>rx := body @ rest\<rparr>)"
    using rx' by (simp add: read_exact_append[where bs = ?w] HEADER_SIZE_def write_header_length)
  have rh: "read_header ?w = Some (head_of me op bs, [])"
    using mh.dec_enc[of _ "[]"] by simp
  have body: "drop HEADER_SIZE bs = body"
    by (subst b) (simp add: HEADER_SIZE_def write_header_length)
  have "read_message ac d s =
      andthen (read_exact (length body)) (\<lambda>buf. lift (decode_payload ac d (head_of me op bs) buf))
        (s\<lparr>rx := body @ rest\<rparr>)"
    using n by (simp add: read_message_def andthen_def[of "read_exact HEADER_SIZE"] hd rh)
  then show ?thesis
    by (simp add: andthen_def read_exact_append[where bs = body and rest = rest] body)
qed

lemma read_message_ok [prog_simps]:
  assumes "codec_ok c" "framed c me op m bs" "op AND OPTION_ERROR \<noteq> OPTION_ERROR" "rx s = bs @ rest"
  shows "read_message ac c s = (Inr (head_of me op bs, m), s\<lparr>rx := rest\<rparr>)"
proof -
  from assms(2) obtain body where b: "ser c m = Some body" "bs = write_header (head_of me op bs) @ body"
    by (rule framed_body)
  have "drop HEADER_SIZE bs = body" by (subst b(2)) (simp add: HEADER_SIZE_def write_header_length)
  with codec_okD[OF assms(1) b(1)] assms(3) show ?thesis
    by (auto simp: read_message_framed[OF assms(2,4)] decode_payload_def header_ok_def)
qed

lemma read_message_err [prog_simps]:
  assumes "codec_ok ac" "framed ac me op a bs" "op AND OPTION_ERROR = OPTION_ERROR" "rx s = bs @ rest"
  shows "read_message ac c s = (Inl (ErrorCode (ack_code a)), s\<lparr>rx := rest\<rparr>)"
proof -
  from assms(2) obtain body where b: "ser ac a = Some body" "bs = write_header (head_of me op bs) @ body"
    by (rule framed_body)
  have "drop HEADER_SIZE bs = body" by (subst b(2)) (simp add: HEADER_SIZE_def write_header_length)
  with codec_okD[OF assms(1) b(1)] assms(3) show ?thesis
    by (auto simp: read_message_framed[OF assms(2,4)] decode_payload_def header_ok_def)
qed

lemma option_none_ok [simp]: "OPTION_NONE AND OPTION_ERROR \<noteq> OPTION_ERROR"
  by (simp add: OPTION_NONE_def OPTION_ERROR_def)

lemma option_error_set [simp]:
  "(op OR OPTION_ERROR) AND OPTION_ERROR = OPTION_ERROR"
  by (rule bit_word_eqI) (auto simp: bit_simps)

lemma option_none_or [simp]: "OPTION_NONE OR OPTION_ERROR = OPTION_ERROR"
  by (simp add: OPTION_NONE_def)

lemma write_error_up [prog_simps]:
  "framed ac me (op OR OPTION_ERROR) (ack_from_error e) bs \<Longrightarrow> tx_cap s = None \<Longrightarrow>
     write_error ac me op e s = (Inr (), s\<lparr>tx := tx s @ bs\<rparr>)"
  by (simp add: write_error_def write_message_up)

lemma read_ack_ok [prog_simps]:
  assumes "codec_ok ac" "framed ac me op a bs" "op AND OPTION_ERROR \<noteq> OPTION_ERROR" "rx s = bs @ rest"
  shows "read_ack ac s = (ack_into_result a, s\<lparr>rx := rest\<rparr>)"
  using read_message_ok[OF assms, of ac] by (simp add: read_ack_def andthen_Inr)

lemma read_ack_err [prog_simps]:
  assumes "codec_ok ac" "framed ac me op a bs" "op AND OPTION_ERROR = OPTION_ERROR" "rx s = bs @ rest"
  shows "read_ack ac s = (Inl (ErrorCode (ack_code a)), s\<lparr>rx := rest\<rparr>)"
  using read_message_err[OF assms, of ac] by (simp add: read_ack_def andthen_Inl)

lemma framed_of_ser:
  assumes "ser c m = Some body" "length body \<le> MAX_PAYLOAD_SIZE"
  shows "framed c me op m
    (write_header \<lparr>mh_version = 0, mh_option = op, mh_method = me, mh_length = word_of_nat (length body)\<rparr> @ body)"
  using assms by (simp add: framed_def frame_def HEADER_SIZE_def write_header_length)

lemma unat_payload: "n < 2 ^ 32 \<Longrightarrow> unat (word_of_nat n :: u32) = n"
  by (simp add: unat_of_nat take_bit_nat_eq_self)

lemma MAX_PAYLOAD_bound: "MAX_PAYLOAD_SIZE < 2 ^ 32"
  by (simp add: MAX_PAYLOAD_SIZE_def)

section \<open>Concrete streams\<close>

definition stream_of :: "bytes \<Rightarrow> stream" where
  "stream_of bs = \<lparr>rx = bs, rx_fin = True, rx_err = [], tx = [], tx_cap = None, tx_err = []\<rparr>"

lemma stream_of_simps [simp]:
  "rx (stream_of bs) = bs" "rx_fin (stream_of bs)" "rx_err (stream_of bs) = []"
  "tx (stream_of bs) = []" "tx_cap (stream_of bs) = None"
  by (simp_all add: stream_of_def)

definition sample_codec :: "u8 codec" where
  "sample_codec = table_codec [(7, [1, 2, 3])]"

lemma sample_codec_facts:
  "codec_ok sample_codec" "ser sample_codec 7 = Some [1, 2, 3]"
  "length [1, 2, 3 :: u8] \<le> MAX_PAYLOAD_SIZE"
  unfolding sample_codec_def by (rule table_codec_ok) (simp_all add: table_codec_def MAX_PAYLOAD_SIZE_def)

definition sample_frame :: bytes where
  "sample_frame = write_header \<lparr>mh_version = 0, mh_option = OPTION_NONE, mh_method = Method_Command,
     mh_length = 3\<rparr> @ [1, 2, 3]"

lemma sample_framed: "framed sample_codec Method_Command OPTION_NONE 7 sample_frame"
  using framed_of_ser[OF sample_codec_facts(2,3), of Method_Command OPTION_NONE]
  by (simp add: sample_frame_def)

text \<open>Acknowledgement codecs of two values, and the frames they give.\<close>

definition sample_ack :: "ack_message codec" where
  "sample_ack = table_codec [(ack_success, [0]), (ack_from_error (ErrorCode NODE_EXISTS), [1])]"

lemma sample_ack_facts:
  "codec_ok sample_ack" "ser sample_ack ack_success = Some [0]"
  "ser sample_ack (ack_from_error (ErrorCode NODE_EXISTS)) = Some [1]"
  unfolding sample_ack_def
  by (rule table_codec_ok) (simp_all add: table_codec_def ack_success_def error_codes)

definition small_frame :: "method_t \<Rightarrow> u8 \<Rightarrow> u8 \<Rightarrow> bytes" where
  "small_frame me op b =
     write_header \<lparr>mh_version = 0, mh_option = op, mh_method = me, mh_length = 1\<rparr> @ [b]"

lemma small_framed: "ser c m = Some [b] \<Longrightarrow> framed c me op m (small_frame me op b)"
  using framed_of_ser[of c m "[b]" me op] by (simp add: small_frame_def MAX_PAYLOAD_SIZE_def)

section \<open>Properties\<close>

text \<open>
  C1: a message that serialises to at most \<open>MAX_PAYLOAD_SIZE\<close> bytes and whose option byte has
  no error bit is written completely on a connection that is up, and any reader whose
  input starts with these bytes gets the message back, with its method, option and length,
  and stops exactly after it.
\<close>

theorem message_roundtrip:
  assumes "codec_ok c" "ser c m = Some body" "length body \<le> MAX_PAYLOAD_SIZE"
    and "op AND OPTION_ERROR \<noteq> OPTION_ERROR" "tx_cap s = None"
  shows "\<exists>bs h. write_message c me op m s = (Inr (), s\<lparr>tx := tx s @ bs\<rparr>) \<and>
    mh_method h = me \<and> mh_option h = op \<and> unat (mh_length h) = length body \<and>
    (\<forall>r rest. rx r = bs @ rest \<longrightarrow> read_message ac c r = (Inr (h, m), r\<lparr>rx := rest\<rparr>))"
proof -
  define bs where "bs = write_header
    \<lparr>mh_version = 0, mh_option = op, mh_method = me, mh_length = word_of_nat (length body)\<rparr> @ body"
  have fr: "framed c me op m bs" unfolding bs_def using assms by (simp add: framed_of_ser)
  have len: "length bs = HEADER_SIZE + length body"
    by (simp add: bs_def HEADER_SIZE_def write_header_length)
  have "unat (mh_length (head_of me op bs)) = length body"
    using assms(3) MAX_PAYLOAD_bound by (simp add: head_of_def len unat_payload)
  with write_message_up[OF fr assms(5)] show ?thesis
    by (intro exI[of _ bs] exI[of _ "head_of me op bs"]) (simp add: read_message_ok[OF assms(1) fr assms(4)])
qed

theorem message_roundtrip_witness:
  "\<exists>bs h. write_message sample_codec Method_Command OPTION_NONE 7 (stream_of []) =
      (Inr (), (stream_of [])\<lparr>tx := bs\<rparr>) \<and>
    mh_method h = Method_Command \<and> mh_option h = OPTION_NONE \<and> unat (mh_length h) = length [1, 2, 3 :: u8] \<and>
    read_message sample_ack sample_codec (stream_of (bs @ [9])) = (Inr (h, 7), stream_of [9])"
proof -
  from message_roundtrip[OF sample_codec_facts option_none_ok, of "stream_of []" Method_Command sample_ack]
  obtain bs h where b: "write_message sample_codec Method_Command OPTION_NONE 7 (stream_of []) =
      (Inr (), (stream_of [])\<lparr>tx := bs\<rparr>)" "mh_method h = Method_Command" "mh_option h = OPTION_NONE"
    "unat (mh_length h) = length [1, 2, 3 :: u8]"
    and r: "\<And>r rest. rx r = bs @ rest \<Longrightarrow>
      read_message sample_ack sample_codec (r :: stream) = (Inr (h, 7), r\<lparr>rx := rest\<rparr>)"
    by auto
  from r[of "stream_of (bs @ [9])" "[9]"] b show ?thesis
    by (intro exI[of _ bs] exI[of _ h]) (simp add: stream_of_def)
qed

text \<open>A reader writes nothing.\<close>

lemma read_message_tx: "read_message ac c s = (r, t) \<Longrightarrow> tx t = tx s"
  by (auto simp: read_message_def andthen_def read_exact_def split: option.splits if_splits prod.splits sum.splits)

text \<open>What the reader accepts, header and payload, is what the input began with.\<close>

lemma read_message_exact:
  assumes "read_message ac c s = (Inr (h, m), t)"
  shows "\<exists>buf n. rx s = write_header h @ buf @ rx t \<and> length buf = unat (mh_length h) \<and>
    length buf \<le> MAX_PAYLOAD_SIZE \<and> header_ok h \<and> de c buf = Some (m, n) \<and> t = s\<lparr>rx := rx t\<rparr>"
proof -
  from assms obtain hd s1 where 1: "read_exact HEADER_SIZE s = (Inr hd, s1)"
    by (auto simp: read_message_def elim: andthen_InrE)
  then have s1: "rx s = hd @ rx s1" "s1 = s\<lparr>rx := rx s1\<rparr>" "length hd = HEADER_SIZE"
    by (auto simp: read_exact_def split: if_splits)
  from assms 1 obtain h' r where 2: "read_header hd = Some (h', r)"
    by (cases "read_header hd") (auto simp: read_message_def andthen_def)
  with s1(3) have hd: "hd = write_header h'"
    using mh.dec_sound[OF 2] write_header_length[of h'] by (auto simp: HEADER_SIZE_def)
  from assms 1 2 have size: "unat (mh_length h') \<le> MAX_PAYLOAD_SIZE"
    by (auto simp: read_message_def andthen_def split: if_splits)
  with assms 1 2 obtain buf s2 where 3: "read_exact (unat (mh_length h')) s1 = (Inr buf, s2)"
    "decode_payload ac c h' buf = Inr (h, m)" "s2 = t"
    by (auto simp: read_message_def andthen_def split: prod.splits sum.splits)
  then have "rx s1 = buf @ rx t" "t = s1\<lparr>rx := rx t\<rparr>" "length buf = unat (mh_length h')"
    by (auto simp: read_exact_def split: if_splits)
  moreover from 3(2) obtain n where "h = h'" "header_ok h'" "de c buf = Some (m, n)"
    by (auto simp: decode_payload_def split: if_splits option.splits)
  ultimately show ?thesis using s1 hd size
    by (intro exI[of _ buf] exI[of _ n]) (auto simp: HEADER_SIZE_def)
qed

text \<open>
  C24: what \<open>read_message\<close> accepts was there: a message is only returned if the input began
  with a header whose magic, method and length are as returned, whose error bit is clear
  and whose length is within the limit, followed by that many bytes, from which the
  message was decoded; nothing else was consumed and nothing was written.
\<close>

theorem read_message_sound:
  assumes "read_message ac c s = (Inr (h, m), t)"
  shows "\<exists>buf n. rx s = write_header h @ buf @ rx t \<and> length buf = unat (mh_length h) \<and>
    length buf \<le> MAX_PAYLOAD_SIZE \<and> header_ok h \<and> de c buf = Some (m, n) \<and> t = s\<lparr>rx := rx t\<rparr>"
  using assms by (rule read_message_exact)

theorem read_message_sound_witness:
  "\<exists>buf n. rx (stream_of (sample_frame @ [9])) = write_header (head_of Method_Command OPTION_NONE sample_frame)
      @ buf @ rx ((stream_of (sample_frame @ [9]))\<lparr>rx := [9]\<rparr>) \<and>
    length buf = unat (mh_length (head_of Method_Command OPTION_NONE sample_frame)) \<and>
    length buf \<le> MAX_PAYLOAD_SIZE \<and> header_ok (head_of Method_Command OPTION_NONE sample_frame) \<and>
    de sample_codec buf = Some (7, n) \<and>
    (stream_of (sample_frame @ [9]))\<lparr>rx := [9]\<rparr> =
      (stream_of (sample_frame @ [9]))\<lparr>rx := rx ((stream_of (sample_frame @ [9]))\<lparr>rx := [9]\<rparr>)\<rparr>"
  by (rule read_message_sound[of sample_ack])
    (simp add: read_message_ok[OF sample_codec_facts(1) sample_framed option_none_ok, where rest = "[9]"])

text \<open>
  A message cut off anywhere, in its header or in its payload, is never taken for a
  message: the reader fails with the read error of the connection and keeps nothing.
\<close>

lemma truncated_message:
  assumes "framed c me op m bs" "n < length bs" "rx s = take n bs"
  shows "read_message ac d s = (Inl (QuicReadExactError (rx_err s)), s\<lparr>rx := []\<rparr>)"
proof -
  from assms(1) obtain body where b: "bs = write_header (head_of me op bs) @ body"
    and l: "unat (mh_length (head_of me op bs)) = length body" "length body \<le> MAX_PAYLOAD_SIZE"
    by (rule framed_body)
  let ?w = "write_header (head_of me op bs)"
  have len: "length bs = 12 + length body" by (subst b) (simp add: write_header_length)
  show ?thesis
  proof (cases "n < 12")
    case True
    with assms(3) show ?thesis
      by (simp add: read_message_def andthen_def read_exact_def HEADER_SIZE_def)
  next
    case False
    have "take n bs = ?w @ take (n - 12) body"
      using False by (subst b) (simp add: write_header_length)
    with assms(2,3) len False have rx: "rx s = ?w @ take (n - 12) body" "n - 12 < length body"
      by auto
    have "read_exact HEADER_SIZE s = (Inr ?w, s\<lparr>rx := take (n - 12) body\<rparr>)"
      using rx by (simp add: read_exact_append[where bs = ?w] HEADER_SIZE_def write_header_length)
    moreover have "read_header ?w = Some (head_of me op bs, [])"
      using mh.dec_enc[of _ "[]"] by simp
    ultimately show ?thesis
      using l rx(2) by (simp add: read_message_def andthen_def read_exact_def)
  qed
qed

lemma truncated_message_witness:
  "read_message sample_ack sample_codec (stream_of (take 14 sample_frame)) =
     (Inl (QuicReadExactError (rx_err (stream_of (take 14 sample_frame)))),
      (stream_of (take 14 sample_frame))\<lparr>rx := []\<rparr>)"
  by (rule truncated_message[OF sample_framed, of 14]) (simp_all add: sample_frame_def write_header_length)

text \<open>
  The size limit is enforced by the reader only.  A message that serialises to more than
  \<open>MAX_PAYLOAD_SIZE\<close> bytes is written in full without an error; every reader rejects it with
  \<open>PAYLOAD_TOO_LARGE\<close> after the header and leaves the whole payload on the stream.
\<close>

lemma oversized_message:
  assumes "ser c m = Some body" "MAX_PAYLOAD_SIZE < length body" "length body < 2 ^ 32" "tx_cap s = None"
  shows "\<exists>hd. write_message c me op m s = (Inr (), s\<lparr>tx := tx s @ hd @ body\<rparr>) \<and> length hd = HEADER_SIZE \<and>
    (\<forall>(r :: 'r stream_scheme) rest. rx r = hd @ body @ rest \<longrightarrow>
       read_message ac d r = (Inl (ErrorCode PAYLOAD_TOO_LARGE), r\<lparr>rx := body @ rest\<rparr>))"
proof -
  let ?h = "\<lparr>mh_version = 0, mh_option = op, mh_method = me, mh_length = word_of_nat (length body)\<rparr>"
  have "read_message ac d r = (Inl (ErrorCode PAYLOAD_TOO_LARGE), r\<lparr>rx := body @ rest\<rparr>)"
    if "rx r = write_header ?h @ body @ rest" for r :: "'d stream_scheme" and rest
  proof -
    have "read_exact HEADER_SIZE r = (Inr (write_header ?h), r\<lparr>rx := body @ rest\<rparr>)"
      using that by (simp add: read_exact_append[where bs = "write_header ?h"] HEADER_SIZE_def write_header_length)
    moreover have "read_header (write_header ?h) = Some (?h, [])"
      using mh.dec_enc[of _ "[]"] by simp
    moreover have "MAX_PAYLOAD_SIZE < unat (mh_length ?h)"
      using assms(2,3) by (simp add: unat_payload)
    ultimately show ?thesis by (simp add: read_message_def andthen_def)
  qed
  moreover have "write_message c me op m s = (Inr (), s\<lparr>tx := tx s @ write_header ?h @ body\<rparr>)"
    using assms(1,4) by (simp add: write_message_def frame_def write_all_up)
  moreover have "length (write_header ?h) = HEADER_SIZE"
    by (simp add: HEADER_SIZE_def write_header_length)
  ultimately show ?thesis by blast
qed

definition large_body :: bytes where
  "large_body = replicate (Suc MAX_PAYLOAD_SIZE) 0"

lemma oversized_message_witness:
  "\<exists>hd. write_message (table_codec [(7 :: u8, large_body)]) Method_Command OPTION_NONE 7 (stream_of []) =
      (Inr (), (stream_of [])\<lparr>tx := hd @ large_body\<rparr>) \<and> length hd = HEADER_SIZE \<and>
    read_message sample_ack sample_codec (stream_of (hd @ large_body @ [])) =
      (Inl (ErrorCode PAYLOAD_TOO_LARGE), stream_of (large_body @ []))"
proof -
  have "\<exists>hd. write_message (table_codec [(7 :: u8, large_body)]) Method_Command OPTION_NONE 7 (stream_of []) =
      (Inr (), (stream_of [])\<lparr>tx := tx (stream_of []) @ hd @ large_body\<rparr>) \<and> length hd = HEADER_SIZE \<and>
    (\<forall>r rest. rx (r :: stream) = hd @ large_body @ rest \<longrightarrow>
       read_message sample_ack sample_codec r =
         (Inl (ErrorCode PAYLOAD_TOO_LARGE), r\<lparr>rx := large_body @ rest\<rparr>))"
    by (rule oversized_message)
      (simp_all add: table_codec_def large_body_def MAX_PAYLOAD_SIZE_def del: replicate_Suc)
  then obtain hd where h: "write_message (table_codec [(7 :: u8, large_body)]) Method_Command OPTION_NONE 7 (stream_of []) =
      (Inr (), (stream_of [])\<lparr>tx := hd @ large_body\<rparr>)" "length hd = HEADER_SIZE"
    and r: "\<And>r rest. rx (r :: stream) = hd @ large_body @ rest \<Longrightarrow>
      read_message sample_ack sample_codec r = (Inl (ErrorCode PAYLOAD_TOO_LARGE), r\<lparr>rx := large_body @ rest\<rparr>)"
    by auto
  from r[of "stream_of (hd @ large_body @ [])" "[]"] h show ?thesis
    by (intro exI[of _ hd]) (simp add: stream_of_def)
qed

text \<open>
  An error written with \<open>write_error\<close> reaches the other side as its number: whatever it
  was, a reader of a message or of an acknowledgement fails with \<open>ErrorCode (err_no e)\<close>;
  the text that was sent with it is dropped.
\<close>

lemma error_transport:
  assumes "codec_ok ac" "framed ac me (op OR OPTION_ERROR) (ack_from_error e) bs"
    and "tx_cap s = None" "rx r = bs @ rest"
  shows "write_error ac me op e s = (Inr (), s\<lparr>tx := tx s @ bs\<rparr>) \<and>
    read_message ac c r = (Inl (ErrorCode (err_no e)), r\<lparr>rx := rest\<rparr>) \<and>
    read_ack ac r = (Inl (ErrorCode (err_no e)), r\<lparr>rx := rest\<rparr>)"
  using write_error_up[OF assms(2,3)] read_message_err[OF assms(1,2) option_error_set assms(4)]
    read_ack_err[OF assms(1,2) option_error_set assms(4)]
  by (simp add: ack_from_error_code)

lemma error_transport_witness:
  "write_error sample_ack Method_Command OPTION_NONE (ErrorCode NODE_EXISTS) (stream_of []) =
     (Inr (), (stream_of [])\<lparr>tx := tx (stream_of []) @ small_frame Method_Command (OPTION_NONE OR OPTION_ERROR) 1\<rparr>) \<and>
   read_message sample_ack sample_codec (stream_of (small_frame Method_Command (OPTION_NONE OR OPTION_ERROR) 1 @ [5])) =
     (Inl (ErrorCode (err_no (ErrorCode NODE_EXISTS))),
      (stream_of (small_frame Method_Command (OPTION_NONE OR OPTION_ERROR) 1 @ [5]))\<lparr>rx := [5]\<rparr>) \<and>
   read_ack sample_ack (stream_of (small_frame Method_Command (OPTION_NONE OR OPTION_ERROR) 1 @ [5])) =
     (Inl (ErrorCode (err_no (ErrorCode NODE_EXISTS))),
      (stream_of (small_frame Method_Command (OPTION_NONE OR OPTION_ERROR) 1 @ [5]))\<lparr>rx := [5]\<rparr>)"
  by (rule error_transport[OF sample_ack_facts(1) small_framed[OF sample_ack_facts(3)]]) simp_all

text \<open>
  \<open>write_and_ack\<close> and \<open>read_and_ack\<close> agree: when each side reads what the other wrote, the
  sender succeeds exactly if the receiver accepted the message, the receiver then has the
  validated message, and otherwise the sender has the number of the receiver's error.
\<close>

lemma ack_exchange:
  assumes "codec_ok ac" "codec_ok c" "framed c me op m b" "op AND OPTION_ERROR \<noteq> OPTION_ERROR"
    and "case valid m of Inr _ \<Rightarrow> framed ac me op ack_success k
         | Inl e \<Rightarrow> framed ac me (op OR OPTION_ERROR) (ack_from_error e) k"
    and "rx s = k @ rest" "tx_cap s = None" "rx s' = b @ rest'" "tx_cap s' = None"
  shows "write_and_ack ac c me op m s =
      (map_sum (\<lambda>e. ErrorCode (err_no e)) (\<lambda>_. ()) (valid m), s\<lparr>rx := rest, tx := tx s @ b\<rparr>) \<and>
    read_and_ack ac c (Some valid) s' =
      (map_sum id (\<lambda>m'. (head_of me op b, m')) (valid m), s'\<lparr>rx := rest', tx := tx s' @ k\<rparr>)"
proof (cases "valid m")
  case (Inl e)
  with assms show ?thesis
    by (simp add: write_and_ack_def read_and_ack_def andthen_def ack_from_error_code
        write_message_up[OF assms(3)] read_message_ok[OF assms(2,3,4), where rest = rest']
        read_ack_err[OF assms(1) _ option_error_set, where bs = k and rest = rest]
        write_error_up[where bs = k])
next
  case (Inr m')
  with assms show ?thesis
    by (simp add: write_and_ack_def read_and_ack_def andthen_def
        write_message_up[OF assms(3)] read_message_ok[OF assms(2,3,4), where rest = rest']
        read_ack_ok[OF assms(1) _ assms(4), where bs = k and rest = rest]
        write_message_up[where bs = k])
qed

lemma ack_exchange_witness:
  "write_and_ack sample_ack sample_codec Method_Command OPTION_NONE 7 (stream_of (small_frame Method_Command OPTION_NONE 0)) =
      (map_sum (\<lambda>e. ErrorCode (err_no e)) (\<lambda>_. ()) (Inr 8 :: crab_error + u8),
       (stream_of (small_frame Method_Command OPTION_NONE 0))
         \<lparr>rx := [], tx := tx (stream_of (small_frame Method_Command OPTION_NONE 0)) @ sample_frame\<rparr>) \<and>
   read_and_ack sample_ack sample_codec (Some (\<lambda>_. Inr 8)) (stream_of sample_frame) =
      (map_sum id (\<lambda>m'. (head_of Method_Command OPTION_NONE sample_frame, m')) (Inr 8 :: crab_error + u8),
       (stream_of sample_frame)\<lparr>rx := [], tx := tx (stream_of sample_frame)
          @ small_frame Method_Command OPTION_NONE 0\<rparr>)"
  by (rule ack_exchange[OF sample_ack_facts(1) sample_codec_facts(1) sample_framed option_none_ok])
    (simp_all add: small_framed[OF sample_ack_facts(2)])

end
