(* ===== verification/Crab_Tasks.thy ===== *)
theory Crab_Tasks
  imports Crab_Stream
begin

text \<open>
  \<^verbatim>\<open>src/src/crab/proto/tasks.rs\<close> and \<^verbatim>\<open>src/src/crab/node_handle.rs\<close>: the tasks a
  \<open>Handle\<close> queues on a node, each run on a stream of its own, and the calls that wait for
  their answer.

  A task runs over a pair: the stream and the one-shot channel on which it answers its
  caller.  The cancellation token an executor gets is \<open>token\<close>: \<open>None\<close> for a token that is
  not cancelled while the executor runs, \<open>Some n\<close> for one that fires after \<open>n\<close> bytes have
  been copied (the only places where an executor looks at it are selects against a copy).
  A dropped task drops its sender: \<open>oneshot_close\<close>.
\<close>

type_synonym token = "nat option"
type_synonym ('z, 'a) executor = "token \<Rightarrow> ('z, 'a) sprog"
type_synonym ('z, 'c, 'a) tprog = "(crab_error, 'z stream_scheme \<times> 'c oneshot, 'a) prog"

definition on_stream :: "('z, 'a) sprog \<Rightarrow> ('z, 'c, 'a) tprog" where
  "on_stream m = (\<lambda>(s, c). case m s of (r, t) \<Rightarrow> (r, (t, c)))"

definition chan_send :: "'c \<Rightarrow> ('z, 'c, bool) tprog" where
  "chan_send v = (\<lambda>(s, c). case oneshot_send v c of (ok, c') \<Rightarrow> (Inr ok, (s, c')))"

section \<open>The tasks\<close>

definition base_task_execute ::
  "ack_message codec \<Rightarrow> 'c codec \<Rightarrow> 'c \<Rightarrow> ('z, unit) executor \<Rightarrow> token \<Rightarrow> ('z, unit) sprog" where
  "base_task_execute ac cc cmd executor tok =
    andthen (write_message cc Method_Command OPTION_NONE cmd) (\<lambda>_.
    andthen (read_ack ac) (\<lambda>_.
    andthen (executor tok) (\<lambda>_. ret ())))"

definition async_job_execute ::
  "ack_message codec \<Rightarrow> 'c codec \<Rightarrow> 'c \<Rightarrow> ('z, 'r) executor \<Rightarrow> token
    \<Rightarrow> ('z, crab_error + 'r, unit) tprog" where
  "async_job_execute ac cc cmd callback tok =
    andthen (on_stream (write_message cc Method_Command OPTION_NONE cmd)) (\<lambda>_.
    andthen (attempt (on_stream (read_ack ac))) (\<lambda>a.
      case a of
        Inl err \<Rightarrow> andthen (chan_send (Inl err)) (\<lambda>_. ret ())
      | Inr _ \<Rightarrow>
          andthen (attempt (on_stream (callback tok))) (\<lambda>r.
          andthen (chan_send r) (\<lambda>_. ret ()))))"

text \<open>
  The second stage of \<open>MultiStageTask\<close>: what the caller sent back on the acknowledgement
  channel, nothing if it dropped it, an error, or the executor for the rest of the stream.
\<close>

definition multi_stage_finish ::
  "ack_message codec \<Rightarrow> (crab_error + ('z, 'r) executor) option \<Rightarrow> token \<Rightarrow> ('z, unit) sprog" where
  "multi_stage_finish ac decision tok =
    (case decision of
       None \<Rightarrow> throw (ErrorCode CANCELED_ERROR)
     | Some (Inl e) \<Rightarrow>
         andthen (write_error ac Method_Command OPTION_NONE e) (\<lambda>_. throw e)
     | Some (Inr executor) \<Rightarrow>
         andthen (write_message ac Method_Command OPTION_NONE ack_success) (\<lambda>_.
         andthen (executor tok) (\<lambda>_. ret ())))"

definition multi_stage_execute ::
  "ack_message codec \<Rightarrow> 'c codec \<Rightarrow> 'i codec \<Rightarrow> 'c
    \<Rightarrow> ('i \<Rightarrow> (crab_error + ('z, 'r) executor) option) \<Rightarrow> token
    \<Rightarrow> ('z, crab_error + 'i, unit) tprog" where
  "multi_stage_execute ac cc ci cmd decide tok =
    andthen (attempt (on_stream (write_message cc Method_Command OPTION_NONE cmd))) (\<lambda>w.
      case w of
        Inl err \<Rightarrow> andthen (chan_send (Inl err)) (\<lambda>_. ret ())
      | Inr _ \<Rightarrow>
    andthen (attempt (on_stream (read_ack ac))) (\<lambda>a.
      case a of
        Inl err \<Rightarrow> andthen (chan_send (Inl err)) (\<lambda>_. ret ())
      | Inr _ \<Rightarrow>
    andthen (attempt (on_stream (read_message ac ci))) (\<lambda>m.
      case m of
        Inr (_, initial) \<Rightarrow>
          andthen (chan_send (Inr initial)) (\<lambda>ok.
            if ok then on_stream (multi_stage_finish ac (decide initial) tok)
            else throw (ErrorCode CANCELED_ERROR))
      | Inl e \<Rightarrow>
          andthen (chan_send (Inl e)) (\<lambda>ok.
            if ok then throw (ErrorCode TASK_ACK_FAILED)
            else throw (ErrorCode CANCELED_ERROR)))))"

definition executor_wrapper_execute ::
  "('z, 'r) executor \<Rightarrow> token \<Rightarrow> ('z, crab_error + 'r, unit) tprog" where
  "executor_wrapper_execute executor tok =
    andthen (attempt (on_stream (executor tok))) (\<lambda>r.
    andthen (chan_send r) (\<lambda>ok.
      if ok then ret () else throw (ErrorCode CANCELED_ERROR)))"

section \<open>The calls of a handle\<close>

text \<open>
  \<open>await_answer queued opened task\<close> is what a caller receives: \<open>queued\<close> says whether the
  node still takes tasks (\<open>send_task\<close>), \<open>opened\<close> is the stream the node opened for the task
  (\<open>serve_all_tasks\<close>; if that fails the task is dropped), and the task answers on a fresh
  channel, which is closed when the task is over.
\<close>

definition await_answer ::
  "bool \<Rightarrow> crab_error + 'z stream_scheme \<Rightarrow> ('z, crab_error + 'r, unit) tprog \<Rightarrow> crab_error + 'r" where
  "await_answer queued opened task =
    (if \<not> queued then Inl (ErrorCode NODE_ALREADY_EXIT)
     else
       (let chan = (case opened of
           Inl _ \<Rightarrow> oneshot_close Os_open
         | Inr s \<Rightarrow> (case task (s, Os_open) of (_, (_, c)) \<Rightarrow> oneshot_close c))
        in case oneshot_recv chan of
             None \<Rightarrow> Inl (ErrorCode NODE_ALREADY_EXIT)
           | Some r \<Rightarrow> r))"

definition handle_exec ::
  "ack_message codec \<Rightarrow> 'c codec \<Rightarrow> bool \<Rightarrow> crab_error + 'z stream_scheme \<Rightarrow> token
    \<Rightarrow> 'c \<Rightarrow> ('z, 'r) executor \<Rightarrow> crab_error + 'r" where
  "handle_exec ac cc queued opened tok cmd callback =
    await_answer queued opened (async_job_execute ac cc cmd callback tok)"

definition handle_exec_ack ::
  "ack_message codec \<Rightarrow> 'c codec \<Rightarrow> 'i codec \<Rightarrow> bool \<Rightarrow> crab_error + 'z stream_scheme \<Rightarrow> token
    \<Rightarrow> 'c \<Rightarrow> ('i \<Rightarrow> (crab_error + ('z, 'r) executor) option) \<Rightarrow> crab_error + 'i" where
  "handle_exec_ack ac cc ci queued opened tok cmd decide =
    await_answer queued opened (multi_stage_execute ac cc ci cmd decide tok)"

definition handle_spawn :: "bool \<Rightarrow> crab_error + unit" where
  "handle_spawn queued = (if queued then Inr () else Inl (ErrorCode NODE_ALREADY_EXIT))"

section \<open>Evaluation\<close>

lemma on_stream_apply [simp]:
  "on_stream m (s, c) = (case m s of (r, t) \<Rightarrow> (r, (t, c)))"
  by (simp add: on_stream_def)

lemma chan_send_apply [simp]:
  "chan_send v (s, c) = (Inr (fst (oneshot_send v c)), (s, snd (oneshot_send v c)))"
  by (simp add: chan_send_def split: prod.split)

lemmas task_defs = async_job_execute_def multi_stage_execute_def executor_wrapper_execute_def

text \<open>The answer of a job, as a function of the stream alone.\<close>

definition exec_answer ::
  "ack_message codec \<Rightarrow> 'c codec \<Rightarrow> token \<Rightarrow> 'c \<Rightarrow> ('z, 'r) executor
    \<Rightarrow> 'z stream_scheme \<Rightarrow> crab_error + 'r" where
  "exec_answer ac cc tok cmd callback s =
    (case write_message cc Method_Command OPTION_NONE cmd s of
       (Inl _, _) \<Rightarrow> Inl (ErrorCode NODE_ALREADY_EXIT)
     | (Inr _, t) \<Rightarrow> fst (andthen (read_ack ac) (\<lambda>_. callback tok) t))"

text \<open>The initial answer of a two-stage task: here a failed write is reported as it is.\<close>

definition exec_ack_answer ::
  "ack_message codec \<Rightarrow> 'c codec \<Rightarrow> 'i codec \<Rightarrow> 'c \<Rightarrow> 'z stream_scheme \<Rightarrow> crab_error + 'i" where
  "exec_ack_answer ac cc ci cmd s =
    map_sum id snd (fst (andthen (write_message cc Method_Command OPTION_NONE cmd) (\<lambda>_.
      andthen (read_ack ac) (\<lambda>_. read_message ac ci)) s))"

lemma async_job_answer:
  "snd (snd (async_job_execute ac cc cmd callback tok (s, Os_open))) =
    (case exec_answer ac cc tok cmd callback s of r \<Rightarrow>
       if \<exists>e t. write_message cc Method_Command OPTION_NONE cmd s = (Inl e, t)
       then Os_open else Os_value r)"
  by (auto simp: async_job_execute_def exec_answer_def andthen_def attempt_def
      split: prod.splits sum.splits)

lemma multi_stage_answer:
  "snd (snd (multi_stage_execute ac cc ci cmd decide tok (s, Os_open))) =
    Os_value (exec_ack_answer ac cc ci cmd s)"
  by (auto simp: multi_stage_execute_def exec_ack_answer_def andthen_def attempt_def
      split: prod.splits sum.splits)

lemma await_answer_run:
  "await_answer True (Inr s) task =
    (case oneshot_recv (snd (snd (task (s, Os_open)))) of
       None \<Rightarrow> Inl (ErrorCode NODE_ALREADY_EXIT) | Some r \<Rightarrow> r)"
  by (simp add: await_answer_def split: prod.splits)

lemma await_answer_lost:
  "\<not> queued \<or> (\<exists>e. opened = Inl e) \<Longrightarrow> await_answer queued opened task = Inl (ErrorCode NODE_ALREADY_EXIT)"
  by (auto simp: await_answer_def)

lemma multi_stage_run:
  assumes "codec_ok ac" "codec_ok ci" "framed cc Method_Command OPTION_NONE cmd b"
    and "framed ac me1 op1 ack_success k" "op1 AND OPTION_ERROR \<noteq> OPTION_ERROR"
    and "framed ci me2 op2 i m" "op2 AND OPTION_ERROR \<noteq> OPTION_ERROR"
    and "framed ac Method_Command OPTION_NONE ack_success k'"
    and "\<And>e. decide i = Some (Inl e) \<Longrightarrow> framed ac Method_Command OPTION_ERROR (ack_from_error e) d"
    and "rx s = k @ m @ rest" "tx_cap s = None"
  shows "multi_stage_execute ac cc ci cmd decide tok (s, Os_open) =
      (case decide i of
         None \<Rightarrow> (Inl (ErrorCode CANCELED_ERROR), (s\<lparr>rx := rest, tx := tx s @ b\<rparr>, Os_value (Inr i)))
       | Some (Inl e) \<Rightarrow> (Inl e, (s\<lparr>rx := rest, tx := tx s @ b @ d\<rparr>, Os_value (Inr i)))
       | Some (Inr executor) \<Rightarrow>
           (case executor tok (s\<lparr>rx := rest, tx := tx s @ b @ k'\<rparr>) of
              (r, t) \<Rightarrow> (map_sum id (\<lambda>_. ()) r, (t, Os_value (Inr i))))) \<and>
    multi_stage_execute ac cc ci cmd decide tok (s, Os_rx_dropped) =
      (Inl (ErrorCode CANCELED_ERROR), (s\<lparr>rx := rest, tx := tx s @ b\<rparr>, Os_rx_dropped))"
proof -
  let ?s1 = "s\<lparr>tx := tx s @ b\<rparr>" and ?s2 = "s\<lparr>rx := m @ rest, tx := tx s @ b\<rparr>"
  note w = write_message_up[OF assms(3,11)]
  have a: "read_ack ac ?s1 = (Inr (), ?s2)"
    using assms(10) by (simp add: read_ack_ok[OF assms(1,4,5), where rest = "m @ rest"])
  have i: "read_message ac ci ?s2 = (Inr (head_of me2 op2 m, i), s\<lparr>rx := rest, tx := tx s @ b\<rparr>)"
    by (simp add: read_message_ok[OF assms(2,6,7), where rest = rest])
  have run: "multi_stage_execute ac cc ci cmd decide tok (s, c) =
      (if fst (oneshot_send (Inr i) c) then on_stream (multi_stage_finish ac (decide i) tok)
       else throw (ErrorCode CANCELED_ERROR)) (s\<lparr>rx := rest, tx := tx s @ b\<rparr>, snd (oneshot_send (Inr i) c))" for c
    by (simp add: multi_stage_execute_def andthen_def attempt_def w a i)
  let ?s3 = "s\<lparr>rx := rest, tx := tx s @ b\<rparr>"
  have "write_message ac Method_Command OPTION_NONE ack_success ?s3 =
      (Inr (), s\<lparr>rx := rest, tx := tx s @ b @ k'\<rparr>)"
    using assms(11) by (simp add: write_message_up[OF assms(8)])
  moreover have "write_error ac Method_Command OPTION_NONE e ?s3 =
      (Inr (), s\<lparr>rx := rest, tx := tx s @ b @ d\<rparr>)" if "decide i = Some (Inl e)" for e
    using assms(11) by (simp add: write_error_up[of ac Method_Command OPTION_NONE e d] assms(9)[OF that])
  ultimately show ?thesis
    by (auto simp: run multi_stage_finish_def andthen_def split: option.splits sum.splits prod.splits)
qed

section \<open>Properties\<close>

text \<open>
  The calls of a handle are refined by their tasks.  \<open>exec\<close> and \<open>exec_ack\<close>, which go
  through the task queue, a stream of their own and a one-shot channel, have the value
  computed on the stream alone: \<open>NODE_ALREADY_EXIT\<close> if the node takes no task or cannot
  open a stream, else the outcome of the exchange.  This is for streams on which the peer
  answers or which end; the calls have no timeout, and wait as long as a peer that is
  alive stays silent, which a \<open>stream\<close> does not represent.
\<close>

lemma exec_refines:
  "handle_exec ac cc queued opened tok cmd callback =
     (if queued then
        (case opened of
           Inl _ \<Rightarrow> Inl (ErrorCode NODE_ALREADY_EXIT)
         | Inr s \<Rightarrow> exec_answer ac cc tok cmd callback s)
      else Inl (ErrorCode NODE_ALREADY_EXIT)) \<and>
   handle_exec_ack ac cc ci queued opened tok cmd decide =
     (if queued then
        (case opened of
           Inl _ \<Rightarrow> Inl (ErrorCode NODE_ALREADY_EXIT)
         | Inr s \<Rightarrow> exec_ack_answer ac cc ci cmd s)
      else Inl (ErrorCode NODE_ALREADY_EXIT))"
proof (cases "\<not> queued \<or> (\<exists>e. opened = Inl e)")
  case True
  then show ?thesis by (auto simp: handle_exec_def handle_exec_ack_def await_answer_lost)
next
  case False
  then obtain s where s: "queued" "opened = Inr s" by (cases opened) auto
  have "handle_exec ac cc True (Inr s) tok cmd callback = exec_answer ac cc tok cmd callback s"
    by (auto simp: handle_exec_def await_answer_run async_job_answer exec_answer_def)
  moreover have "handle_exec_ack ac cc ci True (Inr s) tok cmd decide = exec_ack_answer ac cc ci cmd s"
    by (simp add: handle_exec_ack_def await_answer_run multi_stage_answer)
  ultimately show ?thesis using s by simp
qed

text \<open>
  C22: the second stage is entered only on the caller's word.  After the peer's first answer
  the task gives the caller the initial value; if the caller has gone away or drops the
  acknowledgement channel nothing more is written, if it declines the peer gets its error,
  and only if it hands over an executor is the peer acknowledged and the executor run, on
  the rest of the stream.
\<close>

theorem two_stage_exchange:
  assumes "codec_ok ac" "codec_ok ci" "framed cc Method_Command OPTION_NONE cmd b"
    and "framed ac me1 op1 ack_success k" "op1 AND OPTION_ERROR \<noteq> OPTION_ERROR"
    and "framed ci me2 op2 i m" "op2 AND OPTION_ERROR \<noteq> OPTION_ERROR"
    and "framed ac Method_Command OPTION_NONE ack_success k'"
    and "\<And>e. decide i = Some (Inl e) \<Longrightarrow> framed ac Method_Command OPTION_ERROR (ack_from_error e) d"
    and "rx s = k @ m @ rest" "tx_cap s = None"
  shows "multi_stage_execute ac cc ci cmd decide tok (s, Os_open) =
      (case decide i of
         None \<Rightarrow> (Inl (ErrorCode CANCELED_ERROR), (s\<lparr>rx := rest, tx := tx s @ b\<rparr>, Os_value (Inr i)))
       | Some (Inl e) \<Rightarrow> (Inl e, (s\<lparr>rx := rest, tx := tx s @ b @ d\<rparr>, Os_value (Inr i)))
       | Some (Inr executor) \<Rightarrow>
           (case executor tok (s\<lparr>rx := rest, tx := tx s @ b @ k'\<rparr>) of
              (r, t) \<Rightarrow> (map_sum id (\<lambda>_. ()) r, (t, Os_value (Inr i))))) \<and>
    multi_stage_execute ac cc ci cmd decide tok (s, Os_rx_dropped) =
      (Inl (ErrorCode CANCELED_ERROR), (s\<lparr>rx := rest, tx := tx s @ b\<rparr>, Os_rx_dropped))"
  by (rule multi_stage_run[OF assms(1-8) _ assms(10,11)]) (rule assms(9))

theorem two_stage_exchange_witness:
  "multi_stage_execute sample_ack sample_codec sample_codec 7 (\<lambda>_. Some (Inr (\<lambda>_. write_all [42]))) None
     (stream_of (small_frame Method_Command OPTION_NONE 0 @ sample_frame @ [5]), Os_open) =
   (Inr (), ((stream_of [])\<lparr>rx := [5],
      tx := sample_frame @ small_frame Method_Command OPTION_NONE 0 @ [42]\<rparr>, Os_value (Inr 7)))"
  using two_stage_exchange[OF sample_ack_facts(1) sample_codec_facts(1) sample_framed
      small_framed[OF sample_ack_facts(2)] option_none_ok sample_framed option_none_ok
      small_framed[OF sample_ack_facts(2)],
      where decide = "\<lambda>_. Some (Inr (\<lambda>_. write_all [42]))" and tok = None and rest = "[5]" and
      s = "stream_of (small_frame Method_Command OPTION_NONE 0 @ sample_frame @ [5])"]
  by (simp add: write_all_up stream_of_def)

end
