(* ===== verification/Crab_Commands.thy ===== *)
theory Crab_Commands
  imports Crab_Files Crab_Tasks
begin

text \<open>
  \<^verbatim>\<open>src/src/app/protocol/commands.rs\<close> and the generic handler of
  \<^verbatim>\<open>src/src/app/protocol/types.rs\<close>: what a node does on \<open>Ping\<close>, \<open>Delete\<close>, \<open>ListDir\<close>,
  \<open>ReadFile\<close> and \<open>WriteFile\<close>.

  A handler runs over a \<open>world\<close>, the stream of the command extended with the file system.
  The token of a handler is the one of the tasks: it only matters in the selects against a
  copy.  The payload codecs of the answers are parameters.
\<close>

record world = stream +
  w_fs :: file_sys

type_synonym ('z, 'a) wprog = "(crab_error, 'z world_scheme, 'a) prog"

definition on_fs :: "(crab_error, file_sys, 'a) prog \<Rightarrow> ('z, 'a) wprog" where
  "on_fs m w = (case m (w_fs w) of (r, f) \<Rightarrow> (r, w\<lparr>w_fs := f\<rparr>))"

definition answer ::
  "'m codec \<Rightarrow> message_header \<Rightarrow> 'm \<Rightarrow> ('z, unit) sprog" where
  "answer c h m = write_message c (mh_method h) (mh_option h) m"

definition answer_error ::
  "ack_message codec \<Rightarrow> message_header \<Rightarrow> crab_error \<Rightarrow> ('z, unit) sprog" where
  "answer_error ac h e = write_error ac (mh_method h) (mh_option h) e"

section \<open>Ping and the simple commands\<close>

definition ping_handle :: "ack_message codec \<Rightarrow> message_header \<Rightarrow> ('z, unit) sprog" where
  "ping_handle ac h = answer ac h ack_success"

text \<open>\<open>SimpleCommandHandler\<close>: acknowledge, make the response, send it or the error.\<close>

definition simple_handle ::
  "ack_message codec \<Rightarrow> 'resp codec \<Rightarrow> ('z, 'resp) sprog \<Rightarrow> message_header \<Rightarrow> ('z, unit) sprog" where
  "simple_handle ac rc make_response h =
    andthen (answer ac h ack_success) (\<lambda>_.
    andthen (attempt make_response) (\<lambda>r.
      case r of
        Inr resp \<Rightarrow> answer rc h resp
      | Inl err \<Rightarrow> answer_error ac h err))"

definition delete_make_response :: "delete_command \<Rightarrow> ('z, ack_message) wprog" where
  "delete_make_response cmd =
    andthen
      (attempt (on_fs
        (if dc_dir cmd then remove_dir_all (components (dc_path cmd))
         else remove_file (components (dc_path cmd)))))
      (\<lambda>r. ret (ack_from_result r))"

definition delete_handle ::
  "ack_message codec \<Rightarrow> delete_command \<Rightarrow> message_header \<Rightarrow> ('z, unit) wprog" where
  "delete_handle ac cmd = simple_handle ac ac (delete_make_response cmd)"

section \<open>Listing a directory\<close>

fun read_entries :: "(ext_error + raw_entry) list \<Rightarrow> crab_error + dir_entry list" where
  "read_entries [] = Inr []"
| "read_entries (Inl e # _) = Inl (IO e)"
| "read_entries (Inr entry # rest) =
    (case re_name entry of
       None \<Rightarrow> Inl (ErrorCode ENCODING_ERROR)
     | Some name \<Rightarrow>
         (case re_is_dir entry of
            Inl e \<Rightarrow> Inl (IO e)
          | Inr dir \<Rightarrow>
              (case read_entries rest of
                 Inl e \<Rightarrow> Inl e
               | Inr es \<Rightarrow> Inr (\<lparr>de_name = name, de_dir = dir\<rparr> # es))))"

definition read_dir :: "string \<Rightarrow> (crab_error, file_sys, dir_entry list) prog" where
  "read_dir path f =
    (case fs_entries f (components path) of
       Inl e \<Rightarrow> (Inl (IO e), f)
     | Inr raw \<Rightarrow> (read_entries raw, f))"

text \<open>Windows: the drives of the mask \<open>GetLogicalDrives\<close> returns.\<close>

definition drive_entry :: "nat \<Rightarrow> dir_entry" where
  "drive_entry i = \<lparr>de_name = [char_of (65 + i), CHR '':'', CHR 0x5C], de_dir = False\<rparr>"

definition list_drives :: "u32 \<Rightarrow> dir_entry list" where
  "list_drives drives =
    map drive_entry (List.filter (\<lambda>i. drives AND push_bit i 1 \<noteq> 0) [0..<26])"

text \<open>\<open>windows\<close> is the mask of the drives on a Windows node, nothing elsewhere.\<close>

definition list_dir :: "u32 option \<Rightarrow> string \<Rightarrow> (crab_error, file_sys, dir_entry list) prog" where
  "list_dir windows path =
    (case windows of
       Some drives \<Rightarrow> if path = [] \<or> path = ''/'' then ret (list_drives drives) else read_dir path
     | None \<Rightarrow> read_dir path)"

definition dir_handle ::
  "ack_message codec \<Rightarrow> dir_entry list codec \<Rightarrow> u32 option \<Rightarrow> string \<Rightarrow> message_header
    \<Rightarrow> ('z, unit) wprog" where
  "dir_handle ac dc windows path = simple_handle ac dc (on_fs (list_dir windows path))"

section \<open>Reading a file\<close>

text \<open>\<open>duration_since(UNIX_EPOCH).unwrap_or_default().as_millis() as u64\<close>, from nanoseconds.\<close>

definition millis :: "int option \<Rightarrow> u64" where
  "millis t = (case t of None \<Rightarrow> 0 | Some ns \<Rightarrow> if ns < 0 then 0 else word_of_int (ns div 1000000))"

definition metadata_of :: "path \<Rightarrow> (crab_error, file_sys, file_metadata) prog" where
  "metadata_of p =
    fs_guard Op_stat p (\<lambda>f. stat f p \<noteq> None) (\<lambda>f. f)
      (\<lambda>f. \<lparr>fm_filesize =
              (case stat f p of Some (File bs) \<Rightarrow> word_of_nat (length bs) | _ \<Rightarrow> fs_dir_len f p),
            fm_dir = (stat f p = Some Dir),
            fm_mtime = millis (fst (fs_times f p)), fm_atime = millis (snd (fs_times f p))\<rparr>)"

text \<open>The select of the copy against the token: cut off after \<open>n\<close> bytes when it fires.\<close>

definition send_contents :: "token \<Rightarrow> path \<Rightarrow> fnode \<Rightarrow> ('z, unit) wprog" where
  "send_contents tok p node w =
    (case node of
       Dir \<Rightarrow> (Inl (fs_fail Op_read p (w_fs w)), w)
     | File bs \<Rightarrow>
         (case tok of
            None \<Rightarrow> copy_to_stream bs w
          | Some n \<Rightarrow> (Inl (ErrorCode CANCELED_ERROR), snd (copy_to_stream (take n bs) w))))"

definition read_file_handle ::
  "ack_message codec \<Rightarrow> file_metadata codec \<Rightarrow> token \<Rightarrow> read_file \<Rightarrow> message_header
    \<Rightarrow> ('z, unit) wprog" where
  "read_file_handle ac mc tok cmd h =
    (let p = components (rf_path cmd) in
     andthen (answer ac h ack_success) (\<lambda>_.
     andthen (attempt (on_fs (metadata_of p))) (\<lambda>m.
     andthen
       (case m of
          Inr metadata \<Rightarrow> answer mc h metadata
        | Inl e \<Rightarrow> andthen (answer_error ac h e) (\<lambda>_. throw e)) (\<lambda>_.
     andthen (read_ack ac) (\<lambda>_.
     andthen (attempt (on_fs (open_file p))) (\<lambda>file.
       case file of
         Inl e \<Rightarrow> andthen (answer_error ac h e) (\<lambda>_. ret ())
       | Inr node \<Rightarrow>
           andthen (answer ac h ack_success) (\<lambda>_. send_contents tok p node)))))))"

section \<open>Writing a file\<close>

definition create_temp_file :: "write_file \<Rightarrow> ('z, path) wprog" where
  "create_temp_file cmd =
    andthen (on_fs (generate_temp_path (wf_path cmd) (wf_mkdir cmd))) (\<lambda>temp.
    andthen (on_fs (create_file temp)) (\<lambda>_. ret temp))"

text \<open>
  The select of the copy from the stream to the temporary file against the token.  What
  arrives before the end of the stream, its failure or the cancellation is written; nothing
  is written if nothing arrives.  A refused write ends the copy; how much of the input it
  has read by then depends on its buffer, and is all that arrives here.
\<close>

definition receive_contents :: "token \<Rightarrow> path \<Rightarrow> ('z, unit) wprog" where
  "receive_contents tok temp w =
    (let (got, left) = (case tok of Some n \<Rightarrow> (take n (rx w), drop n (rx w)) | None \<Rightarrow> (rx w, [])) in
     andthen (if got = [] then ret () else on_fs (write_contents temp got)) (\<lambda>_.
       case tok of
         Some _ \<Rightarrow> throw (ErrorCode CANCELED_ERROR)
       | None \<Rightarrow> if rx_fin w then ret () else throw (IO (rx_err w)))
     (w\<lparr>rx := left\<rparr>))"

definition write_check :: "write_file \<Rightarrow> crab_error + unit \<Rightarrow> ('z, unit) wprog" where
  "write_check cmd copied =
    (case copied of
       Inl e \<Rightarrow> throw e
     | Inr _ \<Rightarrow>
         andthen (on_fs (try_exists (components (wf_path cmd)))) (\<lambda>exists.
           if \<not> exists \<or> \<not> wf_overwrite cmd then ret ()
           else throw (IO ''File already exists'')))"

text \<open>The rename or the error, as the acknowledgement of the write.\<close>

definition write_publish :: "write_file \<Rightarrow> path \<Rightarrow> crab_error + unit \<Rightarrow> ('z, ack_message) wprog" where
  "write_publish cmd temp checked =
    (case checked of
       Inl err \<Rightarrow> ret (ack_from_error err)
     | Inr _ \<Rightarrow>
         andthen (attempt (on_fs (rename temp (components (wf_path cmd))))) (\<lambda>r.
           ret (case r of Inr _ \<Rightarrow> ack_success | Inl e \<Rightarrow> ack_from_error e)))"

definition write_cleanup :: "path \<Rightarrow> ack_message \<Rightarrow> ('z, unit) wprog" where
  "write_cleanup temp ack =
    (if ack_code ack \<noteq> NO_ERROR
     then andthen (attempt (on_fs (remove_file temp))) (\<lambda>_. ret ()) else ret ())"

text \<open>The second phase, after the peer has acknowledged the first.\<close>

definition write_receive ::
  "ack_message codec \<Rightarrow> token \<Rightarrow> write_file \<Rightarrow> message_header \<Rightarrow> path \<Rightarrow> ('z, unit) wprog" where
  "write_receive ac tok cmd h temp =
    andthen (attempt (receive_contents tok temp)) (\<lambda>copied.
    andthen (attempt (write_check cmd copied)) (\<lambda>checked.
    andthen (write_publish cmd temp checked) (\<lambda>ack.
    andthen (write_cleanup temp ack) (\<lambda>_. answer ac h ack))))"

definition write_file_handle ::
  "ack_message codec \<Rightarrow> token \<Rightarrow> write_file \<Rightarrow> message_header \<Rightarrow> ('z, unit) wprog" where
  "write_file_handle ac tok cmd h =
    andthen (answer ac h ack_success) (\<lambda>_.
    andthen (attempt (create_temp_file cmd)) (\<lambda>created.
      case created of
        Inl err \<Rightarrow> andthen (answer_error ac h err) (\<lambda>_. throw err)
      | Inr temp \<Rightarrow>
          andthen (answer ac h ack_success) (\<lambda>_.
          andthen (read_ack ac) (\<lambda>_. write_receive ac tok cmd h temp))))"

section \<open>What the stream operations leave alone\<close>

text \<open>The operations of \<open>Crab_Stream\<close> do not touch the file system.\<close>

lemma write_bytes_fs: "write_bytes mk bs w = (r, w') \<Longrightarrow> w_fs w' = w_fs w"
  by (auto simp: write_bytes_def split: option.splits if_splits)

lemma write_message_fs: "write_message c me op m w = (r, w') \<Longrightarrow> w_fs w' = w_fs w"
  by (auto simp: write_message_def write_all_def dest: write_bytes_fs split: option.splits)

lemma read_exact_fs: "read_exact n w = (r, w') \<Longrightarrow> w_fs w' = w_fs w"
  by (auto simp: read_exact_def split: if_splits)

lemma read_message_fs: "read_message ac c w = (r, w') \<Longrightarrow> w_fs w' = w_fs w"
  by (auto simp: read_message_def andthen_def
      split: option.splits if_splits prod.splits sum.splits dest!: read_exact_fs)

lemma read_ack_fs: "read_ack ac w = (r, w') \<Longrightarrow> w_fs w' = w_fs w"
  by (auto simp: read_ack_def andthen_def dest: read_message_fs split: prod.splits sum.splits)

lemma answer_fs: "answer c h m w = (r, w') \<Longrightarrow> w_fs w' = w_fs w"
  by (auto simp: answer_def dest: write_message_fs)

lemma answer_error_fs: "answer_error ac h e w = (r, w') \<Longrightarrow> w_fs w' = w_fs w"
  by (auto simp: answer_error_def write_error_def dest: write_message_fs)

lemma read_to_end_fs: "read_to_end w = (r, w') \<Longrightarrow> w_fs w' = w_fs w"
  by (auto simp: read_to_end_def split: if_splits)

lemmas stream_fs = write_message_fs read_message_fs read_ack_fs answer_fs answer_error_fs read_to_end_fs

lemma on_fs_apply: "on_fs m w = (fst (m (w_fs w)), w\<lparr>w_fs := snd (m (w_fs w))\<rparr>)"
  by (simp add: on_fs_def split: prod.splits)

lemma on_fs_run: "on_fs m w = (r, w') \<longleftrightarrow> (\<exists>f. m (w_fs w) = (r, f) \<and> w' = w\<lparr>w_fs := f\<rparr>)"
  by (auto simp: on_fs_def split: prod.splits)

section \<open>The phases of a write\<close>

lemma create_temp_file_cases:
  assumes "create_temp_file cmd w = (r, w')"
  obtains (failed) e where "r = Inl e" "dirs_made (components (wf_path cmd)) (wf_mkdir cmd) (w_fs w) (w_fs w')"
    | (ready) temp f where "r = Inr temp" "temp_path (components (wf_path cmd)) = Some temp"
        "dirs_made (components (wf_path cmd)) (wf_mkdir cmd) (w_fs w) f"
        "create_file temp f = (Inr (), w_fs w')"
proof -
  obtain g f where g: "generate_temp_path (wf_path cmd) (wf_mkdir cmd) (w_fs w) = (g, f)"
    by (cases "generate_temp_path (wf_path cmd) (wf_mkdir cmd) (w_fs w)")
  note made = generate_temp_path_made[OF g]
  show thesis
  proof (cases g)
    case (Inl e)
    with g assms made show thesis
      by (auto simp: create_temp_file_def andthen_def on_fs_apply intro: failed)
  next
    case (Inr temp)
    obtain s f' where c: "create_file temp f = (s, f')" by (cases "create_file temp f")
    with g Inr assms have w': "w_fs w' = f'" "r = (case s of Inl e \<Rightarrow> Inl e | Inr _ \<Rightarrow> Inr temp)"
      by (auto simp: create_temp_file_def andthen_def on_fs_apply split: sum.splits)
    show thesis
    proof (cases s)
      case (Inl e)
      with c disk.mk_fail have "f' = f" by blast
      with Inl w' made show thesis by (auto intro: failed)
    next
      case (Inr u)
      with c w' made g generate_temp_path_ok \<open>g = Inr temp\<close> show thesis by (intro ready[of temp f]) auto
    qed
  qed
qed

lemma receive_contents_fs:
  assumes "receive_contents tok temp w = (r, w')" "stat (w_fs w) temp = Some (File [])"
  obtains bs where "stat (w_fs w') = (stat (w_fs w))(temp \<mapsto> File bs)"
    "r = Inr () \<Longrightarrow> tok = None \<and> rx_fin w \<and> bs = rx w"
    "err_no (case r of Inl e \<Rightarrow> e | Inr _ \<Rightarrow> IO []) \<noteq> NO_ERROR"
proof -
  define got where "got = (case tok of Some n \<Rightarrow> take n (rx w) | None \<Rightarrow> rx w)"
  obtain s f where put: "write_contents temp got (w_fs w) = (s, f)" by fastforce
  from assms(2) have same: "stat (w_fs w) = (stat (w_fs w))(temp \<mapsto> File [])" by auto
  show thesis
  proof (cases "got = [] \<or> (\<exists>e. s = Inl e)")
    case True
    then consider (none) "got = []" | (refused) e where "got \<noteq> []" "s = Inl e" by blast
    then have "w_fs w' = w_fs w \<and> (r = Inr () \<longrightarrow> tok = None \<and> rx_fin w \<and> rx w = []) \<and>
      err_no (case r of Inl e \<Rightarrow> e | Inr _ \<Rightarrow> IO []) \<noteq> NO_ERROR"
    proof cases
      case none
      with assms(1) show ?thesis
        by (cases tok) (auto simp: receive_contents_def got_def andthen_def error_codes split: if_splits)
    next
      case (refused e)
      with put disk.put_fail have f: "f = w_fs w" by blast
      from put refused have "err_no e \<noteq> NO_ERROR"
        by (auto simp: write_contents_def fs_guard_def fs_fail_def error_codes split: if_splits)
      with assms(1) refused put f show ?thesis
        by (cases tok) (auto simp: receive_contents_def got_def andthen_def on_fs_apply)
    qed
    with same that[of "[]"] show thesis by auto
  next
    case False
    then obtain u where u: "s = Inr u" by (cases s) auto
    from disk.put_ok[OF put[unfolded u] assms(2)] have "stat f = (stat (w_fs w))(temp \<mapsto> File got)" .
    with False put u assms(1) that[of got] show thesis
      by (cases tok) (auto simp: receive_contents_def got_def andthen_def on_fs_apply error_codes split: if_splits)
  qed
qed

lemma write_check_fs:
  assumes "write_check cmd copied w = (r, w')"
  shows "w_fs w' = w_fs w \<and> (r = Inr () \<longrightarrow> copied = Inr ()) \<and>
    (\<forall>e. r = Inl e \<longrightarrow> (\<exists>t. e = IO t) \<or> copied = Inl e)"
  using assms
  by (cases copied)
    (auto simp: write_check_def andthen_def on_fs_run fs_op_defs fs_guard_def fs_fail_def
      split: prod.splits sum.splits if_splits)

lemma write_publish_cases:
  assumes "write_publish cmd temp checked w = (r, w')"
  shows "(\<exists>e. r = Inr (ack_from_error e) \<and> w_fs w' = w_fs w \<and> (checked = Inl e \<or> (\<exists>t. e = IO t))) \<or>
    (r = Inr ack_success \<and> checked = Inr () \<and>
     rename temp (components (wf_path cmd)) (w_fs w) = (Inr (), w_fs w'))"
proof (cases checked)
  case (Inl e)
  with assms show ?thesis by (auto simp: write_publish_def)
next
  case (Inr u)
  obtain s f where m: "rename temp (components (wf_path cmd)) (w_fs w) = (s, f)"
    by (cases "rename temp (components (wf_path cmd)) (w_fs w)")
  show ?thesis
  proof (cases s)
    case (Inl e)
    with m have "f = w_fs w" "\<exists>t. e = IO t"
      by (auto dest: disk.mv_fail simp: rename_def fs_guard_def fs_fail_def split: if_splits)
    with Inl m assms Inr show ?thesis
      by (auto simp: write_publish_def andthen_def attempt_def on_fs_def)
  next
    case (Inr v)
    with m assms \<open>checked = Inr u\<close> show ?thesis
      by (auto simp: write_publish_def andthen_def attempt_def on_fs_def)
  qed
qed

lemma write_cleanup_cases:
  assumes "write_cleanup temp ack w = (r, w')"
  shows "r = Inr () \<and>
    (if ack_code ack = NO_ERROR then w_fs w' = w_fs w
     else (\<exists>s. remove_file temp (w_fs w) = (s, w_fs w')))"
  using assms
  by (auto simp: write_cleanup_def andthen_def attempt_def on_fs_def split: prod.splits if_splits)

lemma cleanup_failed_ack:
  assumes "write_cleanup temp ack w = (r, w')" "ack_code ack \<noteq> NO_ERROR"
    and f: "stat (w_fs w) = f(temp \<mapsto> File n)"
  shows "stat (w_fs w') = f(temp := None) \<or>
    (stat (w_fs w') = f(temp \<mapsto> File n) \<and> fs_denied (w_fs w') Op_remove temp)"
proof -
  from write_cleanup_cases[OF assms(1)] assms(2) obtain s
    where s: "remove_file temp (w_fs w) = (s, w_fs w')" by auto
  show ?thesis
  proof (cases s)
    case (Inl e)
    from f have "stat (w_fs w) temp = Some (File n)" by simp
    with s Inl have "fs_denied (w_fs w) Op_remove temp" "w_fs w' = w_fs w"
      by (auto simp: remove_file_def fs_guard_def split: if_splits)
    with f show ?thesis by simp
  next
    case (Inr u)
    with disk.rm_ok s f have "stat (w_fs w') = f(temp := None)" by fastforce
    then show ?thesis ..
  qed
qed

text \<open>
  The three ends of the second phase, on the tree \<open>f\<close> in which the temporary file has just
  been created: the contents are published, the temporary file is removed, or it stays
  because its removal was refused.
\<close>

lemma write_receive_fs:
  assumes run: "write_receive ac tok cmd h temp w = (r, w')"
    and f: "stat (w_fs w) = f" "f temp = Some (File [])"
  shows
    "(stat (w_fs w') = (f(temp := None))(components (wf_path cmd) \<mapsto> File (rx w)) \<and> tok = None \<and> rx_fin w) \<or>
     stat (w_fs w') = f(temp := None) \<or>
     (\<exists>bs. stat (w_fs w') = f(temp \<mapsto> File bs) \<and> fs_denied (w_fs w') Op_remove temp)"
proof -
  obtain copied w1 where 1: "receive_contents tok temp w = (copied, w1)"
    by (cases "receive_contents tok temp w")
  obtain checked w2 where 2: "write_check cmd copied w1 = (checked, w2)"
    by (cases "write_check cmd copied w1")
  obtain p w3 where 3: "write_publish cmd temp checked w2 = (p, w3)"
    by (cases "write_publish cmd temp checked w2")
  from write_publish_cases[OF 3] obtain ack where p: "p = Inr ack" by auto
  obtain c w4 where 4: "write_cleanup temp ack w3 = (c, w4)"
    by (cases "write_cleanup temp ack w3")
  from write_cleanup_cases[OF 4] have c: "c = Inr ()" by simp
  have end': "w_fs w' = w_fs w4"
    using run 1 2 3 4 p c answer_fs[of ac h ack w4 r w']
    by (simp add: write_receive_def andthen_def attempt_def)
  from f have "stat (w_fs w) temp = Some (File [])" by simp
  from receive_contents_fs[OF 1 this] f(1) obtain bs where
    f1: "stat (w_fs w1) = f(temp \<mapsto> File bs)"
    and good: "copied = Inr () \<Longrightarrow> tok = None \<and> rx_fin w \<and> bs = rx w"
    and bad: "err_no (case copied of Inl e \<Rightarrow> e | Inr _ \<Rightarrow> IO []) \<noteq> NO_ERROR"
    by auto
  from write_check_fs[OF 2] have same: "w_fs w2 = w_fs w1"
    and ok: "checked = Inr () \<Longrightarrow> copied = Inr ()"
    and chk: "\<And>e. checked = Inl e \<Longrightarrow> (\<exists>t. e = IO t) \<or> copied = Inl e" by auto
  from write_publish_cases[OF 3] p show ?thesis
  proof (elim disjE exE conjE)
    fix e assume e: "p = Inr (ack_from_error e)" "w_fs w3 = w_fs w2" "checked = Inl e"
    then have "err_no e \<noteq> NO_ERROR" using chk bad by (auto simp: error_codes)
    with e p have "ack_code ack \<noteq> NO_ERROR" by (simp add: ack_from_error_code)
    with cleanup_failed_ack[OF 4] f1 same e end' show ?thesis by metis
  next
    fix e t assume e: "p = Inr (ack_from_error e)" "w_fs w3 = w_fs w2" "e = IO t"
    then have "ack_code ack \<noteq> NO_ERROR" using p by (simp add: error_codes)
    with cleanup_failed_ack[OF 4] f1 same e end' show ?thesis by metis
  next
    assume e: "p = Inr ack_success" "checked = Inr ()"
      "rename temp (components (wf_path cmd)) (w_fs w2) = (Inr (), w_fs w3)"
    with ok good have g: "tok = None" "rx_fin w" "bs = rx w" by auto
    with f1 have "stat (w_fs w1) = f(temp \<mapsto> File (rx w))" by simp
    then have "stat (w_fs w3) = (f(temp := None))(components (wf_path cmd) \<mapsto> File (rx w))"
      using disk.mv_ok[OF e(3)] same by (auto simp: fun_eq_iff)
    moreover have "w_fs w4 = w_fs w3"
      using write_cleanup_cases[OF 4] e(1) p by (auto simp: ack_success_def)
    ultimately show ?thesis using g end' by simp
  qed
qed

section \<open>A write that nothing refuses\<close>

definition fs_permits :: "file_sys \<Rightarrow> bool" where
  "fs_permits f \<longleftrightarrow> (\<forall>op p. \<not> fs_denied f op p)"

lemma create_temp_file_run:
  assumes "components (wf_path cmd) = q @ [Normal n]" "\<not> wf_mkdir cmd" "fs_permits (w_fs w)"
    and "stat (w_fs w) q = Some Dir" "stat (w_fs w) (q @ [Normal (n @ TEMP_FILE_SUFFIX)]) \<noteq> Some Dir"
  shows "create_temp_file cmd w = (Inr (q @ [Normal (n @ TEMP_FILE_SUFFIX)]),
    w\<lparr>w_fs := (w_fs w)\<lparr>fs_nodes := (fs_nodes (w_fs w))(q @ [Normal (n @ TEMP_FILE_SUFFIX)] \<mapsto> File [])\<rparr>\<rparr>)"
  using assms
  by (simp add: create_temp_file_def generate_temp_path_def Let_def andthen_def on_fs_apply fs_op_defs
      fs_guard_def fs_permits_def file_name_def parent_is_dir_def)

text \<open>The first phase: two acknowledgements are written, the temporary file is there.\<close>

lemma write_file_start:
  assumes "create_temp_file cmd (w\<lparr>tx := tx w @ k\<rparr>) = (Inr temp, w1)" "tx w1 = tx w @ k" "tx_cap w1 = None"
    and "framed ac me op ack_success k" "mh_method h = me" "mh_option h = op" "tx_cap w = None"
  shows "write_file_handle ac tok cmd h w =
    andthen (read_ack ac) (\<lambda>_. write_receive ac tok cmd h temp) (w1\<lparr>tx := tx w @ k @ k\<rparr>)"
  using assms
  by (simp add: write_file_handle_def answer_def andthen_def attempt_def
      write_message_up[OF assms(4)])

text \<open>The second phase, without failures of the file system.\<close>

lemma write_receive_run:
  assumes "components (wf_path cmd) = p" "p \<noteq> []" "temp \<noteq> []" "temp \<noteq> p"
    and "fs_permits (w_fs w)" "rx_fin w" "tok = None"
    and "stat (w_fs w) temp = Some (File [])" "stat (w_fs w) p \<noteq> Some Dir" "parent_is_dir (w_fs w) p"
    and "butlast p \<noteq> temp" "tx_cap w = None" "framed ac (mh_method h) (mh_option h) a k"
    and "published = (stat (w_fs w) p = None \<or> \<not> wf_overwrite cmd)"
    and "a = (if published then ack_success else ack_from_error (IO ''File already exists''))"
  shows "\<exists>w'. write_receive ac tok cmd h temp w = (Inr (), w') \<and>
    tx w' = tx w @ k \<and> rx w' = [] \<and> fs_permits (w_fs w') \<and> fs_times (w_fs w') = fs_times (w_fs w) \<and>
    stat (w_fs w') = (if published then ((stat (w_fs w))(temp := None))(p \<mapsto> File (rx w))
                      else (stat (w_fs w))(temp := None))"
proof -
  have w: "write_message ac (mh_method h) (mh_option h) a v = (Inr (), v\<lparr>tx := tx v @ k\<rparr>)"
    if "tx_cap v = None" for v :: "'a world_scheme"
    by (rule write_message_up[OF assms(13) that])
  show ?thesis
  proof (cases published)
    case True
    with assms w show ?thesis
      by (cases "rx w = []") (auto simp: write_receive_def receive_contents_def read_to_end_def write_check_def write_publish_def
          write_cleanup_def andthen_def attempt_def on_fs_apply fs_op_defs fs_guard_def fs_permits_def
          stat_def parent_is_dir_def answer_def ack_success_def fun_eq_iff Let_def
          split: if_splits option.splits)
  next
    case False
    with assms w show ?thesis
      by (cases "rx w = []") (auto simp: write_receive_def receive_contents_def read_to_end_def write_check_def write_publish_def
          write_cleanup_def andthen_def attempt_def on_fs_apply fs_op_defs fs_guard_def fs_permits_def
          stat_def parent_is_dir_def answer_def error_codes fun_eq_iff Let_def
          split: if_splits option.splits)
  qed
qed

section \<open>What the handlers leave of the input\<close>

lemma answer_rx: "answer c h m w = (r, w') \<Longrightarrow> rx w' = rx w \<and> rx_fin w' = rx_fin w"
  by (auto simp: answer_def write_message_def write_all_def write_bytes_def
      split: option.splits if_splits)

lemma read_exact_rx: "read_exact n w = (r, w') \<Longrightarrow> (\<exists>i. rx w' = drop i (rx w)) \<and> rx_fin w' = rx_fin w"
  by (auto simp: read_exact_def split: if_splits intro: exI[of _ "length (rx w)"])

lemma read_message_rx:
  "read_message ac c w = (r, w') \<Longrightarrow> (\<exists>i. rx w' = drop i (rx w)) \<and> rx_fin w' = rx_fin w"
  by (auto simp: read_message_def andthen_def split: option.splits if_splits prod.splits sum.splits
      dest!: read_exact_rx)

lemma read_ack_rx: "read_ack ac w = (r, w') \<Longrightarrow> (\<exists>i. rx w' = drop i (rx w)) \<and> rx_fin w' = rx_fin w"
  by (auto simp: read_ack_def andthen_def dest: read_message_rx split: prod.splits sum.splits)

lemma create_temp_file_rx: "create_temp_file cmd w = (r, w') \<Longrightarrow> rx w' = rx w \<and> rx_fin w' = rx_fin w"
  by (auto simp: create_temp_file_def andthen_def on_fs_apply split: prod.splits sum.splits)

text \<open>
  The bytes behind the first frame of an input, found from its header alone: for a write,
  what follows the acknowledgement of the peer, that is, the contents it sends.
\<close>

definition after_frame :: "bytes \<Rightarrow> bytes" where
  "after_frame bs = (case read_header bs of None \<Rightarrow> [] | Some (h, rest) \<Rightarrow> drop (unat (mh_length h)) rest)"

lemma after_frame_append [simp]:
  "length buf = unat (mh_length h) \<Longrightarrow> after_frame (write_header h @ buf @ bs) = bs"
  by (simp add: after_frame_def read_write_header)

lemma read_ack_after: "read_ack ac w = (Inr u, w') \<Longrightarrow> rx w' = after_frame (rx w)"
  by (auto simp: read_ack_def andthen_def split: prod.splits sum.splits dest!: read_message_exact)

text \<open>
  A write runs in one of three ways: it never got a temporary file, it ended before the
  second phase, or it went through the second phase on what follows the acknowledgement
  of the peer.
\<close>

lemma write_file_handle_cases:
  assumes "write_file_handle ac tok cmd h w = (r, w')" "components (wf_path cmd) = p"
  obtains (refused) "dirs_made p (wf_mkdir cmd) (w_fs w) (w_fs w')"
    | (created) temp f where "temp_path p = Some temp" "dirs_made p (wf_mkdir cmd) (w_fs w) f"
        "create_file temp f = (Inr (), w_fs w')"
    | (received) temp f w1 where "temp_path p = Some temp" "dirs_made p (wf_mkdir cmd) (w_fs w) f"
        "create_file temp f = (Inr (), w_fs w1)" "rx w1 = after_frame (rx w)"
        "rx_fin w1 = rx_fin w" "write_receive ac tok cmd h temp w1 = (r, w')"
proof -
  obtain r1 w1 where 1: "answer ac h ack_success w = (r1, w1)" by (cases "answer ac h ack_success w")
  obtain r2 w2 where 2: "create_temp_file cmd w1 = (r2, w2)" by (cases "create_temp_file cmd w1")
  obtain r3 w3 where 3: "answer ac h ack_success w2 = (r3, w3)" by (cases "answer ac h ack_success w2")
  obtain r4 w4 where 4: "read_ack ac w3 = (r4, w4)" by (cases "read_ack ac w3")
  note same = answer_fs[OF 1] answer_fs[OF 3] read_ack_fs[OF 4] answer_rx[OF 1] create_temp_file_rx[OF 2]
    answer_rx[OF 3] read_ack_rx[OF 4]
  show thesis
  proof (cases r1)
    case (Inl e)
    with assms(1) 1 same(1) show thesis by (auto simp: write_file_handle_def andthen_def intro: refused)
  next
    case r1: (Inr u)
    from 2 show thesis
    proof (cases rule: create_temp_file_cases)
      case (failed e)
      with assms 1 2 r1 same(1) show thesis
        by (auto simp: write_file_handle_def andthen_def attempt_def split: prod.splits sum.splits
            dest!: answer_error_fs intro: refused)
    next
      case t: (ready temp f)
      show thesis
      proof (cases "r3 = Inr () \<and> r4 = Inr ()")
        case True
        with assms(1) 1 2 3 4 r1 t have "write_receive ac tok cmd h temp w4 = (r, w')"
          by (simp add: write_file_handle_def andthen_def attempt_def)
        moreover have "rx w4 = after_frame (rx w)" using read_ack_after[of ac w3 "()" w4] True 4 same by simp
        ultimately show thesis using t same assms(2) by (intro received[of temp f w4]) auto
      next
        case False
        with assms(1) 1 2 3 4 r1 t have "w' = w3 \<or> w' = w4"
          by (auto simp: write_file_handle_def andthen_def attempt_def split: sum.splits)
        with t same assms(2) show thesis by (intro created[of temp f]) auto
      qed
    qed
  qed
qed

lemma write_file_run:
  assumes "components (wf_path cmd) = q @ [Normal n]" "\<not> wf_mkdir cmd" "fs_permits (w_fs w)"
    and "stat (w_fs w) q = Some Dir" "stat (w_fs w) (q @ [Normal n]) \<noteq> Some Dir"
    and "stat (w_fs w) (q @ [Normal (n @ TEMP_FILE_SUFFIX)]) \<noteq> Some Dir"
    and "published = (stat (w_fs w) (q @ [Normal n]) = None \<or> \<not> wf_overwrite cmd)"
    and "codec_ok ac" "framed ac me op ack_success a" "op AND OPTION_ERROR \<noteq> OPTION_ERROR"
    and "rx w = a @ body" "rx_fin w" "tx_cap w = None"
    and "framed ac (mh_method h) (mh_option h) ack_success k"
    and "framed ac (mh_method h) (mh_option h)
      (if published then ack_success else ack_from_error (IO ''File already exists'')) k'"
  shows "\<exists>w'. write_file_handle ac None cmd h w = (Inr (), w') \<and> tx w' = tx w @ k @ k @ k' \<and>
    fs_permits (w_fs w') \<and> fs_times (w_fs w') = fs_times (w_fs w) \<and>
    stat (w_fs w') =
      (if published
       then ((stat (w_fs w))(q @ [Normal (n @ TEMP_FILE_SUFFIX)] := None))(q @ [Normal n] \<mapsto> File body)
       else (stat (w_fs w))(q @ [Normal (n @ TEMP_FILE_SUFFIX)] := None))"
proof -
  let ?p = "q @ [Normal n]" and ?t = "q @ [Normal (n @ TEMP_FILE_SUFFIX)]"
  let ?f = "(w_fs w)\<lparr>fs_nodes := (fs_nodes (w_fs w))(?t \<mapsto> File [])\<rparr>"
  let ?w = "w\<lparr>w_fs := ?f, tx := tx w @ k @ k, rx := body\<rparr>"
  have t: "?t \<noteq> ?p" "q \<noteq> ?t" by (simp_all add: TEMP_FILE_SUFFIX_def)
  have f: "stat ?f = (stat (w_fs w))(?t \<mapsto> File [])" "fs_permits ?f"
    using assms(3) by (auto simp: stat_def fun_eq_iff fs_permits_def)
  have start: "write_file_handle ac None cmd h w =
      andthen (read_ack ac) (\<lambda>_. write_receive ac None cmd h ?t) (w\<lparr>w_fs := ?f, tx := tx w @ k @ k\<rparr>)"
    using write_file_start[of cmd w k ?t "(w\<lparr>tx := tx w @ k\<rparr>)\<lparr>w_fs := ?f\<rparr>" ac "mh_method h" "mh_option h" h None]
      create_temp_file_run[of cmd q n "w\<lparr>tx := tx w @ k\<rparr>"] assms by simp
  have ack: "read_ack ac (w\<lparr>w_fs := ?f, tx := tx w @ k @ k\<rparr>) = (Inr (), ?w)"
    using read_ack_ok[OF assms(8,9,10), of "w\<lparr>w_fs := ?f, tx := tx w @ k @ k\<rparr>" body] assms(11) by simp
  have "\<exists>w'. write_receive ac None cmd h ?t ?w = (Inr (), w') \<and> tx w' = tx ?w @ k' \<and> rx w' = [] \<and>
      fs_permits (w_fs w') \<and> fs_times (w_fs w') = fs_times (w_fs w) \<and>
      stat (w_fs w') = (if published then ((stat ?f)(?t := None))(?p \<mapsto> File body) else (stat ?f)(?t := None))"
  proof (cases published)
    case True
    with write_receive_run[of cmd ?p ?t ?w None ac h ack_success k' True] assms t f
    show ?thesis by (simp add: parent_is_dir_def)
  next
    case False
    with write_receive_run[of cmd ?p ?t ?w None ac h "ack_from_error (IO ''File already exists'')" k' False]
      assms t f
    show ?thesis by (simp add: parent_is_dir_def)
  qed
  with start ack f(1) show ?thesis by (auto simp: andthen_def)
qed

section \<open>Listings\<close>

lemma read_entries_sound:
  "read_entries raw = Inr es \<Longrightarrow>
     raw = map (\<lambda>e. Inr \<lparr>re_name = Some (de_name e), re_is_dir = Inr (de_dir e)\<rparr>) es"
  by (induction raw arbitrary: es rule: read_entries.induct) (auto split: option.splits sum.splits)

lemma read_entries_complete:
  "read_entries (map (\<lambda>e. Inr \<lparr>re_name = Some (de_name e), re_is_dir = Inr (de_dir e)\<rparr>) es) = Inr es"
  by (induction es) simp_all

section \<open>Properties\<close>

text \<open>
  C2: a write is atomic.  However the handler of \<open>WriteFile\<close> ends, whatever the stream, the
  token and the file system do to it, the target is either as it was or holds exactly the
  bytes that follow the frame of the peer's acknowledgement on the stream, all of them,
  and then the peer had finished the stream and the command was not cancelled.  No path
  but the target and its temporary file changes, except that with \<open>mkdir\<close> missing
  directories above the target may have been created.
\<close>

theorem write_file_atomic:
  assumes "write_file_handle ac tok cmd h w = (r, w')" "components (wf_path cmd) = p"
  shows "(stat (w_fs w') p = stat (w_fs w) p \<or>
      (stat (w_fs w') p = Some (File (after_frame (rx w))) \<and> rx_fin w \<and> tok = None)) \<and>
    (\<forall>q. q = p \<or> temp_path p = Some q \<or> stat (w_fs w') q = stat (w_fs w) q \<or>
      (wf_mkdir cmd \<and> length q < length p \<and> take (length q) p = q \<and>
       stat (w_fs w) q = None \<and> stat (w_fs w') q = Some Dir))"
  using assms
proof (cases rule: write_file_handle_cases)
  case refused
  then show ?thesis by (auto simp: dirs_made_def)
next
  case (created temp f)
  with disk.mk_ok[OF created(3)] temp_path_differs[OF created(1)] show ?thesis
    by (auto simp: dirs_made_def)
next
  case (received temp f w1)
  have f: "stat (w_fs w1) = (stat f)(temp \<mapsto> File [])"
    using disk.mk_ok[OF received(3)] by simp
  have end': "(stat (w_fs w') p = stat f p \<or>
      (stat (w_fs w') p = Some (File (after_frame (rx w))) \<and> rx_fin w \<and> tok = None)) \<and>
    (\<forall>q. q \<noteq> p \<longrightarrow> q \<noteq> temp \<longrightarrow> stat (w_fs w') q = stat f q)"
    using temp_path_differs[OF received(1)] assms(2) received(4,5)
      write_receive_fs[OF received(6) refl, unfolded f] by (auto simp: fun_eq_iff)
  with received(1,2) show ?thesis unfolding dirs_made_def by (metis nat_less_le)
qed

definition world_of :: "bytes \<Rightarrow> file_sys \<Rightarrow> world" where
  "world_of bs f = \<lparr>rx = bs, rx_fin = True, rx_err = [], tx = [], tx_cap = None, tx_err = [], w_fs = f\<rparr>"

lemma world_of_simps [simp]:
  "rx (world_of bs f) = bs" "rx_fin (world_of bs f)" "rx_err (world_of bs f) = []"
  "tx (world_of bs f) = []" "tx_cap (world_of bs f) = None" "w_fs (world_of bs f) = f"
  by (simp_all add: world_of_def)

definition command_header :: message_header where
  "command_header = \<lparr>mh_version = 0, mh_option = OPTION_NONE, mh_method = Method_Command, mh_length = 1\<rparr>"

lemma command_header_simps [simp]:
  "mh_method command_header = Method_Command" "mh_option command_header = OPTION_NONE"
  by (simp_all add: command_header_def)

abbreviation ack_frame :: bytes where
  "ack_frame \<equiv> small_frame Method_Command OPTION_NONE 0"

lemmas sample_ack_framed = small_framed[OF sample_ack_facts(2), of Method_Command OPTION_NONE]

lemma sample_paths [simp]:
  "components ''/a'' = [RootDir, Normal ''a'']" "components ''/b'' = [RootDir, Normal ''b'']"
  by (simp_all add: components_def piece_comp_def List.map_filter_simps)

lemma sample_permits [simp]: "fs_permits sample_fs" "fs_denied sample_fs op p = False"
  by (simp_all add: fs_permits_def sample_fs_def)

theorem write_file_atomic_witness:
  "case write_file_handle sample_ack (Some 1) \<lparr>wf_path = ''/a'', wf_overwrite = False, wf_mkdir = True\<rparr>
      command_header (world_of (ack_frame @ [1, 2, 3]) sample_fs) of
     (r, w') \<Rightarrow>
      stat (w_fs w') [RootDir, Normal ''b''] = stat sample_fs [RootDir, Normal ''b''] \<and>
      stat (w_fs w') [RootDir, Normal ''a''] = stat sample_fs [RootDir, Normal ''a'']"
  using write_file_atomic[of sample_ack "Some 1" "\<lparr>wf_path = ''/a'', wf_overwrite = False, wf_mkdir = True\<rparr>"
      command_header "world_of (ack_frame @ [1, 2, 3]) sample_fs" _ _ "[RootDir, Normal ''a'']"]
  by (auto simp: temp_path_def file_name_def parent_def TEMP_FILE_SUFFIX_def dest!: spec[of _ "[RootDir, Normal ''b'']"]
      split: prod.split)

text \<open>
  A write that nothing interferes with does what it is for.  If the target's directory
  exists, the file system permits the operations, the peer acknowledges the first phase
  and finishes its stream, and the target either does not exist or \<open>overwrite\<close> is not set,
  then the handler succeeds, has written three acknowledgements of success, and the target
  holds exactly the bytes received, the temporary file being gone.
\<close>

lemma write_file_publishes:
  assumes "components (wf_path cmd) = q @ [Normal n]" "\<not> wf_mkdir cmd" "fs_permits (w_fs w)"
    and "stat (w_fs w) q = Some Dir" "stat (w_fs w) (q @ [Normal n]) \<noteq> Some Dir"
    and "stat (w_fs w) (q @ [Normal (n @ TEMP_FILE_SUFFIX)]) \<noteq> Some Dir"
    and "stat (w_fs w) (q @ [Normal n]) = None \<or> \<not> wf_overwrite cmd"
    and "codec_ok ac" "framed ac me op ack_success a" "op AND OPTION_ERROR \<noteq> OPTION_ERROR"
    and "rx w = a @ body" "rx_fin w" "tx_cap w = None"
    and "framed ac (mh_method h) (mh_option h) ack_success k"
  shows "\<exists>w'. write_file_handle ac None cmd h w = (Inr (), w') \<and> tx w' = tx w @ k @ k @ k \<and>
    stat (w_fs w') = ((stat (w_fs w))(q @ [Normal (n @ TEMP_FILE_SUFFIX)] := None))(q @ [Normal n] \<mapsto> File body)"
  using write_file_run[OF assms(1-6) _ assms(8-14), of True k] assms(7,14) by auto

lemma write_file_publishes_witness:
  "\<exists>w'. write_file_handle sample_ack None \<lparr>wf_path = ''/b'', wf_overwrite = False, wf_mkdir = False\<rparr>
      command_header (world_of (ack_frame @ [1, 2, 3]) sample_fs) = (Inr (), w') \<and>
    tx w' = ack_frame @ ack_frame @ ack_frame \<and> stat (w_fs w') [RootDir, Normal ''b''] = Some (File [1, 2, 3])"
proof -
  let ?cmd = "\<lparr>wf_path = ''/b'', wf_overwrite = False, wf_mkdir = False\<rparr>"
  have "\<exists>w'. write_file_handle sample_ack None ?cmd command_header (world_of (ack_frame @ [1, 2, 3]) sample_fs) =
      (Inr (), w') \<and> tx w' = tx (world_of (ack_frame @ [1, 2, 3]) sample_fs) @ ack_frame @ ack_frame @ ack_frame \<and>
    stat (w_fs w') = ((stat (w_fs (world_of (ack_frame @ [1, 2, 3]) sample_fs)))
      ([RootDir] @ [Normal (''b'' @ TEMP_FILE_SUFFIX)] := None))([RootDir] @ [Normal ''b''] \<mapsto> File [1, 2, 3])"
    by (rule write_file_publishes[OF _ _ _ _ _ _ _ sample_ack_facts(1) sample_ack_framed option_none_ok])
      (simp_all add: sample_ack_framed stat_def sample_fs_def[THEN arg_cong[of _ _ fs_nodes]])
  then show ?thesis by auto
qed

text \<open>
  C40: the \<open>overwrite\<close> flag works the wrong way round.  On a target that exists, the write with
  \<open>overwrite\<close> set is rejected with \<open>File already exists\<close> and leaves the target as it was, and
  the write with \<open>overwrite\<close> not set replaces the target by what it received.
\<close>

theorem overwrite_inverted:
  assumes "components p = q @ [Normal n]" "fs_permits (w_fs w)"
    and "stat (w_fs w) q = Some Dir" "stat (w_fs w) (q @ [Normal n]) = Some (File old)"
    and "stat (w_fs w) (q @ [Normal (n @ TEMP_FILE_SUFFIX)]) \<noteq> Some Dir"
    and "codec_ok ac" "framed ac me op ack_success a" "op AND OPTION_ERROR \<noteq> OPTION_ERROR"
    and "rx w = a @ body" "rx_fin w" "tx_cap w = None"
    and "framed ac (mh_method h) (mh_option h) ack_success k"
    and "framed ac (mh_method h) (mh_option h) (ack_from_error (IO ''File already exists'')) k'"
  shows
    "(\<exists>w'. write_file_handle ac None \<lparr>wf_path = p, wf_overwrite = True, wf_mkdir = False\<rparr> h w = (Inr (), w') \<and>
        tx w' = tx w @ k @ k @ k' \<and> stat (w_fs w') (q @ [Normal n]) = Some (File old)) \<and>
     (\<exists>w'. write_file_handle ac None \<lparr>wf_path = p, wf_overwrite = False, wf_mkdir = False\<rparr> h w = (Inr (), w') \<and>
        tx w' = tx w @ k @ k @ k \<and> stat (w_fs w') (q @ [Normal n]) = Some (File body))"
  using write_file_run[of "\<lparr>wf_path = p, wf_overwrite = True, wf_mkdir = False\<rparr>" q n w False ac me op a body h k k']
    write_file_run[of "\<lparr>wf_path = p, wf_overwrite = False, wf_mkdir = False\<rparr>" q n w True ac me op a body h k k]
    assms
  by (auto simp: TEMP_FILE_SUFFIX_def)

definition sample_ack2 :: "ack_message codec" where
  "sample_ack2 = table_codec [(ack_success, [0]), (ack_from_error (IO ''File already exists''), [2])]"

lemma sample_ack2_facts:
  "codec_ok sample_ack2" "framed sample_ack2 me op ack_success (small_frame me op 0)"
  "framed sample_ack2 me op (ack_from_error (IO ''File already exists'')) (small_frame me op 2)"
  unfolding sample_ack2_def
  by (rule table_codec_ok, simp) (rule small_framed, simp add: table_codec_def ack_success_def error_codes)+

theorem overwrite_inverted_witness:
  "(\<exists>w'. write_file_handle sample_ack2 None \<lparr>wf_path = ''/a'', wf_overwrite = True, wf_mkdir = False\<rparr>
        command_header (world_of (ack_frame @ [7, 8]) sample_fs) = (Inr (), w') \<and>
        tx w' = ack_frame @ ack_frame @ small_frame Method_Command OPTION_NONE 2 \<and>
        stat (w_fs w') [RootDir, Normal ''a''] = Some (File [1])) \<and>
   (\<exists>w'. write_file_handle sample_ack2 None \<lparr>wf_path = ''/a'', wf_overwrite = False, wf_mkdir = False\<rparr>
        command_header (world_of (ack_frame @ [7, 8]) sample_fs) = (Inr (), w') \<and>
        tx w' = ack_frame @ ack_frame @ ack_frame \<and>
        stat (w_fs w') [RootDir, Normal ''a''] = Some (File [7, 8]))"
  using overwrite_inverted[of "''/a''" "[RootDir]" "''a''" "world_of (ack_frame @ [7, 8]) sample_fs" "[1]"
      sample_ack2 Method_Command OPTION_NONE ack_frame "[7, 8]" command_header ack_frame
      "small_frame Method_Command OPTION_NONE 2"]
  by (simp add: sample_ack2_facts sample_ack2_facts(3)[simplified] TEMP_FILE_SUFFIX_def stat_def
      sample_fs_def[THEN arg_cong[of _ _ fs_nodes]])

text \<open>
  A peer that goes away between the two phases leaves a file behind.  When the stream
  ends before the peer's acknowledgement, the handler fails with the read error and the
  temporary file it has created stays, empty.
\<close>

lemma abandoned_write_leaks:
  assumes "components (wf_path cmd) = q @ [Normal n]" "\<not> wf_mkdir cmd" "fs_permits (w_fs w)"
    and "stat (w_fs w) q = Some Dir" "stat (w_fs w) (q @ [Normal (n @ TEMP_FILE_SUFFIX)]) \<noteq> Some Dir"
    and "framed ac (mh_method h) (mh_option h) ack_success k" "rx w = []" "tx_cap w = None"
  shows "\<exists>w'. write_file_handle ac tok cmd h w = (Inl (QuicReadExactError (rx_err w)), w') \<and>
    stat (w_fs w') = (stat (w_fs w))(q @ [Normal (n @ TEMP_FILE_SUFFIX)] \<mapsto> File [])"
proof -
  let ?t = "q @ [Normal (n @ TEMP_FILE_SUFFIX)]"
  let ?f = "(w_fs w)\<lparr>fs_nodes := (fs_nodes (w_fs w))(?t \<mapsto> File [])\<rparr>"
  have "write_file_handle ac tok cmd h w =
      andthen (read_ack ac) (\<lambda>_. write_receive ac tok cmd h ?t) (w\<lparr>w_fs := ?f, tx := tx w @ k @ k\<rparr>)"
    using write_file_start[of cmd w k ?t "(w\<lparr>tx := tx w @ k\<rparr>)\<lparr>w_fs := ?f\<rparr>" ac "mh_method h" "mh_option h" h tok]
      create_temp_file_run[of cmd q n "w\<lparr>tx := tx w @ k\<rparr>"] assms by simp
  then show ?thesis
    using assms(7)
    by (simp add: andthen_def read_ack_def read_message_def read_exact_def HEADER_SIZE_def stat_def fun_eq_iff)
qed

lemma abandoned_write_leaks_witness:
  "\<exists>w'. write_file_handle sample_ack None \<lparr>wf_path = ''/b'', wf_overwrite = False, wf_mkdir = False\<rparr>
      command_header (world_of [] sample_fs) = (Inl (QuicReadExactError []), w') \<and>
    stat (w_fs w') = (stat sample_fs)([RootDir, Normal ''b.crab_temp''] \<mapsto> File [])"
  using abandoned_write_leaks[of "\<lparr>wf_path = ''/b'', wf_overwrite = False, wf_mkdir = False\<rparr>" "[RootDir]" "''b''"
      "world_of [] sample_fs" sample_ack command_header ack_frame None]
  by (simp add: sample_ack_framed TEMP_FILE_SUFFIX_def stat_def sample_fs_def[THEN arg_cong[of _ _ fs_nodes]])

text \<open>
  A listing is complete or fails.  \<open>read_entries\<close> succeeds exactly on a directory stream
  without errors in which every name is Unicode and every type known, and then has the
  entries in order, none dropped; and the Windows listing of the root has exactly the
  drives whose bit is set in the mask, in the order of their letters, each once.
\<close>

lemma listing_exact:
  "(read_entries raw = Inr es \<longleftrightarrow>
     raw = map (\<lambda>e. Inr \<lparr>re_name = Some (de_name e), re_is_dir = Inr (de_dir e)\<rparr>) es) \<and>
   map de_name (list_drives drives) =
     map (\<lambda>i. [char_of (65 + i), CHR '':'', CHR 0x5C]) (List.filter (bit drives) [0..<26]) \<and>
   distinct (list_drives drives)"
proof (intro conjI)
  show "read_entries raw = Inr es \<longleftrightarrow>
     raw = map (\<lambda>e. Inr \<lparr>re_name = Some (de_name e), re_is_dir = Inr (de_dir e)\<rparr>) es"
    using read_entries_sound read_entries_complete by blast
  have bit: "drives AND push_bit i 1 \<noteq> 0 \<longleftrightarrow> bit drives i" for i
    by (simp add: push_bit_eq_mult and_exp_eq_0_iff_not_bit)
  then show "map de_name (list_drives drives) =
     map (\<lambda>i. [char_of (65 + i), CHR '':'', CHR 0x5C]) (List.filter (bit drives) [0..<26])"
    by (simp only: list_drives_def map_map comp_def drive_entry_def dir_entry.simps)
  have "inj_on drive_entry {0..<26}"
  proof (rule inj_onI)
    fix i j :: nat assume i: "i \<in> {0..<26}" "j \<in> {0..<26}" and "drive_entry i = drive_entry j"
    then have "of_char (char_of (65 + i)) = (of_char (char_of (65 + j)) :: nat)"
      by (simp only: drive_entry_def dir_entry.ext_inject list.inject)
    with i show "i = j" by simp
  qed
  then show "distinct (list_drives drives)"
    unfolding list_drives_def distinct_map set_filter set_upt
    by (intro conjI distinct_filter distinct_upt) (erule inj_on_subset, blast)
qed

end
