(* ===== verification/Crab_Packet.thy ===== *)
theory Crab_Packet
  imports Crab_Stream Crab_App_Types
begin

text \<open>
  \<^verbatim>\<open>src/src/app/protocol/forwarder/types.rs\<close>, \<^verbatim>\<open>udp.rs\<close> and \<^verbatim>\<open>udp_util.rs\<close>: the header of a
  forwarded UDP packet, reading and writing packets on a stream, and the copy loop from
  the stream to a socket.

  The layout is the one the \<open>binrw\<close> attributes declare: big-endian, fields in order.  A
  \<open>br(...)\<close> directive is for the reader only and a \<open>bw(...)\<close> directive for the writer only
  (as in \<open>DomainHost\<close>, whose length byte is \<open>br(temp)\<close>, \<open>bw(calc)\<close>).  The variants of
  \<open>PackageHost\<close> have their magic under \<open>br\<close>: the reader selects the variant by a tag byte
  that the writer does not emit.
\<close>

section \<open>UTF-8\<close>

text \<open>The validity test of \<open>String::from_utf8\<close>.\<close>

definition cont_byte :: "u8 \<Rightarrow> bool" where
  "cont_byte b \<longleftrightarrow> 0x80 \<le> b \<and> b \<le> 0xBF"

fun valid_utf8 :: "bytes \<Rightarrow> bool" where
  "valid_utf8 [] = True"
| "valid_utf8 (a # r) =
    (if a < 0x80 then valid_utf8 r
     else if 0xC2 \<le> a \<and> a \<le> 0xDF then
       (case r of b # r' \<Rightarrow> cont_byte b \<and> valid_utf8 r' | _ \<Rightarrow> False)
     else if 0xE0 \<le> a \<and> a \<le> 0xEF then
       (case r of
          b # c # r' \<Rightarrow> cont_byte b \<and> cont_byte c
            \<and> (a = 0xE0 \<longrightarrow> 0xA0 \<le> b) \<and> (a = 0xED \<longrightarrow> b \<le> 0x9F) \<and> valid_utf8 r'
        | _ \<Rightarrow> False)
     else if 0xF0 \<le> a \<and> a \<le> 0xF4 then
       (case r of
          b # c # d # r' \<Rightarrow> cont_byte b \<and> cont_byte c \<and> cont_byte d
            \<and> (a = 0xF0 \<longrightarrow> 0x90 \<le> b) \<and> (a = 0xF4 \<longrightarrow> b \<le> 0x8F) \<and> valid_utf8 r'
        | _ \<Rightarrow> False)
     else False)"

definition string_from_utf8 :: "bytes \<Rightarrow> string option" where
  "string_from_utf8 bs = (if valid_utf8 bs then Some (map (\<lambda>b. char_of (unat b)) bs) else None)"

section \<open>The packet header\<close>

datatype package_host = Host_Ipv4 bytes | Host_Ipv6 bytes | Host_Domain bytes

record packet_header =
  ph_rsv :: u16
  ph_frag :: u8
  ph_addr :: package_host
  ph_port :: u16

fun write_host :: "package_host \<Rightarrow> bytes" where
  "write_host (Host_Ipv4 o4) = o4"
| "write_host (Host_Ipv6 o16) = o16"
| "write_host (Host_Domain d) = word_of_nat (length d) # d"

definition read_octets :: "nat \<Rightarrow> (bytes \<Rightarrow> 'a) \<Rightarrow> bytes \<Rightarrow> ('a \<times> bytes) option" where
  "read_octets n f r = (if n \<le> length r then Some (f (take n r), drop n r) else None)"

fun read_host :: "bytes \<Rightarrow> (package_host \<times> bytes) option" where
  "read_host [] = None"
| "read_host (tag # r) =
    (if tag = 1 then read_octets 4 Host_Ipv4 r
     else if tag = 4 then read_octets 16 Host_Ipv6 r
     else if tag = 3 then
       (case r of [] \<Rightarrow> None | n # r' \<Rightarrow> read_octets (unat n) Host_Domain r')
     else None)"

definition write_packet_header :: "packet_header \<Rightarrow> bytes" where
  "write_packet_header h = be16 (ph_rsv h) @ [ph_frag h] @ write_host (ph_addr h) @ be16 (ph_port h)"

definition read_packet_header :: "bytes \<Rightarrow> (packet_header \<times> bytes) option" where
  "read_packet_header bs =
    (case of_be16 bs of
       None \<Rightarrow> None
     | Some (rsv, r) \<Rightarrow>
         if rsv \<noteq> 0 then None
         else (case r of
             [] \<Rightarrow> None
           | frag # r1 \<Rightarrow> (case read_host r1 of
               None \<Rightarrow> None
             | Some (host, r2) \<Rightarrow> (case of_be16 r2 of
                 None \<Rightarrow> None
               | Some (port, r3) \<Rightarrow>
                   Some (\<lparr>ph_rsv = rsv, ph_frag = frag, ph_addr = host, ph_port = port\<rparr>, r3)))))"

definition packet_unpack :: "bytes \<Rightarrow> crab_error + packet_header \<times> nat" where
  "packet_unpack buf =
    (case read_packet_header buf of
       None \<Rightarrow> Inl (ErrorCode BAD_MESSAGE_HEADER)
     | Some (h, rest) \<Rightarrow> Inr (h, length buf - length rest))"

fun host_of_addr :: "socket_addr \<Rightarrow> package_host" where
  "host_of_addr (SocketAddrV4 o4 _) = Host_Ipv4 o4"
| "host_of_addr (SocketAddrV6 o16 _ _ _) = Host_Ipv6 o16"

definition packet_of_addr :: "socket_addr \<Rightarrow> packet_header" where
  "packet_of_addr addr =
    \<lparr>ph_rsv = 0, ph_frag = 0, ph_addr = host_of_addr addr, ph_port = addr_port addr\<rparr>"

definition address_of_packet :: "packet_header \<Rightarrow> crab_error + address" where
  "address_of_packet h =
    (case ph_addr h of
       Host_Ipv4 o4 \<Rightarrow> Inr (SocketAddress (SocketAddrV4 o4 (ph_port h)))
     | Host_Ipv6 o16 \<Rightarrow> Inr (SocketAddress (SocketAddrV6 o16 (ph_port h) 0 0))
     | Host_Domain d \<Rightarrow>
         (case string_from_utf8 d of
            None \<Rightarrow> Inl (ErrorCode ENCODING_ERROR)
          | Some host \<Rightarrow> Inr (DomainAddress host (ph_port h))))"

section \<open>Packets on a stream\<close>

definition UDP_FORWARD_MTU :: nat where "UDP_FORWARD_MTU = 1500"
definition OVER_PACKET_TAG :: u16 where "OVER_PACKET_TAG = push_bit 15 1"
definition PACKET_LEN_MASK :: u16 where "PACKET_LEN_MASK = 0xffff XOR OVER_PACKET_TAG"

definition read_u16 :: "('z, u16) sprog" where
  "read_u16 s =
    (case of_be16 (rx s) of
       None \<Rightarrow> (Inl (IO (rx_err s)), s\<lparr>rx := []\<rparr>)
     | Some (w, r) \<Rightarrow> (Inr w, s\<lparr>rx := r\<rparr>))"

text \<open>
  \<open>read_packet\<close> of a \<open>RecvStream\<close>: \<open>buf\<close> is the caller's buffer; the result is the address,
  the slice handed out and the buffer as it is then.
\<close>

definition read_packet :: "bytes \<Rightarrow> ('z, address \<times> bytes \<times> bytes) sprog" where
  "read_packet buf =
    andthen read_u16 (\<lambda>flag.
      let size = unat (flag AND PACKET_LEN_MASK) in
      if size = 0 then throw (ErrorCode BAD_MESSAGE_HEADER)
      else if length buf < size then throw (ErrorCode NO_ENOUGH_SPACE)
      else andthen (read_exact size) (\<lambda>packet.
        let buf' = packet @ drop size buf in
        andthen (lift (packet_unpack (take size buf'))) (\<lambda>(header, position).
        andthen (lift (address_of_packet header)) (\<lambda>addr.
          ret (addr, drop position buf', buf')))))"

text \<open>\<open>send_to\<close> of \<open>Mutex<SendStream>\<close>: the length prefix, the header and the payload.\<close>

definition packet_send :: "bytes \<Rightarrow> socket_addr \<Rightarrow> ('z, nat) sprog" where
  "packet_send buf addr =
    (let header = write_packet_header (packet_of_addr addr);
         total = (word_of_nat (length buf) :: u32) + word_of_nat (length header)
     in andthen (write_all ([ucast (drop_bit 8 total), ucast total] @ header)) (\<lambda>_.
        andthen (write_all buf) (\<lambda>_. ret (length buf))))"

section \<open>The copy loop from the stream to a socket\<close>

text \<open>
  One turn of \<open>copy_udp_packet\<close>: a packet is read, its address resolved (a failure skips
  the packet) and the data sent.  The state carries the stream; the result is the datagram
  to send, if any, and the buffer.
\<close>

definition udp_turn ::
  "(string \<Rightarrow> u16 \<Rightarrow> crab_error + socket_addr list) \<Rightarrow> bytes
    \<Rightarrow> ('z, (bytes \<times> socket_addr) option \<times> bytes) sprog" where
  "udp_turn lookup buf =
    andthen (read_packet buf) (\<lambda>(addr, data, buf').
      case resolve lookup addr of
        Inl _ \<Rightarrow> ret (None, buf')
      | Inr a \<Rightarrow> ret (Some (data, a), buf'))"

lemma read_u16_shorter: "read_u16 s = (Inr w, t) \<Longrightarrow> length (rx t) < length (rx s)"
  by (auto simp: read_u16_def split: option.splits dest!: be16.dec_sound simp: be16_def)

lemma read_exact_shorter: "read_exact n s = (Inr b, t) \<Longrightarrow> length (rx t) \<le> length (rx s)"
  by (auto simp: read_exact_def split: if_splits)

lemma udp_turn_shorter: "udp_turn lookup buf s = (Inr x, t) \<Longrightarrow> length (rx t) < length (rx s)"
  by (auto simp: udp_turn_def read_packet_def Let_def andthen_def
      split: prod.splits sum.splits if_splits
      dest!: read_u16_shorter read_exact_shorter)

text \<open>
  The loop runs until an error; every turn takes bytes from the stream, so on a finite
  input it ends.  \<open>send\<close> is the socket's \<open>send_to\<close>.  The result is the error that ended
  the loop and the datagrams handed to the socket, the last of which may have failed.
\<close>

function udp_copy ::
  "(string \<Rightarrow> u16 \<Rightarrow> crab_error + socket_addr list) \<Rightarrow> (bytes \<Rightarrow> socket_addr \<Rightarrow> crab_error + nat)
    \<Rightarrow> bytes \<Rightarrow> 'z stream_scheme \<Rightarrow> crab_error \<times> (bytes \<times> socket_addr) list" where
  "udp_copy lookup send buf s =
    (case udp_turn lookup buf s of
       (Inl e, _) \<Rightarrow> (e, [])
     | (Inr (None, buf'), t) \<Rightarrow> udp_copy lookup send buf' t
     | (Inr (Some (data, a), buf'), t) \<Rightarrow>
         (case send data a of
            Inl e \<Rightarrow> (e, [(data, a)])
          | Inr _ \<Rightarrow>
              (case udp_copy lookup send buf' t of (e, ds) \<Rightarrow> (e, (data, a) # ds))))"
  by pat_completeness auto
termination
  by (relation "measure (\<lambda>(_, _, _, s). length (rx s))") (auto dest: udp_turn_shorter[OF sym])

declare udp_copy.simps [simp del]

section \<open>The copy loop from a socket to the stream\<close>

text \<open>
  \<open>read_packet\<close> of a socket is \<open>recv_from\<close> into the buffer, which cuts a longer datagram off.
  The list is what the socket delivers, each datagram with its sender, or the error that
  ends it; without one the loop goes on waiting (\<open>None\<close>).
\<close>

definition sock_read_packet ::
  "ext_error + socket_addr \<times> bytes \<Rightarrow> crab_error + address \<times> bytes" where
  "sock_read_packet received =
    (case received of
       Inl e \<Rightarrow> Inl (IO e)
     | Inr (from_addr, data) \<Rightarrow> Inr (SocketAddress from_addr, take UDP_FORWARD_MTU data))"

fun udp_copy_back ::
  "(string \<Rightarrow> u16 \<Rightarrow> crab_error + socket_addr list) \<Rightarrow> (ext_error + socket_addr \<times> bytes) list
    \<Rightarrow> 'z stream_scheme \<Rightarrow> crab_error option \<times> 'z stream_scheme" where
  "udp_copy_back lookup [] s = (None, s)"
| "udp_copy_back lookup (d # ds) s =
    (case sock_read_packet d of
       Inl e \<Rightarrow> (Some e, s)
     | Inr (address, data) \<Rightarrow>
         (case resolve lookup address of
            Inl _ \<Rightarrow> udp_copy_back lookup ds s
          | Inr addr \<Rightarrow>
              (case packet_send data addr s of
                 (Inl e, t) \<Rightarrow> (Some e, t)
               | (Inr _, t) \<Rightarrow> udp_copy_back lookup ds t)))"

section \<open>Lemmas on the header\<close>

lemma host_of_addr_length: "wf_addr a \<Longrightarrow> length (write_host (host_of_addr a)) \<in> {4, 16}"
  by (cases a) auto

text \<open>The header fits the 22 bytes the writer reserves for it.\<close>

lemma packet_header_length:
  "wf_addr a \<Longrightarrow> length (write_packet_header (packet_of_addr a)) \<in> {9, 21}"
  by (cases a) (auto simp: write_packet_header_def packet_of_addr_def wire_simps)

fun addr_tag :: "socket_addr \<Rightarrow> u8" where
  "addr_tag (SocketAddrV4 _ _) = 1"
| "addr_tag (SocketAddrV6 _ _ _ _) = 4"

text \<open>What the reader accepts for an address: the same fields, with the tag before the octets.\<close>

lemma read_tagged_addr:
  assumes "wf_addr a"
  shows "read_packet_header (be16 0 @ [frag, addr_tag a] @ write_host (host_of_addr a)
      @ be16 (addr_port a) @ rest) =
    Some (\<lparr>ph_rsv = 0, ph_frag = frag, ph_addr = host_of_addr a, ph_port = addr_port a\<rparr>, rest)"
  using assms
  by (cases a) (auto simp: read_packet_header_def read_octets_def wire_simps)

lemma read_host_octets:
  "read_host (a # r) = Some (h, r') \<Longrightarrow> a = 1 \<or> a = 3 \<or> a = 4"
  by (auto split: if_splits)

text \<open>What the writer emits is read with the first octet of the address as the tag.\<close>

lemma read_untagged_addr:
  assumes "wf_addr a" "hd (write_host (host_of_addr a)) \<notin> {1, 3, 4}"
  shows "read_packet_header (write_packet_header (packet_of_addr a) @ rest) = None"
proof -
  obtain x xs where x: "write_host (host_of_addr a) = x # xs"
    using assms(1) by (cases a) (auto simp: length_Suc_conv numeral_eq_Suc)
  with assms(2) have "x \<noteq> 1 \<and> x \<noteq> 3 \<and> x \<noteq> 4" by auto
  then show ?thesis
    by (simp add: read_packet_header_def write_packet_header_def packet_of_addr_def x wire_simps)
qed

lemma packet_len_mask:
  assumes "sz < 2 ^ 15"
  shows "unat (word_of_nat sz AND PACKET_LEN_MASK :: u16) = sz"
proof -
  have m: "PACKET_LEN_MASK = Bit_Operations.mask 15"
    by (simp add: PACKET_LEN_MASK_def OVER_PACKET_TAG_def mask_eq_exp_minus_1)
  show ?thesis
    using assms by (simp add: m unsigned_take_bit_eq unat_of_nat take_bit_nat_eq_self flip: take_bit_eq_mask)
qed

lemma read_packet_eval:
  assumes "rx s = be16 (word_of_nat sz) @ packet @ rest" "length packet = sz"
    and "0 < sz" "sz < 2 ^ 15" "sz \<le> length buf"
  shows "read_packet buf s =
    andthen (lift (packet_unpack packet)) (\<lambda>(header, position).
      andthen (lift (address_of_packet header)) (\<lambda>addr.
        ret (addr, drop position (packet @ drop sz buf), packet @ drop sz buf))) (s\<lparr>rx := rest\<rparr>)"
proof -
  have "unat (word_of_nat sz AND PACKET_LEN_MASK :: u16) = sz"
    using assms(4) by (rule packet_len_mask)
  moreover have "read_u16 s = (Inr (word_of_nat sz), s\<lparr>rx := packet @ rest\<rparr>)"
    using assms(1) by (simp add: read_u16_def wire_simps)
  moreover have "read_exact sz (s\<lparr>rx := packet @ rest\<rparr>) = (Inr packet, s\<lparr>rx := rest\<rparr>)"
    using assms(2) by (simp add: read_exact_def)
  ultimately show ?thesis
    using assms(2,3,5) by (simp add: read_packet_def Let_def andthen_def split: sum.splits prod.splits)
qed

section \<open>Lemmas on packets\<close>

lemma length_prefix:
  "[ucast (drop_bit 8 (word_of_nat n :: u32)), ucast (word_of_nat n :: u32)] = be16 (word_of_nat n)"
proof -
  have "ucast (drop_bit 8 (word_of_nat n :: u32)) = (ucast (drop_bit 8 (word_of_nat n :: u16)) :: u8)"
    by (rule bit_word_eqI) (auto simp: bit_simps)
  moreover have "ucast (word_of_nat n :: u32) = (ucast (word_of_nat n :: u16) :: u8)"
    by (rule bit_word_eqI) (auto simp: bit_simps)
  ultimately show ?thesis by (simp add: be16_def)
qed

lemma packet_send_up:
  assumes "tx_cap s = None" "hdr = write_packet_header (packet_of_addr a)"
  shows "packet_send buf a s =
    (Inr (length buf), s\<lparr>tx := tx s @ be16 (word_of_nat (length hdr + length buf)) @ hdr @ buf\<rparr>)"
proof -
  have t: "(word_of_nat (length buf) :: u32) + word_of_nat (length hdr) = word_of_nat (length hdr + length buf)"
    by simp
  show ?thesis
    unfolding packet_send_def Let_def assms(2)[symmetric] t length_prefix
    using assms(1) by (simp add: andthen_def write_all_up)
qed

text \<open>The bytes of one packet, and of the packets of a sequence of datagrams.\<close>

definition packet_bytes :: "bytes \<Rightarrow> socket_addr \<Rightarrow> bytes" where
  "packet_bytes buf addr =
    (let hdr = write_packet_header (packet_of_addr addr)
     in be16 (word_of_nat (length hdr + length buf)) @ hdr @ buf)"

lemma udp_copy_back_up:
  "tx_cap s = None \<Longrightarrow> udp_copy_back lookup (map Inr ds) s =
     (None, s\<lparr>tx := tx s @ concat (map (\<lambda>(a, d). packet_bytes (take UDP_FORWARD_MTU d) a) ds)\<rparr>)"
  by (induction ds arbitrary: s)
    (auto simp: sock_read_packet_def resolve_def packet_send_up[OF _ refl] packet_bytes_def Let_def)

lemma read_packet_too_large:
  assumes "rx s = be16 (word_of_nat sz) @ rest" "length buf < sz" "sz < 2 ^ 15"
  shows "read_packet buf s = (Inl (ErrorCode NO_ENOUGH_SPACE), s\<lparr>rx := rest\<rparr>)"
proof -
  have "unat (word_of_nat sz AND PACKET_LEN_MASK :: u16) = sz"
    using assms(3) by (rule packet_len_mask)
  then show ?thesis
    using assms(1,2) by (simp add: read_packet_def read_u16_def wire_simps andthen_def)
qed

lemma udp_turn_facts:
  assumes "udp_turn lookup buf s = (Inr (x, buf'), t)"
  shows "length buf' = length buf \<and> length (rx t) + 2 \<le> length (rx s) \<and>
    (\<forall>d a. x = Some (d, a) \<longrightarrow> length d \<le> length buf)"
  using assms
  by (auto simp: udp_turn_def read_packet_def Let_def andthen_def read_u16_def read_exact_def
      split: prod.splits sum.splits if_splits option.splits dest!: be16.dec_length)

section \<open>Properties\<close>

text \<open>
  A packet handed to the socket is as long as the buffer allows.  For a well-formed
  packet on the stream, \<open>read_packet\<close> returns the right address, but the data it returns
  is the payload followed by whatever the buffer held after the packet: all of the buffer
  behind the header, not only the payload.
\<close>

lemma read_packet_trailing:
  assumes "wf_addr a" "a = SocketAddrV4 o4 port \<or> a = SocketAddrV6 o16 port 0 0"
    and "packet = be16 0 @ [frag, addr_tag a] @ write_host (host_of_addr a) @ be16 port @ payload"
    and "length packet < 2 ^ 15" "length packet \<le> length buf"
    and "rx s = be16 (word_of_nat (length packet)) @ packet @ rest"
  shows "read_packet buf s =
    (Inr (SocketAddress a, payload @ drop (length packet) buf, packet @ drop (length packet) buf), s\<lparr>rx := rest\<rparr>)"
proof -
  have port: "addr_port a = port" using assms(2) by auto
  have hd: "read_packet_header packet =
      Some (\<lparr>ph_rsv = 0, ph_frag = frag, ph_addr = host_of_addr a, ph_port = port\<rparr>, payload)"
    using read_tagged_addr[OF assms(1), of frag payload] assms(3) port by simp
  let ?p = "be16 0 @ [frag, addr_tag a] @ write_host (host_of_addr a) @ be16 port"
  have p: "packet = ?p @ payload" using assms(3) by simp
  have "length packet - length payload = length ?p" by (simp add: p)
  then have "packet_unpack packet =
      Inr (\<lparr>ph_rsv = 0, ph_frag = frag, ph_addr = host_of_addr a, ph_port = port\<rparr>, length ?p)"
    by (simp add: packet_unpack_def hd)
  moreover have "drop (length ?p) (packet @ drop (length packet) buf) = payload @ drop (length packet) buf"
    by (subst p) simp
  moreover have "address_of_packet \<lparr>ph_rsv = 0, ph_frag = frag, ph_addr = host_of_addr a, ph_port = port\<rparr> =
      Inr (SocketAddress a)"
    using assms(2) by (auto simp: address_of_packet_def)
  moreover have "0 < length packet" by (simp add: p)
  ultimately show ?thesis
    using read_packet_eval[OF assms(6) refl _ assms(4,5)] by simp
qed

lemma read_packet_trailing_witness:
  "read_packet [9, 9, 9, 9, 9, 9, 9, 9, 9, 9, 9, 9] (stream_of (be16 11 @ [0, 0, 0, 1, 10, 0, 0, 1, 0, 53, 77])) =
    (Inr (SocketAddress (SocketAddrV4 [10, 0, 0, 1] 53), [77, 9], [0, 0, 0, 1, 10, 0, 0, 1, 0, 53, 77, 9]),
     stream_of [])"
  using read_packet_trailing[of "SocketAddrV4 [10, 0, 0, 1] 53" "[10, 0, 0, 1]" 53 "[]"
      "[0, 0, 0, 1, 10, 0, 0, 1, 0, 53, 77]" 0 "[77]" "[9, 9, 9, 9, 9, 9, 9, 9, 9, 9, 9, 9]"
      "stream_of (be16 11 @ [0, 0, 0, 1, 10, 0, 0, 1, 0, 53, 77])" "[]"]
  by (simp add: be16_def stream_of_def)

text \<open>
  The two ends of a UDP tunnel do not agree on the header.  What \<open>send_to\<close> writes for a
  datagram from an address whose first octet is none of the three tags, any reader rejects
  with \<open>BAD_MESSAGE_HEADER\<close>: the writer puts no tag before the address.
\<close>

lemma packet_header_mismatch:
  assumes "wf_addr a" "hd (write_host (host_of_addr a)) \<notin> {1, 3, 4}" "tx_cap s = None" "tx s = []"
    and "packet_send payload a s = (r, s')"
    and "length payload + 21 < 2 ^ 15" "length payload + 21 \<le> length buf" "rx t = tx s' @ rest"
  shows "r = Inr (length payload) \<and> read_packet buf t = (Inl (ErrorCode BAD_MESSAGE_HEADER), t\<lparr>rx := rest\<rparr>)"
proof -
  let ?h = "write_packet_header (packet_of_addr a)"
  have len: "length ?h \<in> {9, 21}" by (rule packet_header_length[OF assms(1)])
  have s': "r = Inr (length payload)" "tx s' = be16 (word_of_nat (length (?h @ payload))) @ ?h @ payload"
    using assms(5) packet_send_up[OF assms(3) refl, of payload a] assms(4) by auto
  have "packet_unpack (?h @ payload) = Inl (ErrorCode BAD_MESSAGE_HEADER)"
    by (simp add: packet_unpack_def read_untagged_addr[OF assms(1,2)])
  moreover have "rx t = be16 (word_of_nat (length (?h @ payload))) @ (?h @ payload) @ rest"
    using assms(8) s'(2) by simp
  moreover have "0 < length (?h @ payload)" "length (?h @ payload) < 2 ^ 15" "length (?h @ payload) \<le> length buf"
    using len assms(6,7) by auto
  ultimately show ?thesis
    using read_packet_eval[of t "length (?h @ payload)" "?h @ payload" rest buf] s'(1) by simp
qed

lemma packet_header_mismatch_witness:
  "fst (packet_send [77] (SocketAddrV4 [10, 0, 0, 1] 53) (stream_of [])) = Inr (length [77 :: u8]) \<and>
   read_packet (replicate 22 0) (stream_of (tx (snd (packet_send [77] (SocketAddrV4 [10, 0, 0, 1] 53) (stream_of []))))) =
     (Inl (ErrorCode BAD_MESSAGE_HEADER), stream_of [])"
  using packet_header_mismatch[of "SocketAddrV4 [10, 0, 0, 1] 53" "stream_of []" "[77]"
      "fst (packet_send [77] (SocketAddrV4 [10, 0, 0, 1] 53) (stream_of []))"
      "snd (packet_send [77] (SocketAddrV4 [10, 0, 0, 1] 53) (stream_of []))" "replicate 22 0"
      "stream_of (tx (snd (packet_send [77] (SocketAddrV4 [10, 0, 0, 1] 53) (stream_of []))))" "[]"]
  by (simp add: stream_of_def)

text \<open>
  A datagram that fills the buffer on one end ends the tunnel on the other.  The header
  is added to the datagram but the receiving buffer has the same size: \<open>send_to\<close> accepts
  it, and the reader fails with \<open>NO_ENOUGH_SPACE\<close> and leaves header and payload unread.
\<close>

lemma packet_over_mtu:
  assumes "wf_addr a" "UDP_FORWARD_MTU - 9 < length payload" "length payload \<le> UDP_FORWARD_MTU"
    and "tx_cap s = None" "tx s = []" "packet_send payload a s = (r, s')"
    and "length buf = UDP_FORWARD_MTU" "rx t = tx s' @ rest"
  shows "r = Inr (length payload) \<and>
    read_packet buf t = (Inl (ErrorCode NO_ENOUGH_SPACE), t\<lparr>rx := drop 2 (rx t)\<rparr>)"
proof -
  let ?h = "write_packet_header (packet_of_addr a)"
  have len: "length ?h \<in> {9, 21}" by (rule packet_header_length[OF assms(1)])
  have s': "r = Inr (length payload)" "tx s' = be16 (word_of_nat (length ?h + length payload)) @ ?h @ payload"
    using assms(6) packet_send_up[OF assms(4) refl, of payload a] assms(5) by auto
  have "rx t = be16 (word_of_nat (length ?h + length payload)) @ ?h @ payload @ rest"
    using assms(8) s'(2) by simp
  then have "read_packet buf t = (Inl (ErrorCode NO_ENOUGH_SPACE), t\<lparr>rx := ?h @ payload @ rest\<rparr>)"
    by (rule read_packet_too_large) (use len assms(2,3,7) in \<open>auto simp: UDP_FORWARD_MTU_def\<close>)
  moreover have "drop 2 (rx t) = ?h @ payload @ rest"
    unfolding assms(8) s'(2) by (simp only: append_assoc be16.drop_enc)
  ultimately show ?thesis using s'(1) by simp
qed

lemma packet_over_mtu_witness:
  "fst (packet_send (replicate 1500 0) (SocketAddrV4 [1, 0, 0, 1] 53) (stream_of [])) =
     Inr (length (replicate 1500 (0 :: u8))) \<and>
   fst (read_packet (replicate UDP_FORWARD_MTU 0)
     (stream_of (tx (snd (packet_send (replicate 1500 0) (SocketAddrV4 [1, 0, 0, 1] 53) (stream_of [])))))) =
     Inl (ErrorCode NO_ENOUGH_SPACE)"
  using packet_over_mtu[of "SocketAddrV4 [1, 0, 0, 1] 53" "replicate 1500 0" "stream_of []"
      "fst (packet_send (replicate 1500 0) (SocketAddrV4 [1, 0, 0, 1] 53) (stream_of []))"
      "snd (packet_send (replicate 1500 0) (SocketAddrV4 [1, 0, 0, 1] 53) (stream_of []))"
      "replicate UDP_FORWARD_MTU 0"
      "stream_of (tx (snd (packet_send (replicate 1500 0) (SocketAddrV4 [1, 0, 0, 1] 53) (stream_of []))))" "[]"]
  by (simp add: UDP_FORWARD_MTU_def del: replicate_Suc)

text \<open>
  The copy loop from the stream to the socket ends on every finite input and is bounded
  by it: it sends at most one datagram for each two bytes read, and none is longer than
  the buffer.
\<close>

lemma udp_copy_bounded:
  "2 * length (snd (udp_copy lookup send buf s)) \<le> length (rx s) \<and>
   list_all (\<lambda>(d, a). length d \<le> length buf) (snd (udp_copy lookup send buf s))"
proof (induction lookup send buf s rule: udp_copy.induct)
  case (1 lookup send buf s)
  obtain r t where turn: "udp_turn lookup buf s = (r, t)" by (cases "udp_turn lookup buf s")
  show ?case
  proof (cases r)
    case (Inl e)
    with turn show ?thesis by (simp add: udp_copy.simps[of lookup send buf s])
  next
    case (Inr y)
    obtain x buf' where y: "y = (x, buf')" by (cases y)
    note facts = udp_turn_facts[OF turn[unfolded Inr y]]
    show ?thesis
    proof (cases x)
      case None
      with 1(1)[OF turn[symmetric] Inr] turn Inr y facts show ?thesis
        by (auto simp: udp_copy.simps[of lookup send buf s])
    next
      case (Some da)
      obtain d a where da: "da = (d, a)" by (cases da)
      have IH: "2 * length (snd (udp_copy lookup send buf' t)) \<le> length (rx t) \<and>
          list_all (\<lambda>(d, a). length d \<le> length buf) (snd (udp_copy lookup send buf' t))"
        if "send d a = Inr n" for n
        using 1(2)[OF turn[symmetric] Inr] y Some da that facts by auto
      with turn Inr y Some da facts show ?thesis
        by (cases "send d a"; cases "udp_copy lookup send buf' t")
          (auto simp: udp_copy.simps[of lookup send buf s])
    qed
  qed
qed

section \<open>What a peer sends\<close>

text \<open>
  A packet as its sender means it, and its bytes in the format of a SOCKS5 datagram (RFC
  1928): two reserved bytes, the fragment, the type of the address, the address, the port
  and the data; on the stream the length goes before it.
\<close>

record udp_packet =
  uk_frag :: u8
  uk_host :: package_host
  uk_port :: u16
  uk_data :: bytes

fun tagged_host :: "package_host \<Rightarrow> bytes" where
  "tagged_host (Host_Ipv4 o4) = 1 # o4"
| "tagged_host (Host_Ipv6 o16) = 4 # o16"
| "tagged_host (Host_Domain d) = 3 # word_of_nat (length d) # d"

fun host_ok :: "package_host \<Rightarrow> bool" where
  "host_ok (Host_Ipv4 o4) \<longleftrightarrow> length o4 = 4"
| "host_ok (Host_Ipv6 o16) \<longleftrightarrow> length o16 = 16"
| "host_ok (Host_Domain d) \<longleftrightarrow> length d < 256 \<and> valid_utf8 d"

definition packet_form :: "udp_packet \<Rightarrow> bytes" where
  "packet_form p =
    [0, 0, uk_frag p] @ tagged_host (uk_host p) @
    [ucast (drop_bit 8 (uk_port p)), ucast (uk_port p)] @ uk_data p"

definition on_wire :: "udp_packet \<Rightarrow> bytes" where
  "on_wire p =
    (let n = length (packet_form p) in [word_of_nat (n div 256), word_of_nat n] @ packet_form p)"

definition packet_target :: "udp_packet \<Rightarrow> address" where
  "packet_target p =
    (case uk_host p of
       Host_Ipv4 o4 \<Rightarrow> SocketAddress (SocketAddrV4 o4 (uk_port p))
     | Host_Ipv6 o16 \<Rightarrow> SocketAddress (SocketAddrV6 o16 (uk_port p) 0 0)
     | Host_Domain d \<Rightarrow> DomainAddress (map (\<lambda>b. char_of (unat b)) d) (uk_port p))"

definition packet_fits :: "nat \<Rightarrow> udp_packet \<Rightarrow> bool" where
  "packet_fits room p \<longleftrightarrow>
    host_ok (uk_host p) \<and> length (packet_form p) < 2 ^ 15 \<and> length (packet_form p) \<le> room"

text \<open>
  The datagrams that come of them: one for each packet whose target resolves, with its data
  and, behind it, what the buffer has held there before.
\<close>

definition packet_data :: "bytes \<Rightarrow> udp_packet \<Rightarrow> bytes" where
  "packet_data buf p = uk_data p @ drop (length (packet_form p)) buf"

fun sent_datagrams ::
  "(string \<Rightarrow> u16 \<Rightarrow> crab_error + socket_addr list) \<Rightarrow> bytes \<Rightarrow> udp_packet list \<Rightarrow> (bytes \<times> socket_addr) list" where
  "sent_datagrams lookup buf [] = []"
| "sent_datagrams lookup buf (p # ps) =
    (case resolve lookup (packet_target p) of Inl _ \<Rightarrow> [] | Inr a \<Rightarrow> [(packet_data buf p, a)]) @
    sent_datagrams lookup (packet_form p @ drop (length (packet_form p)) buf) ps"

lemma read_tagged_host:
  assumes "host_ok h"
  shows "read_host (tagged_host h @ r) = Some (h, r)"
proof (cases h)
  case (Host_Domain d)
  with assms have "unat (word_of_nat (length d) :: u8) = length d" by (simp add: unat_of_nat take_bit_nat_eq_self)
  with Host_Domain show ?thesis by (simp add: read_octets_def)
qed (use assms in \<open>simp_all add: read_octets_def\<close>)

lemma unpack_packet:
  assumes "host_ok (uk_host p)"
  shows "packet_unpack (packet_form p) =
    Inr (\<lparr>ph_rsv = 0, ph_frag = uk_frag p, ph_addr = uk_host p, ph_port = uk_port p\<rparr>,
      length (packet_form p) - length (uk_data p))"
proof -
  have port: "of_be16 (ucast (drop_bit 8 w) # ucast w # r) = Some (w, r)" for w :: u16 and r
    using be16.dec_enc[of w r] by (simp add: be16_def)
  have zero: "of_be16 (0 # 0 # r) = Some (0, r)" for r using port[of 0 r] by (simp del: of_be16.simps)
  show ?thesis
    by (simp add: packet_unpack_def packet_form_def read_packet_header_def zero port
        read_tagged_host[OF assms, of "ucast (drop_bit 8 (uk_port p)) # ucast (uk_port p) # uk_data p"]
        del: of_be16.simps)
qed

lemma length_bytes: "[word_of_nat (n div 256), word_of_nat n] = be16 (word_of_nat n)"
proof -
  have n: "n div 256 = drop_bit 8 n" by (simp add: drop_bit_eq_div)
  have "(ucast (drop_bit 8 (word_of_nat n :: u16)) :: u8) = word_of_nat (n div 256)"
    unfolding n by (rule bit_word_eqI) (auto simp: bit_simps)
  moreover have "(ucast (word_of_nat n :: u16) :: u8) = word_of_nat n"
    by (rule bit_word_eqI) (auto simp: bit_simps)
  ultimately show ?thesis by (simp add: be16_def)
qed

lemma read_packet_on_wire:
  assumes "packet_fits (length buf) p" "rx s = on_wire p @ rest"
  shows "read_packet buf s =
    (Inr (packet_target p, packet_data buf p, packet_form p @ drop (length (packet_form p)) buf), s\<lparr>rx := rest\<rparr>)"
proof -
  from assms(1) have fits: "host_ok (uk_host p)" "length (packet_form p) < 2 ^ 15" "length (packet_form p) \<le> length buf"
    by (simp_all add: packet_fits_def)
  have "rx s = be16 (word_of_nat (length (packet_form p))) @ packet_form p @ rest"
    using assms(2) unfolding on_wire_def Let_def length_bytes by simp
  moreover have "0 < length (packet_form p)" by (simp add: packet_form_def)
  moreover have "drop (length (packet_form p) - length (uk_data p)) (packet_form p @ bs) = uk_data p @ bs" for bs
  proof -
    obtain h where h: "packet_form p = h @ uk_data p" by (metis packet_form_def append.assoc)
    show ?thesis by (simp add: h)
  qed
  moreover have "address_of_packet \<lparr>ph_rsv = 0, ph_frag = uk_frag p, ph_addr = uk_host p, ph_port = uk_port p\<rparr> =
      Inr (packet_target p)"
    using fits(1)
    by (cases "uk_host p") (simp_all add: address_of_packet_def packet_target_def string_from_utf8_def)
  ultimately show ?thesis
    using read_packet_eval[of s "length (packet_form p)" "packet_form p" rest buf] fits
    by (simp add: unpack_packet packet_data_def)
qed

text \<open>
  C38: the UDP tunnel sends each packet where its sender meant it to go.  Let the peer send any
  packets in the SOCKS5 format, each of which fits the buffer, with IPv4, IPv6 and domain
  targets in any order, and let the socket take every datagram.  Then the copy loop sends,
  in the order of the packets, exactly one datagram for each packet whose target resolves, to
  the first address it resolves to, and skips the others; it takes the packets apart as they
  were meant, none swallowing bytes of the next; and it ends with the error of the stream.
  The datagram is the data of the packet followed by what the buffer held behind it.
\<close>

theorem udp_packets_delivered:
  assumes "list_all (packet_fits (length buf)) ps" "rx s = concat (map on_wire ps)"
    and "\<forall>d a. \<exists>n. send d a = Inr n"
  shows "udp_copy lookup send buf s = (IO (rx_err s), sent_datagrams lookup buf ps)"
  using assms(1,2)
proof (induction ps arbitrary: buf s)
  case Nil
  then have "of_be16 (rx s) = None" using be16.dec_sound[of "rx s"] by (cases "of_be16 (rx s)") (auto simp: be16_def)
  then show ?case by (simp add: udp_copy.simps[of lookup send buf s] udp_turn_def read_packet_def andthen_def read_u16_def)
next
  case (Cons p ps)
  let ?b = "packet_form p @ drop (length (packet_form p)) buf" and ?t = "s\<lparr>rx := concat (map on_wire ps)\<rparr>"
  from Cons.prems have fits: "packet_fits (length buf) p" and len: "length ?b = length buf"
    by (simp_all add: packet_fits_def)
  have IH: "udp_copy lookup send ?b ?t = (IO (rx_err s), sent_datagrams lookup ?b ps)"
    using Cons.IH[of ?b ?t] Cons.prems(1) len by simp
  have turn: "udp_turn lookup buf s =
      (Inr (case resolve lookup (packet_target p) of Inl _ \<Rightarrow> None | Inr a \<Rightarrow> Some (packet_data buf p, a), ?b), ?t)"
    using read_packet_on_wire[OF fits, of s "concat (map on_wire ps)"] Cons.prems(2)
    by (simp add: udp_turn_def andthen_def split: sum.split)
  obtain n where "send (packet_data buf p) a = Inr (n a)" for a using assms(3) by metis
  with turn IH show ?case
    by (simp add: udp_copy.simps[of lookup send buf s] split: sum.split)
qed

theorem udp_packets_delivered_witness:
  "udp_copy (\<lambda>host port. if host = ''hi'' then Inr [SocketAddrV4 [10, 0, 0, 1] port] else Inr [])
      (\<lambda>d _. Inr (length d)) [9, 9, 9, 9, 9, 9, 9, 9, 9, 9, 9, 9]
      (stream_of ([0, 10, 0, 0, 0, 3, 2, 104, 105, 1, 0, 7] @ [0, 11, 0, 0, 0, 3, 2, 104, 104, 0, 53, 7, 7] @
        [0, 12, 0, 0, 0, 1, 127, 0, 0, 1, 0, 53, 5, 6])) =
    (IO [], [([7, 9, 9], SocketAddrV4 [10, 0, 0, 1] 256), ([5, 6], SocketAddrV4 [127, 0, 0, 1] 53)])"
proof -
  let ?ps = "[\<lparr>uk_frag = 0, uk_host = Host_Domain [104, 105], uk_port = 256, uk_data = [7]\<rparr>,
    \<lparr>uk_frag = 0, uk_host = Host_Domain [104, 104], uk_port = 53, uk_data = [7, 7]\<rparr>,
    \<lparr>uk_frag = 0, uk_host = Host_Ipv4 [127, 0, 0, 1], uk_port = 53, uk_data = [5, 6]\<rparr>]"
  have "udp_copy (\<lambda>host port. if host = ''hi'' then Inr [SocketAddrV4 [10, 0, 0, 1] port] else Inr [])
      (\<lambda>d _. Inr (length d)) [9, 9, 9, 9, 9, 9, 9, 9, 9, 9, 9, 9] (stream_of (concat (map on_wire ?ps))) =
    (IO (rx_err (stream_of (concat (map on_wire ?ps)))),
     sent_datagrams (\<lambda>host port. if host = ''hi'' then Inr [SocketAddrV4 [10, 0, 0, 1] port] else Inr []) [9, 9, 9, 9, 9, 9, 9, 9, 9, 9, 9, 9] ?ps)"
    by (rule udp_packets_delivered) (simp_all add: packet_fits_def packet_form_def stream_of_def)
  moreover have "concat (map on_wire ?ps) = [0, 10, 0, 0, 0, 3, 2, 104, 105, 1, 0, 7] @
      [0, 11, 0, 0, 0, 3, 2, 104, 104, 0, 53, 7, 7] @ [0, 12, 0, 0, 0, 1, 127, 0, 0, 1, 0, 53, 5, 6]"
    by (simp add: on_wire_def packet_form_def Let_def)
  ultimately show ?thesis
    by (simp add: packet_form_def packet_target_def packet_data_def resolve_def stream_of_def char_of_def bit_0)
qed

end
