(* ===== verification/Crab_Forward.thy ===== *)
theory Crab_Forward
  imports Crab_Tasks Crab_Packet
begin

text \<open>
  \<^verbatim>\<open>src/src/app/protocol/forwarder/tcp.rs\<close>, \<^verbatim>\<open>tcp_util.rs\<close> and the handler of
  \<^verbatim>\<open>udp.rs\<close>: the node's side of a forwarded TCP connection and of a UDP association.

  A TCP connection is a \<open>stream\<close> like a QUIC stream: bytes to come, bytes written.  What the
  system answers to connecting, to the socket options and to binding is a parameter.
\<close>

section \<open>Keepalive and connecting\<close>

record keepalive =
  ka_time :: u64
  ka_interval :: u64
  ka_retries :: u32

definition keepalive_of :: "tcp_forward_params \<Rightarrow> keepalive" where
  "keepalive_of p = \<lparr>ka_time = ucast (tf_keepalive_timeout p),
     ka_interval = ucast (tf_keepalive_interval p), ka_retries = ucast (tf_keepalive_retries p)\<rparr>"

datatype connect_result = Connect_timeout | Connect_failed ext_error | Connect_ok stream

record tcp_net =
  tn_connect :: "u8 \<Rightarrow> socket_addr \<Rightarrow> connect_result"
  tn_keepalive :: "keepalive \<Rightarrow> ext_error option"
  tn_nodelay :: "ext_error option"
  tn_local :: "ext_error + socket_addr"

type_synonym lookup_fn = "string \<Rightarrow> u16 \<Rightarrow> crab_error + socket_addr list"

definition tcp_connect ::
  "lookup_fn \<Rightarrow> tcp_net \<Rightarrow> tcp_forward_params \<Rightarrow> crab_error + stream \<times> socket_addr" where
  "tcp_connect lookup net req =
    (case resolve lookup (tf_target_address req) of
       Inl e \<Rightarrow> Inl e
     | Inr addr \<Rightarrow>
         (case tn_connect net (tf_connect_timeout req) addr of
            Connect_timeout \<Rightarrow> Inl (ErrorCode TIMEOUT_ERROR)
          | Connect_failed e \<Rightarrow> Inl (IO e)
          | Connect_ok sock \<Rightarrow>
              (case tn_keepalive net (keepalive_of req) of
                 Some e \<Rightarrow> Inl (IO e)
               | None \<Rightarrow>
                   (case tn_nodelay net of
                      Some e \<Rightarrow> Inl (IO e)
                    | None \<Rightarrow>
                        (case tn_local net of
                           Inl e \<Rightarrow> Inl (IO e)
                         | Inr local_addr \<Rightarrow> Inr (sock, local_addr))))))"

section \<open>The relay\<close>

text \<open>
  \<open>copy_into n src dst\<close>: the copy of the first \<open>n\<close> bytes that \<open>src\<close> still has to give into
  \<open>dst\<close>; \<open>tcp_forward\<close> runs one copy in each direction at the same time.  \<open>cutoff\<close> is \<open>None\<close>
  when both run to their end, or the bytes each had relayed when the token fired.  Errors
  of the copies are only logged.
\<close>

definition copy_into ::
  "nat \<Rightarrow> 'a stream_scheme \<Rightarrow> 'b stream_scheme \<Rightarrow> 'a stream_scheme \<times> 'b stream_scheme" where
  "copy_into n src dst =
    (src\<lparr>rx := drop n (rx src)\<rparr>, snd (copy_to_stream (take n (rx src)) dst))"

definition tcp_forward ::
  "(nat \<times> nat) option \<Rightarrow> 'a stream_scheme \<times> 'b stream_scheme
    \<Rightarrow> (crab_error + unit) \<times> 'a stream_scheme \<times> 'b stream_scheme" where
  "tcp_forward cutoff = (\<lambda>(quic, tcp).
    let (n, m) = (case cutoff of None \<Rightarrow> (length (rx quic), length (rx tcp)) | Some nm \<Rightarrow> nm);
        (quic1, tcp1) = copy_into n quic tcp;
        (tcp2, quic2) = copy_into m tcp1 quic1
    in (Inr (), quic2, tcp2))"

text \<open>The handler; its second state component is the connection to the target, once made.\<close>

definition tcp_forward_handle ::
  "ack_message codec \<Rightarrow> socket_addr codec \<Rightarrow> lookup_fn \<Rightarrow> tcp_net \<Rightarrow> (nat \<times> nat) option
    \<Rightarrow> tcp_forward_params \<Rightarrow> message_header \<Rightarrow> 'z stream_scheme
    \<Rightarrow> (crab_error + unit) \<times> 'z stream_scheme \<times> stream option" where
  "tcp_forward_handle ac sc lookup net cutoff req h s =
    (case write_message ac (mh_method h) (mh_option h) ack_success s of
       (Inl e, s1) \<Rightarrow> (Inl e, s1, None)
     | (Inr _, s1) \<Rightarrow>
         (case tcp_connect lookup net req of
            Inl e \<Rightarrow>
              (case write_error ac (mh_method h) (mh_option h) e s1 of
                 (Inl e', s2) \<Rightarrow> (Inl e', s2, None)
               | (Inr _, s2) \<Rightarrow> (Inl e, s2, None))
          | Inr (sock, addr) \<Rightarrow>
              (case andthen (write_message sc (mh_method h) (mh_option h) addr) (\<lambda>_. read_ack ac) s1 of
                 (Inl e, s2) \<Rightarrow> (Inl e, s2, Some sock)
               | (Inr _, s2) \<Rightarrow>
                   (case tcp_forward cutoff (s2, sock) of (r, s3, sock') \<Rightarrow> (r, s3, Some sock')))))"

section \<open>UDP association\<close>

definition v6_unspecified :: socket_addr where
  "v6_unspecified = SocketAddrV6 (replicate 16 0) 0 0 0"

definition v4_unspecified :: socket_addr where
  "v4_unspecified = SocketAddrV4 (replicate 4 0) 0"

text \<open>\<open>bind\<close> yields the local address of the socket (\<open>local_addr\<close> of a bound socket).\<close>

definition prepare_socket ::
  "(socket_addr \<Rightarrow> ext_error + socket_addr) \<Rightarrow> socket_addr option \<Rightarrow> crab_error + socket_addr" where
  "prepare_socket bind via =
    (case via of
       Some addr \<Rightarrow> map_error IO (bind addr)
     | None \<Rightarrow>
         (case bind v6_unspecified of
            Inr a \<Rightarrow> Inr a
          | Inl _ \<Rightarrow> map_error IO (bind v4_unspecified)))"

text \<open>\<open>relay\<close> is \<open>copy_udp_stream\<close> on the stream and the bound socket.\<close>

definition udp_forward_handle ::
  "ack_message codec \<Rightarrow> socket_addr codec \<Rightarrow> (socket_addr \<Rightarrow> ext_error + socket_addr)
    \<Rightarrow> ('z, unit) sprog \<Rightarrow> socket_addr option \<Rightarrow> message_header \<Rightarrow> ('z, unit) sprog" where
  "udp_forward_handle ac sc bind relay via h =
    andthen (write_message ac (mh_method h) (mh_option h) ack_success) (\<lambda>_.
    andthen
      (case prepare_socket bind via of
         Inr local_addr \<Rightarrow> write_message sc (mh_method h) (mh_option h) local_addr
       | Inl err \<Rightarrow>
           andthen (write_error ac (mh_method h) (mh_option h) err) (\<lambda>_. throw err)) (\<lambda>_.
    andthen (read_ack ac) (\<lambda>_. relay)))"

text \<open>
  \<open>copy_udp_stream\<close>: both loops run until one fails.  \<open>back\<close> is what the socket delivers
  meanwhile; if it fails first, that is the result, otherwise the loop from the stream to
  the socket is the one that fails, unless the token fires before.
\<close>

definition udp_relay ::
  "lookup_fn \<Rightarrow> (bytes \<Rightarrow> socket_addr \<Rightarrow> crab_error + nat) \<Rightarrow> (ext_error + socket_addr \<times> bytes) list \<Rightarrow> bool
    \<Rightarrow> ('z, unit) sprog" where
  "udp_relay lookup send back fires s =
    (case udp_copy_back lookup back s of
       (err, t) \<Rightarrow>
         if fires then (Inl (ErrorCode CANCELED_ERROR), t)
         else
           (case err of
              Some e \<Rightarrow> (Inl e, t)
            | None \<Rightarrow> (Inl (fst (udp_copy lookup send (replicate UDP_FORWARD_MTU 0) s)), t\<lparr>rx := []\<rparr>)))"

section \<open>Lemmas\<close>

lemma tcp_forward_ok: "fst (tcp_forward cutoff qt) = Inr ()"
  by (cases qt) (auto simp: tcp_forward_def Let_def split: prod.splits option.splits)

lemma tcp_forward_up:
  assumes "tx_cap q = None" "tx_cap t = None"
  shows "tcp_forward None (q, t) = (Inr (), q\<lparr>rx := [], tx := tx q @ rx t\<rparr>, t\<lparr>rx := [], tx := tx t @ rx q\<rparr>)"
  using assms by (simp add: tcp_forward_def copy_into_def copy_to_stream_up)

text \<open>What is relayed is a prefix of what there was to relay, in each direction.\<close>

lemma copy_into_prefix:
  "copy_into n src dst = (src', dst') \<Longrightarrow>
     \<exists>k. tx dst' = tx dst @ take k (rx src) \<and> rx src' = drop n (rx src) \<and> rx dst' = rx dst"
  unfolding copy_into_def copy_to_stream_def
  using write_bytes_prefix[of IO "take n (rx src)" dst] by (auto simp: prod_eq_iff min_def)

section \<open>Properties\<close>

text \<open>
  A forwarded TCP connection is transparent.  While both connections are up the relay
  delivers to each side exactly the bytes the other side sent, all of them and in order;
  whenever it is cut off or a side fails, each side has got a prefix of them; and it never
  ends with an error.
\<close>

lemma tcp_relay:
  "(tx_cap q = None \<and> tx_cap t = None \<longrightarrow>
     tcp_forward None (q, t) = (Inr (), q\<lparr>rx := [], tx := tx q @ rx t\<rparr>, t\<lparr>rx := [], tx := tx t @ rx q\<rparr>)) \<and>
   (case tcp_forward cutoff (q, t) of
      (r, q', t') \<Rightarrow> r = Inr () \<and> (\<exists>i. tx t' = tx t @ take i (rx q)) \<and> (\<exists>j. tx q' = tx q @ take j (rx t)))"
proof
  show "tx_cap q = None \<and> tx_cap t = None \<longrightarrow>
     tcp_forward None (q, t) = (Inr (), q\<lparr>rx := [], tx := tx q @ rx t\<rparr>, t\<lparr>rx := [], tx := tx t @ rx q\<rparr>)"
    by (simp add: tcp_forward_up)
  obtain n m where nm: "(case cutoff of None \<Rightarrow> (length (rx q), length (rx t)) | Some nm \<Rightarrow> nm) = (n, m)"
    by fastforce
  obtain q1 t1 where 1: "copy_into n q t = (q1, t1)" by (cases "copy_into n q t")
  obtain t2 q2 where 2: "copy_into m t1 q1 = (t2, q2)" by (cases "copy_into m t1 q1")
  from copy_into_prefix[OF 1] obtain i where i: "tx t1 = tx t @ take i (rx q)" "rx t1 = rx t" by auto
  from copy_into_prefix[OF 2] obtain j where j: "tx q2 = tx q1 @ take j (rx t1)" by auto
  have "tx q1 = tx q" "tx t2 = tx t1" using 1 2 by (auto simp: copy_into_def)
  with i j nm 1 2 show "case tcp_forward cutoff (q, t) of
      (r, q', t') \<Rightarrow> r = Inr () \<and> (\<exists>i. tx t' = tx t @ take i (rx q)) \<and> (\<exists>j. tx q' = tx q @ take j (rx t))"
    by (auto simp: tcp_forward_def)
qed

lemma tcp_relay_witness:
  "tcp_forward None (stream_of [1, 2], stream_of [3]) =
     (Inr (), (stream_of [])\<lparr>tx := [3]\<rparr>, (stream_of [])\<lparr>tx := [1, 2]\<rparr>)"
  using tcp_relay[of "stream_of [1, 2]" "stream_of [3]" None] by (simp add: stream_of_def)

end
