(* ===== verification/Crab_Link.thy ===== *)
theory Crab_Link
  imports Crab_Forward
begin

text \<open>
  What the callers of the commands that carry data have in common: the stream of a command
  beside another connection (a TCP or SOCKS connection, the body of an HTTP request, the
  pipe that becomes the body of an HTTP response), the copies between the two, and the
  two-stage call of a handle with the executor it hands over.

  \<open>lk_conn\<close> is that other connection, a \<open>stream\<close> like the others: what it still delivers and
  how that ends, and what has been written to it.  A \<open>reply_link\<close> also has the one-shot
  channel on which an executor answers the function that created it.
\<close>

record link = stream +
  lk_conn :: stream

record 'r reply_link = link +
  rl_chan :: "(crab_error + 'r) oneshot"

type_synonym ('y, 'a) lprog = "(crab_error, 'y link_scheme, 'a) prog"

text \<open>A stream that is opened for a command, linked with the other connection.\<close>

definition link_with :: "stream \<Rightarrow> stream \<Rightarrow> link" where
  "link_with conn s = stream.extend s (link.fields conn)"

definition reply_link_with :: "stream \<Rightarrow> stream \<Rightarrow> 'r reply_link" where
  "reply_link_with conn s = link.extend (link_with conn s) (reply_link.fields Os_open)"

section \<open>Copies\<close>

text \<open>
  \<open>copy(&mut stream.reader, &mut writer)\<close> and \<open>copy(&mut reader, &mut stream.writer)\<close> of the
  first \<open>n\<close> bytes, and to the end: the error of the side that writes comes before the one of
  the side that is read.
\<close>

definition copy_out :: "('y, unit) lprog" where
  "copy_out s =
    (case copy_to_stream (rx s) (lk_conn s) of
       (Inl e, c) \<Rightarrow> (Inl e, s\<lparr>rx := [], lk_conn := c\<rparr>)
     | (Inr _, c) \<Rightarrow>
         (if rx_fin s then Inr () else Inl (IO (rx_err s)), s\<lparr>rx := [], lk_conn := c\<rparr>))"

definition copy_out_part :: "nat \<Rightarrow> 'y link_scheme \<Rightarrow> 'y link_scheme" where
  "copy_out_part n s =
    s\<lparr>rx := drop n (rx s), lk_conn := snd (copy_to_stream (take n (rx s)) (lk_conn s))\<rparr>"

definition copy_in :: "('y, unit) lprog" where
  "copy_in s =
    (let c = lk_conn s; s' = s\<lparr>lk_conn := c\<lparr>rx := []\<rparr>\<rparr> in
     case copy_to_stream (rx c) s' of
       (Inl e, t) \<Rightarrow> (Inl e, t)
     | (Inr _, t) \<Rightarrow> (if rx_fin c then Inr () else Inl (IO (rx_err c)), t))"

definition copy_in_part :: "nat \<Rightarrow> 'y link_scheme \<Rightarrow> 'y link_scheme" where
  "copy_in_part n s =
    (let c = lk_conn s in
     snd (copy_to_stream (take n (rx c)) (s\<lparr>lk_conn := c\<lparr>rx := drop n (rx c)\<rparr>\<rparr>)))"

text \<open>The TCP relay as an executor: the stream against the other connection.\<close>

definition relay_executor :: "(nat \<times> nat) option \<Rightarrow> token \<Rightarrow> ('y, unit) lprog" where
  "relay_executor cutoff tok s =
    (case tcp_forward cutoff (s, lk_conn s) of (r, s', c) \<Rightarrow> (r, s'\<lparr>lk_conn := c\<rparr>))"

text \<open>A program with an answer channel, run on a link that has the channel.\<close>

definition with_chan ::
  "(('r, 'y) reply_link_ext link_ext, crab_error + 'r, 'a) tprog
    \<Rightarrow> (crab_error, ('r, 'y) reply_link_scheme, 'a) prog" where
  "with_chan m s = (case m (s, rl_chan s) of (r, (t, c)) \<Rightarrow> (r, t\<lparr>rl_chan := c\<rparr>))"

section \<open>Two-stage calls\<close>

text \<open>
  What the caller of \<open>exec_ack\<close> receives, and the stream as the task leaves it, if the node
  took the task and opened a stream for it.
\<close>

definition two_stage_call ::
  "ack_message codec \<Rightarrow> 'c codec \<Rightarrow> 'i codec \<Rightarrow> bool \<Rightarrow> crab_error + 'z stream_scheme \<Rightarrow> token \<Rightarrow> 'c
    \<Rightarrow> ('i \<Rightarrow> (crab_error + ('z, 'r) executor) option)
    \<Rightarrow> (crab_error + 'i) \<times> 'z stream_scheme option" where
  "two_stage_call ac cc ci queued opened tok cmd decide =
    (handle_exec_ack ac cc ci queued opened tok cmd decide,
     (if queued then
        (case opened of
           Inl _ \<Rightarrow> None
         | Inr s \<Rightarrow> Some (fst (snd (multi_stage_execute ac cc ci cmd decide tok (s, Os_open)))))
      else None))"

text \<open>
  \<open>handle.send(Ok(executor))\<close>: \<open>taken\<close> says whether the task is still there to take it; if
  not, the acknowledgement channel is closed for the task as well.
\<close>

definition hand_over :: "bool \<Rightarrow> ('z, 'r) executor \<Rightarrow> (crab_error + ('z, 'r) executor) option" where
  "hand_over taken executor = (if taken then Some (Inr executor) else None)"

section \<open>Lemmas\<close>

text \<open>
  The two ends of a link are independent.  (The record package does not derive these for a
  field whose type is the parent record.)
\<close>

lemma link_ends [simp]:
  "rx (s\<lparr>lk_conn := c\<rparr>) = rx s" "rx_fin (s\<lparr>lk_conn := c\<rparr>) = rx_fin s" "rx_err (s\<lparr>lk_conn := c\<rparr>) = rx_err s"
  "tx (s\<lparr>lk_conn := c\<rparr>) = tx s" "tx_cap (s\<lparr>lk_conn := c\<rparr>) = tx_cap s" "tx_err (s\<lparr>lk_conn := c\<rparr>) = tx_err s"
  "lk_conn (s\<lparr>rx := bs\<rparr>) = lk_conn s" "lk_conn (s\<lparr>tx := bs\<rparr>) = lk_conn s" "lk_conn (s\<lparr>tx_cap := n\<rparr>) = lk_conn s"
  "lk_conn (s\<lparr>lk_conn := c\<rparr>) = c" "s\<lparr>lk_conn := c, lk_conn := d\<rparr> = s\<lparr>lk_conn := d\<rparr>"
  "s\<lparr>lk_conn := c, rx := bs\<rparr> = s\<lparr>rx := bs, lk_conn := c\<rparr>"
  "s\<lparr>lk_conn := c, tx := bs\<rparr> = s\<lparr>tx := bs, lk_conn := c\<rparr>"
  "s\<lparr>lk_conn := c, tx_cap := n\<rparr> = s\<lparr>tx_cap := n, lk_conn := c\<rparr>"
  by (cases s, simp)+

lemma reply_link_ends [simp]:
  "rl_chan (s\<lparr>lk_conn := c\<rparr>) = rl_chan s" "lk_conn (s\<lparr>rl_chan := r\<rparr>) = lk_conn s"
  "s\<lparr>rl_chan := r, lk_conn := c\<rparr> = s\<lparr>lk_conn := c, rl_chan := r\<rparr>"
  by (cases s, simp)+

lemma link_with_simps [simp]:
  "rx (link_with c s) = rx s" "rx_fin (link_with c s) = rx_fin s" "tx (link_with c s) = tx s"
  "tx_cap (link_with c s) = tx_cap s" "lk_conn (link_with c s) = c"
  by (simp_all add: link_with_def stream.defs link.defs)

lemma reply_link_with_simps [simp]:
  "rx (reply_link_with c s) = rx s" "rx_fin (reply_link_with c s) = rx_fin s" "tx (reply_link_with c s) = tx s"
  "tx_cap (reply_link_with c s) = tx_cap s" "lk_conn (reply_link_with c s) = c"
  "rl_chan (reply_link_with c s) = Os_open"
  by (simp_all add: reply_link_with_def link_with_def stream.defs link.defs reply_link.defs)

lemma copy_out_up:
  "tx_cap (lk_conn s) = None \<Longrightarrow>
     copy_out s = (if rx_fin s then Inr () else Inl (IO (rx_err s)),
       s\<lparr>rx := [], lk_conn := (lk_conn s)\<lparr>tx := tx (lk_conn s) @ rx s\<rparr>\<rparr>)"
  by (simp add: copy_out_def copy_to_stream_up)

lemma copy_in_up:
  "tx_cap s = None \<Longrightarrow>
     copy_in s = (if rx_fin (lk_conn s) then Inr () else Inl (IO (rx_err (lk_conn s))),
       s\<lparr>tx := tx s @ rx (lk_conn s), lk_conn := (lk_conn s)\<lparr>rx := []\<rparr>\<rparr>)"
  by (simp add: copy_in_def copy_to_stream_up Let_def)

lemma relay_executor_up:
  "tx_cap s = None \<Longrightarrow> tx_cap (lk_conn s) = None \<Longrightarrow>
     relay_executor None tok s = (Inr (), s\<lparr>rx := [], tx := tx s @ rx (lk_conn s),
       lk_conn := (lk_conn s)\<lparr>rx := [], tx := tx (lk_conn s) @ rx s\<rparr>\<rparr>)"
  by (simp add: relay_executor_def tcp_forward_up)

lemma two_stage_call_lost:
  "\<not> queued \<or> (\<exists>e. opened = Inl e) \<Longrightarrow>
     two_stage_call ac cc ci queued opened tok cmd decide = (Inl (ErrorCode NODE_ALREADY_EXIT), None)"
  by (auto simp: two_stage_call_def handle_exec_ack_def await_answer_lost)

lemma two_stage_call_answer:
  "two_stage_call ac cc ci True (Inr s) tok cmd decide =
     (exec_ack_answer ac cc ci cmd s,
      Some (fst (snd (multi_stage_execute ac cc ci cmd decide tok (s, Os_open)))))"
  by (simp add: two_stage_call_def handle_exec_ack_def await_answer_run multi_stage_answer)

text \<open>The peer accepts: the caller gets the initial value and the executor has run on the rest.\<close>

lemma two_stage_call_run:
  fixes s :: "'z stream_scheme"
  assumes "codec_ok ac" "codec_ok ci" "framed cc Method_Command OPTION_NONE cmd b"
    and "framed ac Method_Command OPTION_NONE ack_success k"
    and "framed ci me op i m" "op AND OPTION_ERROR \<noteq> OPTION_ERROR"
    and "rx s = k @ m @ rest" "tx_cap s = None"
    and "decide i = hand_over taken executor"
  shows "two_stage_call ac cc ci True (Inr s) tok cmd decide =
    (Inr i, Some (if taken then snd (executor tok (s\<lparr>rx := rest, tx := tx s @ b @ k\<rparr>))
                  else s\<lparr>rx := rest, tx := tx s @ b\<rparr>))"
proof -
  have ans: "exec_ack_answer ac cc ci cmd s = Inr i"
    by (simp add: exec_ack_answer_def andthen_def write_message_up[OF assms(3,8)] assms(7)
        read_ack_ok[OF assms(1,4) option_none_ok, where rest = "m @ rest"]
        read_message_ok[OF assms(2,5,6), where rest = rest])
  have "multi_stage_execute ac cc ci cmd decide tok (s, Os_open) =
      (case decide i of
         None \<Rightarrow> (Inl (ErrorCode CANCELED_ERROR), (s\<lparr>rx := rest, tx := tx s @ b\<rparr>, Os_value (Inr i)))
       | Some (Inl e) \<Rightarrow> (Inl e, (s\<lparr>rx := rest, tx := tx s @ b @ []\<rparr>, Os_value (Inr i)))
       | Some (Inr executor) \<Rightarrow>
           (case executor tok (s\<lparr>rx := rest, tx := tx s @ b @ k\<rparr>) of
              (r, t) \<Rightarrow> (map_sum id (\<lambda>_. ()) r, (t, Os_value (Inr i)))))"
    by (rule multi_stage_run[OF assms(1,2,3,4) option_none_ok assms(5,6,4) _ assms(7,8), THEN conjunct1])
      (use assms(9) in \<open>auto simp: hand_over_def split: if_splits\<close>)
  with assms(9) show ?thesis
    by (simp add: two_stage_call_answer ans hand_over_def split: prod.split)
qed

text \<open>The peer refuses in its first or second answer: no executor runs.\<close>

lemma two_stage_call_refused:
  fixes s :: "'z stream_scheme"
  assumes "codec_ok ac" "framed cc Method_Command OPTION_NONE cmd b"
    and "framed ac Method_Command OPTION_NONE ack_success k"
    and "framed ac me op (ack_from_error e) m" "op AND OPTION_ERROR = OPTION_ERROR"
    and "rx s = k @ m @ rest" "tx_cap s = None"
  shows "two_stage_call ac cc ci True (Inr s) tok cmd decide =
    (Inl (ErrorCode (err_no e)), Some (s\<lparr>rx := rest, tx := tx s @ b\<rparr>))"
  by (simp add: two_stage_call_answer exec_ack_answer_def multi_stage_execute_def andthen_def attempt_def
      write_message_up[OF assms(2,7)] assms(6) ack_from_error_code
      read_ack_ok[OF assms(1,3) option_none_ok, where rest = "m @ rest"]
      read_message_err[OF assms(1,4,5), where rest = rest])

section \<open>Concrete links\<close>

definition link_of :: "bytes \<Rightarrow> bytes \<Rightarrow> link" where
  "link_of bs up = \<lparr>rx = bs, rx_fin = True, rx_err = [], tx = [], tx_cap = None, tx_err = [],
     lk_conn = stream_of up\<rparr>"

definition reply_link_of :: "bytes \<Rightarrow> bytes \<Rightarrow> 'r reply_link" where
  "reply_link_of bs up = \<lparr>rx = bs, rx_fin = True, rx_err = [], tx = [], tx_cap = None, tx_err = [],
     lk_conn = stream_of up, rl_chan = Os_open\<rparr>"

lemma link_of_simps [simp]:
  "rx (link_of bs up) = bs" "rx_fin (link_of bs up)" "tx (link_of bs up) = []"
  "tx_cap (link_of bs up) = None" "lk_conn (link_of bs up) = stream_of up"
  "rx (reply_link_of bs up) = bs" "rx_fin (reply_link_of bs up)" "tx (reply_link_of bs up) = []"
  "tx_cap (reply_link_of bs up) = None" "lk_conn (reply_link_of bs up) = stream_of up"
  by (simp_all add: link_of_def reply_link_of_def)

end
