(* ===== verification/Crab_Http.thy ===== *)
theory Crab_Http
  imports Crab_Link Crab_App_Types
begin

text \<open>
  \<^verbatim>\<open>src/src/app/utils/http.rs\<close> and \<^verbatim>\<open>src/src/app/protocol/forwarder/http.rs\<close>: HTTP methods
  and the proxied request, on the node and at its caller.  The HTTP library is a parameter:
  \<open>build\<close> makes a request of the method name, the headers and the URI or refuses them,
  \<open>perform\<close> is the exchange with the target, given the bytes of the request's body and
  whether they end cleanly: the answer, or the text of the error.
\<close>

definition http_method_name :: "http_method \<Rightarrow> string" where
  "http_method_name m =
    (case m of Http_Options \<Rightarrow> ''OPTIONS'' | Http_Get \<Rightarrow> ''GET'' | Http_Post \<Rightarrow> ''POST''
     | Http_Put \<Rightarrow> ''PUT'' | Http_Delete \<Rightarrow> ''DELETE'' | Http_Head \<Rightarrow> ''HEAD''
     | Http_Trace \<Rightarrow> ''TRACE'' | Http_Connect \<Rightarrow> ''CONNECT'' | Http_Patch \<Rightarrow> ''PATCH'')"

definition http_method_try_from :: "string \<Rightarrow> crab_error + http_method" where
  "http_method_try_from v =
    (if v = ''GET'' then Inr Http_Get
     else if v = ''POST'' then Inr Http_Post
     else if v = ''PUT'' then Inr Http_Put
     else if v = ''DELETE'' then Inr Http_Delete
     else if v = ''HEAD'' then Inr Http_Head
     else if v = ''TRACE'' then Inr Http_Trace
     else if v = ''CONNECT'' then Inr Http_Connect
     else if v = ''PATCH'' then Inr Http_Patch
     else Inl (ErrorCode BAD_PARAMETER))"

definition make_request ::
  "(string \<Rightarrow> headers \<Rightarrow> string \<Rightarrow> 'req option) \<Rightarrow> http_request \<Rightarrow> crab_error + 'req" where
  "make_request build req =
    (case build (http_method_name (hq_method req)) (hq_headers req) (hq_request_uri req) of
       None \<Rightarrow> Inl (ErrorCode BAD_PARAMETER)
     | Some r \<Rightarrow> Inr r)"

text \<open>The response of the library: status, headers (a value that is not text is dropped), body.\<close>

record 'b raw_response =
  rr_status :: u16
  rr_headers :: "(string \<times> string option) list"
  rr_body :: 'b

definition response_of :: "'b raw_response \<Rightarrow> http_response" where
  "response_of r =
    \<lparr>hr_status_code = rr_status r,
     hr_headers = map (\<lambda>(k, v). (k, case v of None \<Rightarrow> [] | Some t \<Rightarrow> t)) (rr_headers r)\<rparr>"

text \<open>A body that is received: its bytes, and the error it ends with, if any.\<close>

type_synonym received_body = "bytes \<times> ext_error option"

definition client_request ::
  "ext_error + received_body raw_response \<Rightarrow> crab_error + http_response \<times> received_body" where
  "client_request r =
    (case r of
       Inl e \<Rightarrow> Inl (ErrorCodeWithMessage UNKNOWN_ERROR e)
     | Inr resp \<Rightarrow> Inr (response_of resp, rr_body resp))"

section \<open>The node\<close>

text \<open>
  The node's side of \<open>HttpProxy\<close>.  The request body is what the stream still delivers;
  \<open>cancel_request\<close> and \<open>cancel_body\<close> say which of the two selects the token wins, the second
  after so many bytes of the answer's body.
\<close>

definition send_received :: "received_body \<Rightarrow> ('z, unit) sprog" where
  "send_received body =
    andthen (copy_to_stream (fst body)) (\<lambda>_.
      case snd body of None \<Rightarrow> ret () | Some e \<Rightarrow> throw (IO e))"

definition http_proxy_handle ::
  "ack_message codec \<Rightarrow> http_response codec \<Rightarrow> (string \<Rightarrow> headers \<Rightarrow> string \<Rightarrow> 'req option)
    \<Rightarrow> ('req \<Rightarrow> bytes \<Rightarrow> bool \<Rightarrow> ext_error + received_body raw_response) \<Rightarrow> bool \<Rightarrow> nat option
    \<Rightarrow> http_request \<Rightarrow> message_header \<Rightarrow> ('z, unit) sprog" where
  "http_proxy_handle ac rc build perform cancel_request cancel_body this h =
    andthen
      (case make_request build this of
         Inr req \<Rightarrow>
           andthen (write_message ac (mh_method h) (mh_option h) ack_success) (\<lambda>_. ret req)
       | Inl e \<Rightarrow>
           andthen (write_error ac (mh_method h) (mh_option h) e) (\<lambda>_. throw e)) (\<lambda>req.
    if cancel_request then throw (ErrorCode CANCELED_ERROR)
    else (\<lambda>s.
      case client_request (perform req (rx s) (rx_fin s)) of
        Inr (resp, body) \<Rightarrow>
          andthen (write_message rc (mh_method h) (mh_option h) resp) (\<lambda>_.
            (case cancel_body of
               None \<Rightarrow> send_received body
             | Some n \<Rightarrow> andthen (attempt (copy_to_stream (take n (fst body))))
                          (\<lambda>_. throw (ErrorCode CANCELED_ERROR)))) (s\<lparr>rx := []\<rparr>)
      | Inl e \<Rightarrow>
          andthen (write_error ac (mh_method h) (mh_option h) e) (\<lambda>_. throw e) (s\<lparr>rx := []\<rparr>)))"

section \<open>The caller\<close>

text \<open>
  The other end of the link is the caller's HTTP side: it delivers the body of the request
  and takes the body of the answer.  The body of the request is sent by a task of its own,
  whose result is only logged: all of it, or the first \<open>n\<close> bytes when the token fires.
\<close>

definition send_request_body :: "nat option \<Rightarrow> 'y link_scheme \<Rightarrow> 'y link_scheme" where
  "send_request_body cancel_send s =
    (case cancel_send of None \<Rightarrow> snd (copy_in s) | Some n \<Rightarrow> copy_in_part n s)"

text \<open>
  The executor of the caller: it answers on the channel \<open>resp_writer\<close> with the head of the
  response, if its receiver is still there, and then passes on the body.
\<close>

definition do_http_request_proxy ::
  "ack_message codec \<Rightarrow> http_response codec \<Rightarrow> nat option \<Rightarrow> nat option
    \<Rightarrow> ('y link_ext, crab_error + http_response, unit) tprog" where
  "do_http_request_proxy ac rc cancel_send cancel_body = (\<lambda>(s, c).
    andthen (attempt (on_stream (read_message ac rc))) (\<lambda>m.
      case m of
        Inr (_, resp) \<Rightarrow>
          andthen (chan_send (Inr resp)) (\<lambda>ok.
            if \<not> ok then throw (ErrorCode CANCELED_ERROR)
            else
              (case cancel_body of
                 None \<Rightarrow> on_stream copy_out
               | Some n \<Rightarrow> (\<lambda>(t, d). (Inl (ErrorCode CANCELED_ERROR), (copy_out_part n t, d)))))
      | Inl err \<Rightarrow>
          andthen (chan_send (Inl err)) (\<lambda>_. throw (ErrorCode CANCELED_ERROR)))
      (send_request_body cancel_send s, c))"

text \<open>
  \<open>http_proxy\<close> of a handle: the task is spawned and the function waits for the channel, which
  is closed when the task is over.
\<close>

definition client_http_proxy ::
  "ack_message codec \<Rightarrow> command codec \<Rightarrow> http_response codec \<Rightarrow> bool
    \<Rightarrow> crab_error + (http_response, 'y) reply_link_scheme \<Rightarrow> nat option \<Rightarrow> nat option \<Rightarrow> http_request
    \<Rightarrow> (crab_error + http_response) \<times> (http_response, 'y) reply_link_scheme option" where
  "client_http_proxy ac cc rc queued opened cancel_send cancel_body req =
    (case handle_spawn queued of
       Inl e \<Rightarrow> (Inl e, None)
     | Inr _ \<Rightarrow>
         (case opened of
            Inl _ \<Rightarrow> (Inl (ErrorCode CANCELED_ERROR), None)
          | Inr s \<Rightarrow>
              (case base_task_execute ac cc (Command_HttpProxy req)
                      (\<lambda>_. with_chan (do_http_request_proxy ac rc cancel_send cancel_body)) None
                      (s\<lparr>rl_chan := Os_open\<rparr>) of
                 (_, t) \<Rightarrow>
                   (case oneshot_recv (oneshot_close (rl_chan t)) of
                      Some r \<Rightarrow> (r, Some t)
                    | None \<Rightarrow> (Inl (ErrorCode CANCELED_ERROR), Some t)))))"

section \<open>Lemmas\<close>

lemma try_from_name:
  "m \<noteq> Http_Options \<Longrightarrow> http_method_try_from (http_method_name m) = Inr m"
  by (cases m) (simp_all add: http_method_try_from_def http_method_name_def)

lemma try_from_options: "http_method_try_from (http_method_name Http_Options) = Inl (ErrorCode BAD_PARAMETER)"
  by (simp add: http_method_try_from_def http_method_name_def)

lemma try_from_sound: "http_method_try_from v = Inr m \<Longrightarrow> v = http_method_name m"
  by (auto simp: http_method_try_from_def http_method_name_def split: if_splits)

section \<open>Properties\<close>

text \<open>
  The method of a proxied request is not altered: a method name is accepted exactly if it
  is the name under which the HTTP library sends the method it is parsed to, and that
  method is not \<open>OPTIONS\<close>, whose name is refused although the library has it.
\<close>

lemma http_method_exact:
  "(http_method_try_from v = Inr m \<longleftrightarrow> v = http_method_name m \<and> m \<noteq> Http_Options) \<and>
   http_method_try_from ''OPTIONS'' = Inl (ErrorCode BAD_PARAMETER)"
  using try_from_name[of m] try_from_sound[of v m] try_from_options
  by (auto simp: http_method_name_def[of Http_Options])

end
