(* ===== verification/Crab_Hook.thy ===== *)
theory Crab_Hook
  imports Crab_Stream Crab_Types
begin

text \<open>
  \<^verbatim>\<open>src/src/crab/proto/hook.rs\<close> and \<^verbatim>\<open>src/src/crab/proto/hook_wrapper.rs\<close>: the \<open>Protocol\<close>
  trait an application implements and \<open>ProtoWrapper\<close>, which runs the handshake, the
  heartbeat and the dispatch of commands over it.

  The trait is the record \<open>protocol\<close> of its methods.  A connection yields one stream per
  call of \<open>Stream::open\<close> or \<open>Stream::accept\<close>: the parameter \<open>opened\<close>, an error or the
  stream; the result pairs the outcome with the stream as it was left.
\<close>

record ('hs, 'hb) protocol =
  p_node_id :: "'hs \<Rightarrow> string"
  p_make_handshake :: "crab_error + 'hs"
  p_make_heartbeat :: "crab_error + 'hb"
  p_on_handshake :: "node_metadata \<Rightarrow> 'hs \<Rightarrow> crab_error + 'hs"
  p_on_heartbeat :: "node_metadata \<Rightarrow> 'hb \<Rightarrow> crab_error + 'hb"

definition with_stream ::
  "crab_error + 'z stream_scheme \<Rightarrow> ('z, 'a) sprog \<Rightarrow> (crab_error + 'a) \<times> 'z stream_scheme option" where
  "with_stream opened m =
    (case opened of
       Inl e \<Rightarrow> (Inl e, None)
     | Inr s \<Rightarrow> (case m s of (r, t) \<Rightarrow> (r, Some t)))"

section \<open>Handshake\<close>

definition handshake_session ::
  "ack_message codec \<Rightarrow> 'hs codec \<Rightarrow> ('hs, 'hb) protocol \<Rightarrow> socket_addr
    \<Rightarrow> ('z, node_metadata \<times> 'hs) sprog" where
  "handshake_session ac hc p addr =
    andthen (read_message ac hc) (\<lambda>(header, handshake).
      if mh_method header \<noteq> Method_Handshake then throw (ErrorCode BAD_MESSAGE_HEADER)
      else
        (let meta = \<lparr>nm_node_id = p_node_id p handshake, nm_remote_addr = addr, nm_as_client = True\<rparr>
         in case p_on_handshake p meta handshake of
              Inl err \<Rightarrow>
                andthen (write_error ac Method_Handshake OPTION_ERROR err) (\<lambda>_. throw err)
            | Inr answer \<Rightarrow>
                andthen (attempt (write_message hc Method_Handshake (mh_option header) answer)) (\<lambda>w.
                  case w of
                    Inl _ \<Rightarrow> throw (ErrorCode IO_BAD_MESSAGE)
                  | Inr _ \<Rightarrow> ret (meta, handshake))))"

definition hook_handshake ::
  "ack_message codec \<Rightarrow> 'hs codec \<Rightarrow> ('hs, 'hb) protocol \<Rightarrow> socket_addr
    \<Rightarrow> crab_error + 'z stream_scheme
    \<Rightarrow> (crab_error + node_metadata \<times> 'hs) \<times> 'z stream_scheme option" where
  "hook_handshake ac hc p addr accepted = with_stream accepted (handshake_session ac hc p addr)"

definition client_session ::
  "ack_message codec \<Rightarrow> 'hs codec \<Rightarrow> ('hs, 'hb) protocol \<Rightarrow> socket_addr \<Rightarrow> 'hs
    \<Rightarrow> ('z, node_metadata \<times> 'hs) sprog" where
  "client_session ac hc p addr handshake =
    andthen (write_message hc Method_Handshake 0 handshake) (\<lambda>_.
    andthen (read_message ac hc) (\<lambda>(_, body).
      ret (\<lparr>nm_node_id = p_node_id p body, nm_remote_addr = addr, nm_as_client = False\<rparr>, body)))"

definition hook_handshake_as_client ::
  "ack_message codec \<Rightarrow> 'hs codec \<Rightarrow> ('hs, 'hb) protocol \<Rightarrow> socket_addr
    \<Rightarrow> crab_error + 'z stream_scheme
    \<Rightarrow> (crab_error + node_metadata \<times> 'hs) \<times> 'z stream_scheme option" where
  "hook_handshake_as_client ac hc p addr opened =
    (case p_make_handshake p of
       Inl e \<Rightarrow> (Inl e, None)
     | Inr handshake \<Rightarrow> with_stream opened (client_session ac hc p addr handshake))"

section \<open>Heartbeat\<close>

definition handle_heartbeat ::
  "ack_message codec \<Rightarrow> 'hb codec \<Rightarrow> ('hs, 'hb) protocol \<Rightarrow> node_metadata \<Rightarrow> ('z, 'hb) sprog" where
  "handle_heartbeat ac bc p meta =
    andthen (read_message ac bc) (\<lambda>(_, body). lift (p_on_heartbeat p meta body))"

definition hook_heartbeat ::
  "ack_message codec \<Rightarrow> 'hb codec \<Rightarrow> ('hs, 'hb) protocol \<Rightarrow> node_metadata \<Rightarrow> ('z, unit) sprog" where
  "hook_heartbeat ac bc p meta =
    andthen (attempt (handle_heartbeat ac bc p meta)) (\<lambda>r.
      case (case r of Inl e \<Rightarrow> Inl e | Inr _ \<Rightarrow> p_make_heartbeat p) of
        Inl err \<Rightarrow> write_error ac Method_Heartbeat OPTION_ERROR err
      | Inr answer \<Rightarrow>
          andthen (write_message bc Method_Heartbeat OPTION_NONE answer) (\<lambda>_.
          andthen (read_message ac ac) (\<lambda>(_, ack).
            if ack_code ack \<noteq> NO_ERROR then throw (ErrorCode (ack_code ack)) else ret ())))"

definition hook_heartbeat_as_client ::
  "ack_message codec \<Rightarrow> 'hb codec \<Rightarrow> ('hs, 'hb) protocol \<Rightarrow> node_metadata \<Rightarrow> ('z, unit) sprog" where
  "hook_heartbeat_as_client ac bc p meta =
    andthen
      (case p_make_heartbeat p of
         Inl err \<Rightarrow> write_error ac Method_Heartbeat OPTION_ERROR err
       | Inr beat \<Rightarrow> write_message bc Method_Heartbeat OPTION_NONE beat) (\<lambda>_.
    andthen (attempt (handle_heartbeat ac bc p meta)) (\<lambda>r.
      case r of
        Inl err \<Rightarrow> write_error ac Method_Heartbeat OPTION_ERROR err
      | Inr _ \<Rightarrow> write_message ac Method_Heartbeat OPTION_NONE
                   \<lparr>ack_code = NO_ERROR, ack_msg = None\<rparr>))"

section \<open>Accepting a node, handling a stream\<close>

text \<open>
  The handshake value travels as \<open>Box<dyn Any>\<close>: \<open>None\<close> stands for a box that holds another
  type, the failing \<open>downcast\<close>.
\<close>

definition hook_on_node_accepted ::
  "(node_metadata \<Rightarrow> 'h \<Rightarrow> 'hs \<Rightarrow> (crab_error, 's, unit) prog)
    \<Rightarrow> node_metadata \<Rightarrow> 'h \<Rightarrow> 'hs option \<Rightarrow> (crab_error, 's, unit) prog" where
  "hook_on_node_accepted on_accepted meta h extra =
    (case extra of
       None \<Rightarrow> throw (ErrorCode ILLEGAL_ERROR)
     | Some hs \<Rightarrow> on_accepted meta h hs)"

definition hook_handle_stream ::
  "ack_message codec \<Rightarrow> 'cmd codec
    \<Rightarrow> (node_metadata \<Rightarrow> message_header \<times> 'cmd \<Rightarrow> ('z, unit) sprog)
    \<Rightarrow> node_metadata \<Rightarrow> ('z, unit) sprog" where
  "hook_handle_stream ac cc handle_command meta =
    andthen (read_message ac cc) (\<lambda>(header, cmd). handle_command meta (header, cmd))"

definition hook_on_node_exited :: "(node_metadata \<Rightarrow> 's \<Rightarrow> 's) \<Rightarrow> node_metadata \<Rightarrow> 's \<Rightarrow> 's" where
  "hook_on_node_exited on_exited meta = on_exited meta"

text \<open>
  The defaults of the \<open>Hook\<close> trait: a hook that overrides nothing refuses handshakes,
  heartbeats and streams.  \<open>ProtoWrapper\<close> overrides all but \<open>on_connection_accepted\<close>, which
  lets every connection through.
\<close>

definition default_handshake :: "crab_error + node_metadata \<times> 'hs" where
  "default_handshake = Inl (ErrorCode UNSUPPORTED_ERROR)"

definition default_handshake_as_client :: "crab_error + node_metadata \<times> 'hs" where
  "default_handshake_as_client = Inl (ErrorCode UNSUPPORTED_ERROR)"

definition default_heartbeat :: "node_metadata \<Rightarrow> ('z, unit) sprog" where
  "default_heartbeat meta = throw (ErrorCode UNSUPPORTED_ERROR)"

definition default_heartbeat_as_client :: "node_metadata \<Rightarrow> ('z, unit) sprog" where
  "default_heartbeat_as_client meta = throw (ErrorCode UNSUPPORTED_ERROR)"

definition default_on_connection_accepted :: "'c \<Rightarrow> crab_error + unit" where
  "default_on_connection_accepted conn = Inr ()"

definition default_on_node_accepted :: "node_metadata \<Rightarrow> 'h \<Rightarrow> 'hs option \<Rightarrow> (crab_error, 's, unit) prog" where
  "default_on_node_accepted meta h extra = ret ()"

definition default_on_node_exited :: "node_metadata \<Rightarrow> 's \<Rightarrow> 's" where
  "default_on_node_exited meta s = s"

definition default_handle_stream :: "node_metadata \<Rightarrow> ('z, unit) sprog" where
  "default_handle_stream meta = throw (ErrorCode UNSUPPORTED_ERROR)"

section \<open>The exchanges\<close>

lemma handshake_session_ok:
  assumes "codec_ok hc" "framed hc Method_Handshake op m b1" "op AND OPTION_ERROR \<noteq> OPTION_ERROR"
    and "p_on_handshake p \<lparr>nm_node_id = p_node_id p m, nm_remote_addr = addr, nm_as_client = True\<rparr> m = Inr m'"
    and "framed hc Method_Handshake op m' b2" "rx s = b1 @ rest" "tx_cap s = None"
  shows "handshake_session ac hc p addr s =
    (Inr (\<lparr>nm_node_id = p_node_id p m, nm_remote_addr = addr, nm_as_client = True\<rparr>, m),
     s\<lparr>rx := rest, tx := tx s @ b2\<rparr>)"
  using assms
  by (simp add: handshake_session_def andthen_def attempt_def
      read_message_ok[OF assms(1,2,3,6)] write_message_up[OF assms(5)])

lemma handshake_session_rejected:
  assumes "codec_ok hc" "framed hc Method_Handshake op m b1" "op AND OPTION_ERROR \<noteq> OPTION_ERROR"
    and "p_on_handshake p \<lparr>nm_node_id = p_node_id p m, nm_remote_addr = addr, nm_as_client = True\<rparr> m = Inl e"
    and "framed ac Method_Handshake OPTION_ERROR (ack_from_error e) b2"
    and "rx s = b1 @ rest" "tx_cap s = None"
  shows "handshake_session ac hc p addr s = (Inl e, s\<lparr>rx := rest, tx := tx s @ b2\<rparr>)"
  using assms
  by (simp add: handshake_session_def andthen_def write_error_def
      read_message_ok[OF assms(1,2,3,6)] write_message_up[OF assms(5)])

lemma client_session_ok:
  assumes "codec_ok hc" "framed hc Method_Handshake 0 m b1" "framed hc me op m' b2"
    and "op AND OPTION_ERROR \<noteq> OPTION_ERROR" "rx s = b2 @ rest" "tx_cap s = None"
  shows "client_session ac hc p addr m s =
    (Inr (\<lparr>nm_node_id = p_node_id p m', nm_remote_addr = addr, nm_as_client = False\<rparr>, m'),
     s\<lparr>rx := rest, tx := tx s @ b1\<rparr>)"
  using assms
  by (simp add: client_session_def andthen_def write_message_up[OF assms(2)]
      read_message_ok[OF assms(1,3,4), where rest = rest])

lemma client_session_rejected:
  assumes "codec_ok ac" "framed hc Method_Handshake 0 m b1" "framed ac me op a b2"
    and "op AND OPTION_ERROR = OPTION_ERROR" "rx s = b2 @ rest" "tx_cap s = None"
  shows "client_session ac hc p addr m s = (Inl (ErrorCode (ack_code a)), s\<lparr>rx := rest, tx := tx s @ b1\<rparr>)"
  using assms
  by (simp add: client_session_def andthen_def write_message_up[OF assms(2)]
      read_message_err[OF assms(1,3,4), where rest = rest])

text \<open>
  A protocol whose callbacks always succeed on heartbeats, as the applications of the
  library are expected to be: the interface under which a heartbeat exchange cannot fail
  while the stream is up.
\<close>

locale live_protocol =
  fixes p :: "('hs, 'hb) protocol" and beat :: 'hb
  assumes beat_made: "p_make_heartbeat p = Inr beat"
    and beat_taken: "\<exists>b. p_on_heartbeat p meta beat = Inr b"
begin

lemma server_beat:
  assumes "codec_ok ac" "codec_ok bc" "framed bc Method_Heartbeat OPTION_NONE beat b"
    and "framed ac Method_Heartbeat OPTION_NONE \<lparr>ack_code = c, ack_msg = None\<rparr> k"
    and "rx s = b @ k @ rest" "tx_cap s = None"
  shows "hook_heartbeat ac bc p meta s =
    (if c = NO_ERROR then Inr () else Inl (ErrorCode c), s\<lparr>rx := rest, tx := tx s @ b\<rparr>)"
proof -
  obtain b' where "p_on_heartbeat p meta beat = Inr b'" using beat_taken by blast
  with assms show ?thesis
    by (simp add: hook_heartbeat_def handle_heartbeat_def andthen_def attempt_def beat_made
        read_message_ok[OF assms(2,3) option_none_ok, where rest = "k @ rest"]
        read_message_ok[OF assms(1,4) option_none_ok, where rest = rest]
        write_message_up[OF assms(3)])
qed

lemma client_beat:
  assumes "codec_ok bc" "framed bc Method_Heartbeat OPTION_NONE beat b"
    and "framed ac Method_Heartbeat OPTION_NONE \<lparr>ack_code = NO_ERROR, ack_msg = None\<rparr> k"
    and "rx s = b @ rest" "tx_cap s = None"
  shows "hook_heartbeat_as_client ac bc p meta s = (Inr (), s\<lparr>rx := rest, tx := tx s @ b @ k\<rparr>)"
proof -
  obtain b' where "p_on_heartbeat p meta beat = Inr b'" using beat_taken by blast
  with assms show ?thesis
    by (simp add: hook_heartbeat_as_client_def handle_heartbeat_def andthen_def attempt_def beat_made
        read_message_ok[OF assms(1,2) option_none_ok, where rest = rest]
        write_message_up[OF assms(2)] write_message_up[OF assms(3)])
qed

end

section \<open>Properties\<close>

text \<open>
  A completed handshake leaves both sides with complementary views.  If the accepting
  side's protocol answers the handshake \<open>m\<close> with \<open>m'\<close>, and each side reads what the other
  writes, both succeed: the accepting side knows the peer under the id of \<open>m\<close>, as the
  client; the connecting side knows it under the id of \<open>m'\<close>, not as the client; each has
  the other's handshake packet, and what one wrote is what the other read.
\<close>

lemma handshake_agreement:
  assumes "codec_ok hc" "framed hc Method_Handshake 0 m b1" "framed hc Method_Handshake 0 m' b2"
    and "p_make_handshake pc = Inr m"
    and "p_on_handshake ps \<lparr>nm_node_id = p_node_id ps m, nm_remote_addr = ca, nm_as_client = True\<rparr> m = Inr m'"
    and "rx c = b2 @ rest" "tx_cap c = None" "rx s = b1 @ rest'" "tx_cap s = None"
  shows
    "hook_handshake_as_client ac hc pc sa (Inr c) =
      (Inr (\<lparr>nm_node_id = p_node_id pc m', nm_remote_addr = sa, nm_as_client = False\<rparr>, m'),
       Some (c\<lparr>rx := rest, tx := tx c @ b1\<rparr>)) \<and>
     hook_handshake ac hc ps ca (Inr s) =
      (Inr (\<lparr>nm_node_id = p_node_id ps m, nm_remote_addr = ca, nm_as_client = True\<rparr>, m),
       Some (s\<lparr>rx := rest', tx := tx s @ b2\<rparr>))"
proof
  have ok: "(0 :: u8) AND OPTION_ERROR \<noteq> OPTION_ERROR" by (simp add: OPTION_ERROR_def)
  show "hook_handshake_as_client ac hc pc sa (Inr c) =
      (Inr (\<lparr>nm_node_id = p_node_id pc m', nm_remote_addr = sa, nm_as_client = False\<rparr>, m'),
       Some (c\<lparr>rx := rest, tx := tx c @ b1\<rparr>))"
    by (simp add: hook_handshake_as_client_def with_stream_def assms(4)
        client_session_ok[OF assms(1,2,3) ok assms(6,7)])
  show "hook_handshake ac hc ps ca (Inr s) =
      (Inr (\<lparr>nm_node_id = p_node_id ps m, nm_remote_addr = ca, nm_as_client = True\<rparr>, m),
       Some (s\<lparr>rx := rest', tx := tx s @ b2\<rparr>))"
    by (simp add: hook_handshake_def with_stream_def
        handshake_session_ok[OF assms(1,2) ok assms(5,3,8,9)])
qed

definition sample_protocol :: "(u8, u8) protocol" where
  "sample_protocol = \<lparr>p_node_id = (\<lambda>m. if m = 7 then ''seven'' else ''other''), p_make_handshake = Inr 7,
     p_make_heartbeat = Inr 7, p_on_handshake = (\<lambda>_ _. Inr 7), p_on_heartbeat = (\<lambda>_ _. Inr 7)\<rparr>"

definition sample_addr :: socket_addr where
  "sample_addr = SocketAddrV4 [127, 0, 0, 1] 80"

definition sample_hello :: bytes where
  "sample_hello = write_header \<lparr>mh_version = 0, mh_option = 0, mh_method = Method_Handshake, mh_length = 3\<rparr> @ [1, 2, 3]"

lemma sample_hello_framed: "framed sample_codec Method_Handshake 0 7 sample_hello"
  using framed_of_ser[OF sample_codec_facts(2,3), of Method_Handshake 0] by (simp add: sample_hello_def)

lemma handshake_agreement_witness:
  "hook_handshake_as_client sample_ack sample_codec sample_protocol sample_addr (Inr (stream_of sample_hello)) =
      (Inr (\<lparr>nm_node_id = ''seven'', nm_remote_addr = sample_addr, nm_as_client = False\<rparr>, 7),
       Some ((stream_of [])\<lparr>tx := sample_hello\<rparr>)) \<and>
   hook_handshake sample_ack sample_codec sample_protocol sample_addr (Inr (stream_of sample_hello)) =
      (Inr (\<lparr>nm_node_id = ''seven'', nm_remote_addr = sample_addr, nm_as_client = True\<rparr>, 7),
       Some ((stream_of [])\<lparr>tx := sample_hello\<rparr>))"
  using handshake_agreement[OF sample_codec_facts(1) sample_hello_framed sample_hello_framed,
      of sample_protocol sample_protocol sample_addr "stream_of sample_hello" "[]" "stream_of sample_hello" "[]"
      sample_ack sample_addr]
  by (simp add: sample_protocol_def stream_of_def)

text \<open>
  A heartbeat that cannot be read, or that the protocol refuses, does not end the
  accepting side's heartbeat with an error as long as the connection can be written: the
  error is sent to the peer and the call succeeds; no acknowledgement is awaited.
\<close>

lemma heartbeat_error_answered:
  assumes "handle_heartbeat ac bc p meta s = (Inl e, t)" "tx_cap t = None"
    and "framed ac Method_Heartbeat OPTION_ERROR (ack_from_error e) d"
  shows "hook_heartbeat ac bc p meta s = (Inr (), t\<lparr>tx := tx t @ d\<rparr>)"
  using assms(1,2) write_error_up[of ac Method_Heartbeat OPTION_ERROR e d t] assms(3)
  by (simp add: hook_heartbeat_def andthen_def attempt_def)

lemma heartbeat_error_answered_witness:
  "hook_heartbeat (table_codec [(\<lparr>ack_code = UNKNOWN_ERROR, ack_msg = Some []\<rparr>, [2])]) sample_codec
      sample_protocol \<lparr>nm_node_id = [], nm_remote_addr = sample_addr, nm_as_client = True\<rparr> (stream_of [67]) =
    (Inr (), (stream_of [])\<lparr>tx := small_frame Method_Heartbeat OPTION_ERROR 2\<rparr>)"
  using heartbeat_error_answered[where e = "QuicReadExactError []" and s = "stream_of [67]" and t = "stream_of []"
      and bc = sample_codec and p = sample_protocol
      and ac = "table_codec [(\<lparr>ack_code = UNKNOWN_ERROR, ack_msg = Some []\<rparr>, [2])]",
      OF _ _ small_framed[of _ _ 2]]
  by (simp add: handle_heartbeat_def read_message_def andthen_def read_exact_def HEADER_SIZE_def
      table_codec_def stream_of_def)

end
