(* ===== verification/Crab_Dispatch.thy ===== *)
theory Crab_Dispatch
  imports Crab_Commands Crab_Forward Crab_Http Crab_Hook
begin

text \<open>
  \<^verbatim>\<open>src/src/app/protocol/types.rs\<close> (\<open>Command::handle\<close>), \<^verbatim>\<open>proto.rs\<close> (\<open>handle_command\<close>) and
  \<^verbatim>\<open>src/src/app/protocol/base.rs\<close>: the dispatch of a command to its handler on the node that
  received it, and the calls of the node that sends it.

  What the handlers ask of the system and of the libraries is the record \<open>services\<close>; where a
  handler races against its cancellation token, \<open>stops\<close> says when the token wins.
\<close>

record 'req services =
  sv_ack :: "ack_message codec"
  sv_metadata :: "file_metadata codec"
  sv_entries :: "dir_entry list codec"
  sv_response :: "http_response codec"
  sv_addr :: "socket_addr codec"
  sv_drives :: "u32 option"
  sv_lookup :: lookup_fn
  sv_net :: tcp_net
  sv_bind :: "socket_addr \<Rightarrow> ext_error + socket_addr"
  sv_datagram :: "bytes \<Rightarrow> socket_addr \<Rightarrow> crab_error + nat"
  sv_incoming :: "(ext_error + socket_addr \<times> bytes) list"
  sv_build :: "string \<Rightarrow> headers \<Rightarrow> string \<Rightarrow> 'req option"
  sv_perform :: "'req \<Rightarrow> bytes \<Rightarrow> bool \<Rightarrow> ext_error + received_body raw_response"

record stops =
  st_file :: token
  st_relay :: "(nat \<times> nat) option"
  st_udp :: bool
  st_request :: bool
  st_body :: "nat option"

section \<open>The node that receives a command\<close>

definition command_handle ::
  "'req services \<Rightarrow> stops \<Rightarrow> command \<Rightarrow> message_header \<Rightarrow> ('z, unit) wprog" where
  "command_handle sv st cmd h =
    (case cmd of
       Command_Ping \<Rightarrow> ping_handle (sv_ack sv) h
     | Command_Delete d \<Rightarrow> delete_handle (sv_ack sv) d h
     | Command_ReadFile r \<Rightarrow> read_file_handle (sv_ack sv) (sv_metadata sv) (st_file st) r h
     | Command_WriteFile f \<Rightarrow> write_file_handle (sv_ack sv) (st_file st) f h
     | Command_ListDir p \<Rightarrow> dir_handle (sv_ack sv) (sv_entries sv) (sv_drives sv) p h
     | Command_HttpProxy q \<Rightarrow>
         http_proxy_handle (sv_ack sv) (sv_response sv) (sv_build sv) (sv_perform sv)
           (st_request st) (st_body st) q h
     | Command_TcpForward t \<Rightarrow>
         (\<lambda>w. case tcp_forward_handle (sv_ack sv) (sv_addr sv) (sv_lookup sv) (sv_net sv) (st_relay st) t h w of
                (r, w', _) \<Rightarrow> (r, w'))
     | Command_UdpForward via \<Rightarrow>
         udp_forward_handle (sv_ack sv) (sv_addr sv) (sv_bind sv)
           (udp_relay (sv_lookup sv) (sv_datagram sv) (sv_incoming sv) (st_udp st)) via h)"

text \<open>A stream that the peer opened for a command: \<open>handle_stream\<close> with \<open>handle_command\<close>.\<close>

definition app_handle_command ::
  "'req services \<Rightarrow> stops \<Rightarrow> node_metadata \<Rightarrow> message_header \<times> command \<Rightarrow> ('z, unit) wprog" where
  "app_handle_command sv st meta = (\<lambda>(h, cmd). command_handle sv st cmd h)"

definition serve_stream ::
  "'req services \<Rightarrow> command codec \<Rightarrow> stops \<Rightarrow> node_metadata \<Rightarrow> ('z, unit) wprog" where
  "serve_stream sv cc st meta = hook_handle_stream (sv_ack sv) cc (app_handle_command sv st) meta"

section \<open>The node that sends a command\<close>

definition client_ping ::
  "ack_message codec \<Rightarrow> command codec \<Rightarrow> bool \<Rightarrow> crab_error + 'z stream_scheme \<Rightarrow> crab_error + unit" where
  "client_ping ac cc queued opened =
    handle_exec ac cc queued opened None Command_Ping (\<lambda>_. ret ())"

definition client_delete ::
  "ack_message codec \<Rightarrow> command codec \<Rightarrow> bool \<Rightarrow> crab_error + 'z stream_scheme
    \<Rightarrow> string \<Rightarrow> bool \<Rightarrow> crab_error + unit" where
  "client_delete ac cc queued opened p dir =
    handle_exec ac cc queued opened None (Command_Delete \<lparr>dc_path = p, dc_dir = dir\<rparr>) (\<lambda>_. ret ())"

definition client_read_dir ::
  "ack_message codec \<Rightarrow> command codec \<Rightarrow> dir_entry list codec \<Rightarrow> bool
    \<Rightarrow> crab_error + 'z stream_scheme \<Rightarrow> string \<Rightarrow> crab_error + dir_entry list" where
  "client_read_dir ac cc dc queued opened p =
    map_sum id snd (handle_exec ac cc queued opened None (Command_ListDir p) (\<lambda>_. read_message ac dc))"

definition client_read_file ::
  "ack_message codec \<Rightarrow> command codec \<Rightarrow> file_metadata codec \<Rightarrow> bool
    \<Rightarrow> crab_error + 'z stream_scheme \<Rightarrow> token \<Rightarrow> string
    \<Rightarrow> (file_metadata \<Rightarrow> (crab_error + ('z, unit) executor) option) \<Rightarrow> crab_error + file_metadata" where
  "client_read_file ac cc mc queued opened tok filename decide =
    handle_exec_ack ac cc mc queued opened tok (Command_ReadFile \<lparr>rf_path = filename\<rparr>) decide"

definition client_write_file ::
  "ack_message codec \<Rightarrow> command codec \<Rightarrow> bool \<Rightarrow> crab_error + 'z stream_scheme \<Rightarrow> token \<Rightarrow> write_file
    \<Rightarrow> (crab_error + ('z, unit) executor) option \<Rightarrow> crab_error + unit" where
  "client_write_file ac cc queued opened tok cmd decision =
    map_sum id (\<lambda>_. ())
      (handle_exec_ack ac cc ac queued opened tok (Command_WriteFile cmd) (\<lambda>_. decision))"

section \<open>Lemmas\<close>

text \<open>A command on the wire reaches its handler.\<close>

lemma serve_stream_command:
  assumes "codec_ok cc" "framed cc Method_Command OPTION_NONE cmd b" "rx w = b @ rest"
  shows "serve_stream sv cc st meta w =
    command_handle sv st cmd (head_of Method_Command OPTION_NONE b) (w\<lparr>rx := rest\<rparr>)"
  by (simp add: serve_stream_def hook_handle_stream_def app_handle_command_def andthen_def
      read_message_ok[OF assms(1,2) option_none_ok, where rest = rest] assms(3))

text \<open>What a job answers on a stream that is up.\<close>

lemma handle_exec_up:
  assumes "framed cc Method_Command OPTION_NONE cmd b" "tx_cap s = None"
  shows "handle_exec ac cc True (Inr s) tok cmd callback =
    fst (andthen (read_ack ac) (\<lambda>_. callback tok) (s\<lparr>tx := tx s @ b\<rparr>))"
proof -
  have "write_message cc Method_Command OPTION_NONE cmd s = (Inr (), s\<lparr>tx := tx s @ b\<rparr>)"
    by (rule write_message_up[OF assms])
  then show ?thesis
    by (auto simp: handle_exec_def await_answer_def async_job_execute_def andthen_def attempt_def
        split: prod.splits sum.splits)
qed

lemma handle_exec_ack_up:
  assumes "framed cc Method_Command OPTION_NONE cmd b" "tx_cap s = None"
  shows "handle_exec_ack ac cc ci True (Inr s) tok cmd decide =
    map_sum id snd (fst (andthen (read_ack ac) (\<lambda>_. read_message ac ci) (s\<lparr>tx := tx s @ b\<rparr>)))"
proof -
  have "snd (snd (multi_stage_execute ac cc ci cmd decide tok (s, Os_open))) =
      Os_value (exec_ack_answer ac cc ci cmd s)"
    by (rule multi_stage_answer)
  then show ?thesis
    by (simp add: handle_exec_ack_def await_answer_run exec_ack_answer_def andthen_def
        write_message_up[OF assms] split: prod.splits)
qed

text \<open>A simple command answers with an acknowledgement and then its response or the error.\<close>

lemma simple_handle_up:
  fixes w :: "'z stream_scheme"
  assumes "framed ac me op ack_success k"
    and "make_response (w\<lparr>tx := tx w @ k\<rparr>) = (r, w')" "tx w' = tx w @ k" "tx_cap w' = None"
    and "mh_method h = me" "mh_option h = op" "tx_cap w = None"
    and "case r of Inr resp \<Rightarrow> framed rc me op resp b
         | Inl e \<Rightarrow> framed ac me (op OR OPTION_ERROR) (ack_from_error e) b"
  shows "simple_handle ac rc make_response h w = (Inr (), w'\<lparr>tx := tx w @ k @ b\<rparr>)"
proof (cases r)
  case (Inl e)
  with assms show ?thesis
    by (simp add: simple_handle_def answer_def answer_error_def andthen_def attempt_def
        write_message_up[OF assms(1)] write_error_up[where bs = b])
next
  case (Inr resp)
  with assms show ?thesis
    by (simp add: simple_handle_def answer_def answer_error_def andthen_def attempt_def
        write_message_up[OF assms(1)] write_message_up[where bs = b])
qed

text \<open>
  A file is read in two phases: the metadata, then, acknowledged by the peer, the contents
  or the error of opening.
\<close>

lemma serve_read_file:
  fixes w :: "'z world_scheme"
  assumes "codec_ok (sv_ack sv)" "codec_ok cc"
    and "framed cc Method_Command OPTION_NONE (Command_ReadFile \<lparr>rf_path = p\<rparr>) b"
    and "framed (sv_ack sv) Method_Command OPTION_NONE ack_success k"
    and "framed (sv_metadata sv) Method_Command OPTION_NONE metadata d"
    and "metadata_of (components p) (w_fs w) = (Inr metadata, w_fs w)"
    and "open_file (components p) (w_fs w) = (opened, w_fs w)"
    and "case opened of
           Inr (File bs) \<Rightarrow> m = k \<and> body = bs
         | Inr Dir \<Rightarrow> False
         | Inl e \<Rightarrow> framed (sv_ack sv) Method_Command OPTION_ERROR (ack_from_error e) m \<and> body = []"
    and "st_file st = None" "rx w = b @ k" "tx w = []" "tx_cap w = None"
  shows "\<exists>w'. serve_stream sv cc st meta w = (Inr (), w') \<and> w_fs w' = w_fs w \<and> tx w' = k @ d @ m @ body"
proof -
  let ?h = "head_of Method_Command OPTION_NONE b"
  let ?w = "w\<lparr>rx := k\<rparr>"
  note k = write_message_up[OF assms(4)] and d = write_message_up[OF assms(5)]
  have start: "serve_stream sv cc st meta w =
      read_file_handle (sv_ack sv) (sv_metadata sv) None \<lparr>rf_path = p\<rparr> ?h ?w"
    using assms(9) by (simp add: serve_stream_command[OF assms(2,3,10)] command_handle_def)
  have ack: "read_ack (sv_ack sv) (w\<lparr>rx := k, tx := k @ d\<rparr>) = (Inr (), w\<lparr>rx := [], tx := k @ d\<rparr>)"
    using read_ack_ok[OF assms(1,4) option_none_ok, of "w\<lparr>rx := k, tx := k @ d\<rparr>" "[]"] by simp
  note run = start read_file_handle_def Let_def andthen_def attempt_def answer_def answer_error_def k d ack
    on_fs_apply assms(6,7,11,12)
  show ?thesis
  proof (cases opened)
    case (Inl e)
    with assms(8) have m: "framed (sv_ack sv) Method_Command OPTION_ERROR (ack_from_error e) m" "body = []" by simp_all
    have "write_error (sv_ack sv) Method_Command OPTION_NONE e (w\<lparr>rx := [], tx := k @ d\<rparr>) =
        (Inr (), w\<lparr>rx := [], tx := k @ d @ m\<rparr>)"
      using m(1) assms(12) by (simp add: write_error_up)
    with Inl m(2) show ?thesis by (simp add: run)
  next
    case (Inr node)
    with assms(8) obtain bs where "node = File bs" "m = k" "body = bs" by (cases node) simp_all
    with Inr show ?thesis by (simp add: run send_contents_def copy_to_stream_up)
  qed
qed

text \<open>A deletion is acknowledged, carried out and answered with its outcome.\<close>

lemma serve_delete:
  assumes "codec_ok (sv_ack sv)" "codec_ok cc"
    and "framed cc Method_Command OPTION_NONE (Command_Delete \<lparr>dc_path = p, dc_dir = dir\<rparr>) b"
    and "framed (sv_ack sv) Method_Command OPTION_NONE ack_success k"
    and "(if dir then remove_dir_all (components p) else remove_file (components p)) (w_fs w) = (outcome, f)"
    and "framed (sv_ack sv) Method_Command OPTION_NONE (ack_from_result outcome) d"
    and "rx w = b @ rest" "tx w = []" "tx_cap w = None"
  shows "serve_stream sv cc st meta w = (Inr (), w\<lparr>rx := rest, w_fs := f, tx := k @ d\<rparr>)"
proof -
  let ?h = "head_of Method_Command OPTION_NONE b"
  let ?w = "w\<lparr>rx := rest\<rparr>"
  have "serve_stream sv cc st meta w =
      simple_handle (sv_ack sv) (sv_ack sv) (delete_make_response \<lparr>dc_path = p, dc_dir = dir\<rparr>) ?h ?w"
    by (simp add: serve_stream_command[OF assms(2,3,7)] command_handle_def delete_handle_def)
  also have "\<dots> = (Inr (), (?w\<lparr>w_fs := f, tx := tx ?w @ k\<rparr>)\<lparr>tx := tx ?w @ k @ d\<rparr>)"
  proof (rule simple_handle_up[OF assms(4)])
    show "delete_make_response \<lparr>dc_path = p, dc_dir = dir\<rparr> (?w\<lparr>tx := tx ?w @ k\<rparr>) =
        (Inr (ack_from_result outcome), ?w\<lparr>w_fs := f, tx := tx ?w @ k\<rparr>)"
      using assms(5)
      by (auto simp: delete_make_response_def andthen_def attempt_def on_fs_apply split: if_splits)
  qed (use assms(6,9) in simp_all)
  also have "\<dots> = (Inr (), ?w\<lparr>w_fs := f, tx := k @ d\<rparr>)" using assms(8) by simp
  finally show ?thesis .
qed

section \<open>Concrete values\<close>

definition sample_caller :: node_metadata where
  "sample_caller = \<lparr>nm_node_id = ''p'', nm_remote_addr = sample_addr, nm_as_client = True\<rparr>"

section \<open>Properties\<close>

text \<open>
  Deleting on a node always reports success once the node has taken the command.  The
  node removes what it was asked to remove, or fails to, and sends the outcome; but the
  caller stops at the acknowledgement of the command and returns \<open>Ok\<close> without reading it.
\<close>

lemma delete_outcome_ignored:
  assumes "codec_ok (sv_ack sv)" "codec_ok cc"
    and "framed cc Method_Command OPTION_NONE (Command_Delete \<lparr>dc_path = p, dc_dir = dir\<rparr>) b"
    and "framed (sv_ack sv) Method_Command OPTION_NONE ack_success k"
    and "(if dir then remove_dir_all (components p) else remove_file (components p)) (w_fs w) = (outcome, f)"
    and "framed (sv_ack sv) Method_Command OPTION_NONE (ack_from_result outcome) d"
    and "rx w = b @ rest" "tx w = []" "tx_cap w = None"
  shows "\<exists>w'. serve_stream sv cc st meta w = (Inr (), w') \<and> w_fs w' = f \<and>
    (\<forall>s. tx_cap s = None \<and> rx s = tx w' \<longrightarrow>
       client_delete (sv_ack sv) cc True (Inr (s :: 'z stream_scheme)) p dir = Inr ())"
proof -
  have run: "serve_stream sv cc st meta w = (Inr (), w\<lparr>rx := rest, w_fs := f, tx := k @ d\<rparr>)"
    by (rule serve_delete[OF assms])
  have "client_delete (sv_ack sv) cc True (Inr s) p dir = Inr ()"
    if "tx_cap s = None" "rx s = k @ d" for s :: "'z stream_scheme"
    using that
    by (simp add: client_delete_def handle_exec_up[OF assms(3)] andthen_def
        read_ack_ok[OF assms(1,4) option_none_ok, where rest = d])
  with run show ?thesis by simp
qed

text \<open>
  Listing a directory works end to end.  The caller gets exactly the entries the node
  found, in order, or an error with the number of the node's error; the node's file system
  is unchanged.
\<close>

lemma read_dir_exact:
  assumes "codec_ok (sv_ack sv)" "codec_ok (sv_entries sv)" "codec_ok cc"
    and "framed cc Method_Command OPTION_NONE (Command_ListDir p) b"
    and "framed (sv_ack sv) Method_Command OPTION_NONE ack_success k"
    and "list_dir (sv_drives sv) p (w_fs w) = (outcome, f)"
    and "case outcome of
           Inr es \<Rightarrow> framed (sv_entries sv) Method_Command OPTION_NONE es d
         | Inl e \<Rightarrow> framed (sv_ack sv) Method_Command (OPTION_NONE OR OPTION_ERROR) (ack_from_error e) d"
    and "rx w = b @ rest" "tx w = []" "tx_cap w = None"
  shows "\<exists>w'. serve_stream sv cc st meta w = (Inr (), w') \<and> w_fs w' = w_fs w \<and>
    (\<forall>s. tx_cap s = None \<and> rx s = tx w' \<longrightarrow>
       client_read_dir (sv_ack sv) cc (sv_entries sv) True (Inr (s :: 'z stream_scheme)) p =
         map_sum (\<lambda>e. ErrorCode (err_no e)) id outcome)"
proof -
  let ?h = "head_of Method_Command OPTION_NONE b"
  let ?w = "w\<lparr>rx := rest\<rparr>"
  have f: "f = w_fs w"
    using assms(6) by (auto simp: list_dir_def read_dir_def split: option.splits if_splits sum.splits)
  have "serve_stream sv cc st meta w =
      simple_handle (sv_ack sv) (sv_entries sv) (on_fs (list_dir (sv_drives sv) p)) ?h ?w"
    by (simp add: serve_stream_command[OF assms(3,4,8)] command_handle_def dir_handle_def)
  also have "\<dots> = (Inr (), ?w\<lparr>tx := k @ d\<rparr>)"
    using simple_handle_up[OF assms(5), where make_response = "on_fs (list_dir (sv_drives sv) p)"
        and w = ?w and h = ?h and r = outcome and w' = "?w\<lparr>tx := k\<rparr>" and rc = "sv_entries sv" and b = d]
      assms(6,7,9,10) f
    by (simp add: on_fs_apply)
  finally have run: "serve_stream sv cc st meta w = (Inr (), ?w\<lparr>tx := k @ d\<rparr>)" .
  have "client_read_dir (sv_ack sv) cc (sv_entries sv) True (Inr s) p =
         map_sum (\<lambda>e. ErrorCode (err_no e)) id outcome"
    if "tx_cap s = None" "rx s = k @ d" for s :: "'z stream_scheme"
  proof -
    let ?s = "s\<lparr>rx := d, tx := tx s @ b\<rparr>"
    have "read_ack (sv_ack sv) (s\<lparr>tx := tx s @ b\<rparr>) = (Inr (), ?s)"
      using that(2) by (simp add: read_ack_ok[OF assms(1,5) option_none_ok, where rest = d])
    moreover have "map_sum id snd (fst (read_message (sv_ack sv) (sv_entries sv) ?s)) =
        map_sum (\<lambda>e. ErrorCode (err_no e)) id outcome"
    proof (cases outcome)
      case (Inl e)
      with assms(7) have "framed (sv_ack sv) Method_Command (OPTION_NONE OR OPTION_ERROR) (ack_from_error e) d"
        by (simp only: sum.case)
      from read_message_err[OF assms(1) this option_error_set, of ?s "[]" "sv_entries sv"] Inl show ?thesis
        by (simp add: ack_from_error_code)
    next
      case (Inr es)
      with assms(7) show ?thesis
        by (simp add: read_message_ok[OF assms(2) _ option_none_ok, where bs = d and rest = "[]"])
    qed
    ultimately show ?thesis
      by (simp add: client_read_dir_def handle_exec_up[OF assms(4) that(1)] andthen_def)
  qed
  with run show ?thesis by simp
qed

text \<open>
  Reading a file works end to end, in both phases.  On a permitted file the node sends
  two acknowledgements, the metadata in between, with the length of the file, and then
  the contents; a caller that takes the metadata and lets an executor read the second
  acknowledgement and the rest gets the metadata and exactly the contents of the file,
  and what it wrote is what the node read.
\<close>

lemma read_file_exact:
  assumes "codec_ok (sv_ack sv)" "codec_ok (sv_metadata sv)" "codec_ok cc"
    and "framed cc Method_Command OPTION_NONE (Command_ReadFile \<lparr>rf_path = p\<rparr>) b"
    and "framed (sv_ack sv) Method_Command OPTION_NONE ack_success k"
    and "framed (sv_metadata sv) Method_Command OPTION_NONE metadata d"
    and "fs_permits (w_fs w)" "stat (w_fs w) (components p) = Some (File bs)"
    and "metadata = \<lparr>fm_filesize = word_of_nat (length bs), fm_dir = False,
           fm_mtime = millis (fst (fs_times (w_fs w) (components p))),
           fm_atime = millis (snd (fs_times (w_fs w) (components p)))\<rparr>"
    and "st_file st = None" "rx w = b @ k" "tx w = []" "tx_cap w = None"
    and "tx_cap s = None" "rx_fin s" "rx s = k @ d @ k @ bs"
    and "fetch = (\<lambda>_. andthen (read_ack (sv_ack sv)) (\<lambda>_. read_to_end))"
  shows "(\<exists>w'. serve_stream sv cc st meta w = (Inr (), w') \<and> w_fs w' = w_fs w \<and> tx w' = rx s) \<and>
    client_read_file (sv_ack sv) cc (sv_metadata sv) True (Inr s) tok p decide = Inr metadata \<and>
    multi_stage_execute (sv_ack sv) cc (sv_metadata sv) (Command_ReadFile \<lparr>rf_path = p\<rparr>)
        (\<lambda>_. Some (Inr fetch)) tok (s, Os_open) =
      (Inr (), s\<lparr>rx := [], tx := tx s @ rx w\<rparr>, Os_value (Inr metadata)) \<and>
    fst (fetch tok (s\<lparr>rx := k @ bs\<rparr>)) = Inr bs"
proof (intro conjI)
  have "metadata_of (components p) (w_fs w) = (Inr metadata, w_fs w)"
    "open_file (components p) (w_fs w) = (Inr (File bs), w_fs w)"
    using assms(7,8) by (simp_all add: assms(9) metadata_of_def open_file_def fs_guard_def fs_permits_def)
  from serve_read_file[OF assms(1,3,4,5,6) this _ assms(10,11,12,13), of k bs]
  show "\<exists>w'. serve_stream sv cc st meta w = (Inr (), w') \<and> w_fs w' = w_fs w \<and> tx w' = rx s"
    using assms(16) by simp
  let ?s = "s\<lparr>tx := tx s @ b\<rparr>"
  have "read_ack (sv_ack sv) ?s = (Inr (), ?s\<lparr>rx := d @ k @ bs\<rparr>)"
    using read_ack_ok[OF assms(1,5) option_none_ok, of ?s "d @ k @ bs"] assms(16) by simp
  then show "client_read_file (sv_ack sv) cc (sv_metadata sv) True (Inr s) tok p decide = Inr metadata"
    by (simp add: client_read_file_def handle_exec_ack_up[OF assms(4,14)] andthen_def
        read_message_ok[OF assms(2,6) option_none_ok, where rest = "k @ bs"])
  have fetch: "fetch tok v = (Inr bs, v\<lparr>rx := []\<rparr>)" if "rx v = k @ bs" "rx_fin v" for v
    using that read_ack_ok[OF assms(1,5) option_none_ok that(1)]
    by (simp add: assms(17) andthen_def read_to_end_def)
  show "multi_stage_execute (sv_ack sv) cc (sv_metadata sv) (Command_ReadFile \<lparr>rf_path = p\<rparr>)
        (\<lambda>_. Some (Inr fetch)) tok (s, Os_open) =
      (Inr (), s\<lparr>rx := [], tx := tx s @ rx w\<rparr>, Os_value (Inr metadata))"
    using multi_stage_run[OF assms(1,2,4,5) option_none_ok assms(6) option_none_ok assms(5) _ assms(16,14),
        of "\<lambda>_. Some (Inr fetch)" "[]" tok] assms(11,15)
    by (simp add: fetch)
  show "fst (fetch tok (s\<lparr>rx := k @ bs\<rparr>)) = Inr bs"
    using assms(15) by (simp add: fetch)
qed

section \<open>Concrete exchanges\<close>

definition sample_services ::
  "ack_message codec \<Rightarrow> file_metadata codec \<Rightarrow> dir_entry list codec \<Rightarrow> unit services" where
  "sample_services ac mc ec =
    \<lparr>sv_ack = ac, sv_metadata = mc, sv_entries = ec, sv_response = table_codec [], sv_addr = table_codec [],
     sv_drives = None, sv_lookup = (\<lambda>_ _. Inr []),
     sv_net = \<lparr>tn_connect = (\<lambda>_ _. Connect_timeout), tn_keepalive = (\<lambda>_. None), tn_nodelay = None,
               tn_local = Inl []\<rparr>,
     sv_bind = (\<lambda>a. Inr a), sv_datagram = (\<lambda>d _. Inr (length d)), sv_incoming = [], sv_build = (\<lambda>_ _ _. None),
     sv_perform = (\<lambda>_ _ _. Inl [])\<rparr>"

lemma sample_services_simps [simp]:
  "sv_ack (sample_services ac mc ec) = ac" "sv_metadata (sample_services ac mc ec) = mc"
  "sv_entries (sample_services ac mc ec) = ec" "sv_drives (sample_services ac mc ec) = None"
  by (simp_all add: sample_services_def)

definition sample_stops :: stops where
  "sample_stops = \<lparr>st_file = None, st_relay = None, st_udp = False, st_request = False, st_body = None\<rparr>"

lemma single_codec_ok: "codec_ok (table_codec [(m, bs)])"
  by (rule table_codec_ok) simp

lemma single_framed: "framed (table_codec [(m, [b])]) me op m (small_frame me op b)"
  by (rule small_framed) (simp add: table_codec_def)

definition sample_ack3 :: "ack_message codec" where
  "sample_ack3 = table_codec [(ack_success, [0]), (ack_from_result (Inl (IO ''os error'')), [3])]"

lemma sample_ack3_facts:
  "codec_ok sample_ack3" "framed sample_ack3 me op ack_success (small_frame me op 0)"
  "framed sample_ack3 me op (ack_from_result (Inl (IO ''os error''))) (small_frame me op 3)"
  unfolding sample_ack3_def
  by (rule table_codec_ok, simp)
    (rule small_framed, simp add: table_codec_def ack_success_def ack_from_result_def error_codes)+

lemma delete_outcome_ignored_witness:
  "\<exists>w'. serve_stream (sample_services sample_ack3 (table_codec []) (table_codec []))
        (table_codec [(Command_Delete \<lparr>dc_path = ''/b'', dc_dir = False\<rparr>, [9])]) sample_stops sample_caller
        (world_of (small_frame Method_Command OPTION_NONE 9) sample_fs) = (Inr (), w') \<and> w_fs w' = sample_fs \<and>
    client_delete sample_ack3 (table_codec [(Command_Delete \<lparr>dc_path = ''/b'', dc_dir = False\<rparr>, [9])]) True
      (Inr (stream_of (tx w'))) ''/b'' False = Inr ()"
proof -
  let ?cc = "table_codec [(Command_Delete \<lparr>dc_path = ''/b'', dc_dir = False\<rparr>, [9])]"
  let ?w = "world_of (small_frame Method_Command OPTION_NONE 9) sample_fs"
  have "(if False then remove_dir_all (components ''/b'') else remove_file (components ''/b'')) (w_fs ?w) =
      (Inl (IO ''os error''), sample_fs)"
    by (simp add: remove_file_def fs_guard_def fs_fail_def stat_def sample_fs_def)
  from delete_outcome_ignored[where sv = "sample_services sample_ack3 (table_codec []) (table_codec [])" and
      cc = ?cc and p = "''/b''" and dir = False and w = ?w and st = sample_stops and meta = sample_caller and
      k = "small_frame Method_Command OPTION_NONE 0" and b = "small_frame Method_Command OPTION_NONE 9" and
      d = "small_frame Method_Command OPTION_NONE 3" and rest = "[]", OF _ single_codec_ok single_framed _ this]
  obtain w' where "serve_stream (sample_services sample_ack3 (table_codec []) (table_codec [])) ?cc sample_stops
      sample_caller ?w = (Inr (), w')" "w_fs w' = sample_fs"
    "\<And>s. tx_cap s = None \<Longrightarrow> rx s = tx w' \<Longrightarrow>
       client_delete sample_ack3 ?cc True (Inr (s :: stream)) ''/b'' False = Inr ()"
    by (auto simp: sample_ack3_facts)
  then show ?thesis by auto
qed

lemma read_dir_exact_witness:
  "\<exists>w'. serve_stream (sample_services sample_ack (table_codec []) (table_codec [([\<lparr>de_name = ''a'', de_dir = False\<rparr>], [4])]))
        (table_codec [(Command_ListDir ''/b'', [9])]) sample_stops sample_caller
        (world_of (small_frame Method_Command OPTION_NONE 9) sample_fs) = (Inr (), w') \<and> w_fs w' = sample_fs \<and>
    client_read_dir sample_ack (table_codec [(Command_ListDir ''/b'', [9])])
      (table_codec [([\<lparr>de_name = ''a'', de_dir = False\<rparr>], [4])]) True (Inr (stream_of (tx w'))) ''/b'' =
    Inr [\<lparr>de_name = ''a'', de_dir = False\<rparr>]"
proof -
  let ?cc = "table_codec [(Command_ListDir ''/b'', [9])]"
  let ?ec = "table_codec [([\<lparr>de_name = ''a'', de_dir = False\<rparr>], [4])]"
  let ?w = "world_of (small_frame Method_Command OPTION_NONE 9) sample_fs"
  have "list_dir None ''/b'' (w_fs ?w) = (Inr [\<lparr>de_name = ''a'', de_dir = False\<rparr>], sample_fs)"
    by (simp add: list_dir_def read_dir_def sample_fs_def)
  then have ls: "list_dir (sv_drives (sample_services sample_ack (table_codec []) ?ec)) ''/b'' (w_fs ?w) =
      (Inr [\<lparr>de_name = ''a'', de_dir = False\<rparr>], sample_fs)" by simp
  from read_dir_exact[where w = ?w and st = sample_stops and meta = sample_caller and
      k = "small_frame Method_Command OPTION_NONE 0" and b = "small_frame Method_Command OPTION_NONE 9" and
      d = "small_frame Method_Command OPTION_NONE 4" and rest = "[]", OF _ _ single_codec_ok single_framed _ ls]
  obtain w' where "serve_stream (sample_services sample_ack (table_codec []) ?ec) ?cc sample_stops sample_caller ?w =
      (Inr (), w')" "w_fs w' = sample_fs"
    "\<And>s. tx_cap s = None \<Longrightarrow> rx s = tx w' \<Longrightarrow>
       client_read_dir sample_ack ?cc ?ec True (Inr (s :: stream)) ''/b'' = Inr [\<lparr>de_name = ''a'', de_dir = False\<rparr>]"
    by (auto simp: sample_ack_facts sample_ack_framed single_codec_ok single_framed)
  then show ?thesis by auto
qed

definition sample_metadata :: file_metadata where
  "sample_metadata = \<lparr>fm_filesize = 1, fm_dir = False, fm_mtime = 0, fm_atime = 1\<rparr>"

lemma read_file_exact_witness:
  "client_read_file sample_ack (table_codec [(Command_ReadFile \<lparr>rf_path = ''/a''\<rparr>, [9])])
     (table_codec [(sample_metadata, [5])]) True
     (Inr (stream_of (ack_frame @ small_frame Method_Command OPTION_NONE 5 @ ack_frame @ [1]))) None ''/a'' (\<lambda>_. None) =
   Inr sample_metadata"
  using read_file_exact[of "sample_services sample_ack (table_codec [(sample_metadata, [5])]) (table_codec [])"
      "table_codec [(Command_ReadFile \<lparr>rf_path = ''/a''\<rparr>, [9])]" "''/a''"
      "small_frame Method_Command OPTION_NONE 9" ack_frame sample_metadata "small_frame Method_Command OPTION_NONE 5"
      "world_of (small_frame Method_Command OPTION_NONE 9 @ ack_frame) sample_fs" "[1]" sample_stops
      "stream_of (ack_frame @ small_frame Method_Command OPTION_NONE 5 @ ack_frame @ [1])" _
      "sample_caller" None "\<lambda>_. None", OF _ _ _ _ _ _ _ _ _ _ _ _ _ _ _ _ refl]
  by (simp add: sample_ack_facts sample_ack_framed single_codec_ok single_framed sample_stops_def
      stat_def sample_metadata_def millis_def sample_fs_def[THEN arg_cong[of _ _ fs_nodes]]
      sample_fs_def[THEN arg_cong[of _ _ fs_times]])

end
