(* ===== verification/Crab_Footprint.thy ===== *)
theory Crab_Footprint
  imports Crab_Dispatch
begin

text \<open>
  What a command may do to a node.  \<open>command_allows\<close> is the specification: for each command
  the paths it may change and how.  The handlers of \<^verbatim>\<open>src/src/app/protocol/commands.rs\<close>, of
  the forwarders and of the proxy, as \<open>serve_stream\<close> dispatches to them, are shown to stay
  within it, whatever the stream, the token, the file system and the services do.
\<close>

named_theorems frame_rules \<open>programs that do what a command allows\<close>

section \<open>What a command may change\<close>

text \<open>
  The state of a path before and after.  A deletion removes the path, and all below it if
  asked for a directory, and never removes a directory otherwise.  A write creates, fills
  or removes the target and its temporary file, neither of which was or becomes a
  directory, and with \<open>mkdir\<close> creates missing directories above the target.
\<close>

definition command_allows :: "command \<Rightarrow> path \<Rightarrow> fnode option \<Rightarrow> fnode option \<Rightarrow> bool" where
  "command_allows cmd q old new \<longleftrightarrow> new = old \<or>
    (case cmd of
       Command_Delete d \<Rightarrow>
         new = None \<and>
         (if dc_dir d then take (length (components (dc_path d))) q = components (dc_path d)
          else q = components (dc_path d) \<and> old \<noteq> Some Dir)
     | Command_WriteFile f \<Rightarrow>
         (q = components (wf_path f) \<or> temp_path (components (wf_path f)) = Some q)
           \<and> old \<noteq> Some Dir \<and> new \<noteq> Some Dir
         \<or> wf_mkdir f \<and> length q < length (components (wf_path f))
           \<and> take (length q) (components (wf_path f)) = q \<and> old = None \<and> new = Some Dir
     | _ \<Rightarrow> False)"

definition within :: "command \<Rightarrow> 'z world_scheme \<Rightarrow> 'z world_scheme \<Rightarrow> bool" where
  "within cmd s t \<longleftrightarrow> (\<exists>out. tx t = tx s @ out) \<and>
    (\<forall>q. command_allows cmd q (stat (w_fs s) q) (stat (w_fs t) q))"

lemma command_allows_refl [simp]: "command_allows cmd q n n"
  by (simp add: command_allows_def)

lemma command_allows_trans:
  "command_allows cmd q a b \<Longrightarrow> command_allows cmd q b c \<Longrightarrow> command_allows cmd q a c"
  by (cases cmd) (auto simp: command_allows_def temp_path_Some split: if_splits)

interpretation effect: kept_relation "within cmd" for cmd :: command
proof unfold_locales
  fix s t u :: "'a world_scheme"
  show "within cmd s s" by (simp add: within_def)
  assume "within cmd s t" "within cmd t u"
  then show "within cmd s u"
    unfolding within_def by (fastforce intro: command_allows_trans)
qed

lemmas [frame_rules] = effect.rules
declare effect.rel_refl [simp]

text \<open>Steps on the stream alone.\<close>

lemma within_stream:
  "w_fs t = w_fs s \<Longrightarrow> tx t = tx s @ out \<Longrightarrow> within cmd s t"
  by (auto simp: within_def)

lemma within_rx [simp]: "within cmd s (s\<lparr>rx := bs\<rparr>)"
  by (rule within_stream[where out = "[]"]) simp_all

lemma write_bytes_within: "write_bytes mk bs s = (r, t) \<Longrightarrow> within cmd s t"
  using write_bytes_prefix[of mk bs s r t] write_bytes_fs[of mk bs s r t] within_stream by blast

lemma keeps_write_bytes [frame_rules]: "keeps (within cmd) (write_bytes mk bs) (\<lambda>_. True)"
  by (rule keepsI) (rule write_bytes_within)

lemma keeps_read_exact [frame_rules]: "keeps (within cmd) (read_exact n) (\<lambda>_. True)"
  by (rule keepsI, rule within_stream[where out = "[]"]) (auto simp: read_exact_def split: if_splits)

lemma keeps_read_to_end [frame_rules]: "keeps (within cmd) read_to_end (\<lambda>_. True)"
  by (rule keepsI, rule within_stream[where out = "[]"]) (auto simp: read_to_end_def split: if_splits)

lemma keeps_write_message [frame_rules]: "keeps (within cmd) (write_message c me op m) (\<lambda>_. True)"
  unfolding write_message_def write_all_def by (auto intro!: frame_rules split: option.split)

lemma keeps_read_message [frame_rules]: "keeps (within cmd) (read_message ac c) (\<lambda>_. True)"
  unfolding read_message_def by (auto intro!: frame_rules split: option.split)

lemma keeps_read_ack [frame_rules]: "keeps (within cmd) (read_ack ac) (\<lambda>_. True)"
  unfolding read_ack_def by (auto intro!: frame_rules)

lemma keeps_answers [frame_rules]:
  "keeps (within cmd) (answer c h m) (\<lambda>_. True)" "keeps (within cmd) (answer_error ac h e) (\<lambda>_. True)"
  "keeps (within cmd) (write_error ac me op e) (\<lambda>_. True)"
  "keeps (within cmd) (copy_to_stream bs) (\<lambda>_. True)"
  unfolding answer_def answer_error_def write_error_def copy_to_stream_def by (rule frame_rules)+

lemma copy_within [simp]: "within cmd s (snd (copy_to_stream bs s))"
  unfolding copy_to_stream_def by (rule write_bytes_within[OF prod.collapse[symmetric]])

text \<open>Steps on the file system: looking never changes it.\<close>

lemma keeps_on_fs:
  assumes "\<And>f r g. m f = (r, g) \<Longrightarrow> (\<forall>q. command_allows cmd q (stat f q) (stat g q)) \<and> (\<forall>a. r = Inr a \<longrightarrow> Q a)"
  shows "keeps (within cmd) (on_fs m) Q"
  using assms by (auto simp: keeps_def within_def on_fs_run)

lemma keeps_looking [frame_rules]:
  "keeps (within cmd) (on_fs (try_exists p)) (\<lambda>_. True)" "keeps (within cmd) (on_fs (is_dir_at p)) (\<lambda>_. True)"
  "keeps (within cmd) (on_fs (open_file p)) (\<lambda>_. True)" "keeps (within cmd) (on_fs (metadata_of p)) (\<lambda>_. True)"
  "keeps (within cmd) (on_fs (list_dir windows d)) (\<lambda>_. True)"
  by (rule keeps_on_fs, auto simp: fs_op_defs metadata_of_def list_dir_def read_dir_def fs_guard_def
      split: if_splits option.splits sum.splits)+

section \<open>The handlers\<close>

lemma keeps_simple [frame_rules]:
  "keeps (within cmd) make_response (\<lambda>_. True) \<Longrightarrow>
    keeps (within cmd) (simple_handle ac rc make_response h) (\<lambda>_. True)"
  unfolding simple_handle_def by (auto intro!: frame_rules split: sum.split)

lemma keeps_read_file: "keeps (within cmd) (read_file_handle ac mc tok r h) (\<lambda>_. True)"
proof -
  have "keeps (within cmd) (send_contents tok p node) (\<lambda>_. True)" for p node
    by (auto intro!: keepsI effect.rel_refl simp: send_contents_def prod_eq_iff
        split: fnode.splits option.splits)
  then show ?thesis
    unfolding read_file_handle_def Let_def by (auto intro!: frame_rules split: sum.split)
qed

lemma remove_allowed:
  assumes "(if dc_dir d then remove_dir_all (components (dc_path d)) else remove_file (components (dc_path d))) f = (r, g)"
  shows "command_allows (Command_Delete d) q (stat f q) (stat g q)"
  using assms
  by (auto simp: fs_op_defs fs_guard_def command_allows_def stat_def
      split: if_splits option.splits fnode.splits)

lemma keeps_delete: "keeps (within (Command_Delete d)) (delete_handle ac d h) (\<lambda>_. True)"
proof -
  have "keeps (within (Command_Delete d))
      (on_fs (if dc_dir d then remove_dir_all (components (dc_path d)) else remove_file (components (dc_path d))))
      (\<lambda>_. True)"
    by (rule keeps_on_fs) (use remove_allowed in blast)
  then show ?thesis
    unfolding delete_handle_def delete_make_response_def by (intro frame_rules)
qed

text \<open>A write: the temporary file, then its contents, then the target.\<close>

lemma made_allowed:
  "dirs_made (components (wf_path cmd)) (wf_mkdir cmd) f g \<Longrightarrow>
    command_allows (Command_WriteFile cmd) q (stat f q) (stat g q)"
  by (auto simp: dirs_made_def command_allows_def)

lemma keeps_create_temp:
  "keeps (within (Command_WriteFile cmd)) (create_temp_file cmd) (\<lambda>t. temp_path (components (wf_path cmd)) = Some t)"
proof -
  have path: "keeps (within (Command_WriteFile cmd)) (on_fs (generate_temp_path (wf_path cmd) (wf_mkdir cmd)))
      (\<lambda>t. temp_path (components (wf_path cmd)) = Some t)"
  proof (rule keeps_on_fs, intro conjI allI impI)
    fix f r g q assume run: "generate_temp_path (wf_path cmd) (wf_mkdir cmd) f = (r, g)"
    show "command_allows (Command_WriteFile cmd) q (stat f q) (stat g q)"
      by (rule made_allowed[OF generate_temp_path_made[OF run]])
  qed (auto dest: generate_temp_path_ok)
  have "keeps (within (Command_WriteFile cmd)) (on_fs (create_file t)) (\<lambda>_. True)"
    if "temp_path (components (wf_path cmd)) = Some t" for t
    by (rule keeps_on_fs) (use that in \<open>auto simp: create_file_def fs_guard_def command_allows_def stat_def split: if_splits\<close>)
  then show ?thesis
    unfolding create_temp_file_def
    by (auto intro!: effect.keeps_bind[OF path] effect.keeps_seq effect.keeps_ret)
qed

lemma write_allowed:
  assumes "temp_path (components (wf_path cmd)) = Some t"
  shows "keeps (within (Command_WriteFile cmd)) (on_fs (write_contents t bs)) (\<lambda>_. True)"
    and "keeps (within (Command_WriteFile cmd)) (on_fs (rename t (components (wf_path cmd)))) (\<lambda>_. True)"
    and "keeps (within (Command_WriteFile cmd)) (on_fs (remove_file t)) (\<lambda>_. True)"
proof -
  have regular: "stat f q \<noteq> Some Dir" if "case stat f q of Some (File _) \<Rightarrow> True | _ \<Rightarrow> False" for f q
    using that by (auto split: option.splits fnode.splits)
  show "keeps (within (Command_WriteFile cmd)) (on_fs (write_contents t bs)) (\<lambda>_. True)"
    by (rule keeps_on_fs) (use assms in \<open>auto simp: write_contents_def fs_guard_def command_allows_def stat_def
      split: if_splits option.splits fnode.splits\<close>)
  show "keeps (within (Command_WriteFile cmd)) (on_fs (rename t (components (wf_path cmd)))) (\<lambda>_. True)"
    by (rule keeps_on_fs) (use assms in \<open>auto simp: rename_def fs_guard_def command_allows_def stat_def
      dest: regular split: if_splits\<close>)
  show "keeps (within (Command_WriteFile cmd)) (on_fs (remove_file t)) (\<lambda>_. True)"
    by (rule keeps_on_fs) (use assms in \<open>auto simp: remove_file_def fs_guard_def command_allows_def stat_def
      dest: regular split: if_splits\<close>)
qed

lemma keeps_receive:
  assumes "temp_path (components (wf_path cmd)) = Some t"
  shows "keeps (within (Command_WriteFile cmd)) (receive_contents tok t) (\<lambda>_. True)"
proof (rule keepsI)
  fix s u :: "'a world_scheme" and r assume run: "receive_contents tok t s = (r, u)"
  define m :: "bytes \<Rightarrow> ('a, unit) wprog" where "m got = andthen (if got = [] then ret () else on_fs (write_contents t got)) (\<lambda>_.
       case tok of
         Some _ \<Rightarrow> throw (ErrorCode CANCELED_ERROR)
       | None \<Rightarrow> if rx_fin s then ret () else throw (IO (rx_err s)))" for got
  have "keeps (within (Command_WriteFile cmd)) (m got) (\<lambda>_. True)" for got
    unfolding m_def by (auto intro!: frame_rules write_allowed(1)[OF assms] split: option.split)
  moreover define x where "x = (case tok of Some n \<Rightarrow> (take n (rx s), drop n (rx s)) | None \<Rightarrow> (rx s, []))"
  have "m (fst x) (s\<lparr>rx := snd x\<rparr>) = (r, u)"
    using run unfolding receive_contents_def m_def x_def[symmetric] by (simp add: case_prod_beta)
  ultimately show "within (Command_WriteFile cmd) s u"
    by (blast intro: effect.rel_trans within_rx keepsD)
qed

lemma keeps_write_file: "keeps (within (Command_WriteFile f)) (write_file_handle ac tok f h) (\<lambda>_. True)"
proof -
  have check: "keeps (within (Command_WriteFile f)) (write_check f copied) (\<lambda>_. True)" for copied
    unfolding write_check_def by (auto intro!: frame_rules split: sum.split)
  have receive: "keeps (within (Command_WriteFile f)) (write_receive ac tok f h t) (\<lambda>_. True)"
    if "temp_path (components (wf_path f)) = Some t" for t
    unfolding write_receive_def write_publish_def write_cleanup_def
    by (auto intro!: frame_rules check keeps_receive[OF that] write_allowed[OF that]
        split: sum.split)
  have made: "keeps (within (Command_WriteFile f)) (attempt (create_temp_file f))
      (\<lambda>r. \<forall>t. r = Inr t \<longrightarrow> temp_path (components (wf_path f)) = Some t)"
    by (rule effect.keeps_attempt[OF keeps_create_temp])
  show ?thesis
    unfolding write_file_handle_def
    by (rule effect.keeps_seq[OF keeps_answers(1)], rule effect.keeps_bind[OF made])
      (auto intro!: frame_rules receive split: sum.split)
qed

text \<open>The forwarders and the proxy work on the stream only.\<close>

lemma keeps_send_received [frame_rules]: "keeps (within cmd) (send_received body) (\<lambda>_. True)"
  unfolding send_received_def by (auto intro!: frame_rules split: option.split)

lemma keeps_http: "keeps (within cmd) (http_proxy_handle ac rc build perform cr cb q h) (\<lambda>_. True)"
proof -
  have taken: "keeps (within cmd) f (\<lambda>_. True)"
    if run: "\<And>s. \<exists>m. keeps (within cmd) m (\<lambda>_. True) \<and> f s = m (s\<lparr>rx := []\<rparr>)"
    for f :: "'a world_scheme \<Rightarrow> (crab_error + unit) \<times> 'a world_scheme"
  proof (rule keepsI)
    fix s r t assume "f s = (r, t)"
    moreover obtain m where "keeps (within cmd) m (\<lambda>_. True)" "f s = m (s\<lparr>rx := []\<rparr>)" using run by blast
    ultimately show "within cmd s t" by (metis effect.rel_trans keepsD within_rx)
  qed
  have at: "\<exists>m'. keeps (within cmd) m' (\<lambda>_. True) \<and> m s = m' s"
    if "keeps (within cmd) m (\<lambda>_. True)" for m :: "'a world_scheme \<Rightarrow> (crab_error + unit) \<times> 'a world_scheme" and s
    using that by blast
  show ?thesis
    unfolding http_proxy_handle_def
  proof (rule effect.keeps_seq)
    show "keeps (within cmd)
      (case make_request build q of
         Inl e \<Rightarrow> andthen (write_error ac (mh_method h) (mh_option h) e) (\<lambda>_. throw e)
       | Inr req \<Rightarrow> andthen (write_message ac (mh_method h) (mh_option h) ack_success) (\<lambda>_. ret req)) (\<lambda>_. True)"
      by (auto intro!: frame_rules split: sum.split)
  qed (auto intro!: taken effect.keeps_throw split: sum.split,
       (auto intro!: at frame_rules split: option.split)+)
qed

lemma keeps_packet_send: "keeps (within cmd) (packet_send buf addr) (\<lambda>_. True)"
  unfolding packet_send_def write_all_def Let_def by (intro frame_rules TrueI)

lemmas packet_send_within = keepsD[OF keeps_packet_send]

lemma copy_back_within: "udp_copy_back lookup ds s = (e, t) \<Longrightarrow> within cmd s t"
proof (induction lookup ds s rule: udp_copy_back.induct)
  case (2 lookup d ds s)
  then show ?case
    by (auto split: sum.splits prod.splits dest: packet_send_within[of _ _ _ _ _ cmd] intro: effect.rel_trans)
qed simp

lemma udp_relay_within:
  assumes "udp_relay lookup send back fires s = (r, u)"
  shows "within cmd s u"
proof -
  obtain e t where t: "udp_copy_back lookup back s = (e, t)" by (cases "udp_copy_back lookup back s")
  with assms have "u = t \<or> u = t\<lparr>rx := []\<rparr>" by (auto simp: udp_relay_def split: if_splits option.splits)
  with copy_back_within[OF t, of cmd] show ?thesis
    using effect.rel_trans[OF _ within_rx] by blast
qed

lemma keeps_relay [frame_rules]: "keeps (within cmd) (udp_relay lookup send back fires) (\<lambda>_. True)"
  by (rule keepsI) (rule udp_relay_within)

lemma keeps_udp: "keeps (within cmd) (udp_forward_handle ac sc bind (udp_relay lookup send back fires) via h) (\<lambda>_. True)"
  unfolding udp_forward_handle_def by (auto intro!: frame_rules split: sum.split)

lemma tcp_forward_within:
  assumes "tcp_forward cutoff (q, t) = (r, q', t')"
  shows "within cmd q q'"
proof -
  have "\<exists>n m. q' = snd (copy_to_stream m (q\<lparr>rx := n\<rparr>))"
    using assms unfolding tcp_forward_def copy_into_def Let_def by (auto split: prod.splits)
  then show ?thesis using effect.rel_trans[OF within_rx copy_within] by blast
qed

lemma keeps_tcp_forward [frame_rules]:
  "keeps (within cmd) (\<lambda>s. case tcp_forward cutoff (s, sock) of (r, s', _) \<Rightarrow> (r, s')) (\<lambda>_. True)"
  by (rule keepsI) (auto split: prod.splits dest: tcp_forward_within)

lemma tcp_forward_handle_prog:
  "(\<lambda>w. case tcp_forward_handle ac sc lookup net cutoff req h w of (r, w', _) \<Rightarrow> (r, w')) =
    andthen (write_message ac (mh_method h) (mh_option h) ack_success) (\<lambda>_.
      case tcp_connect lookup net req of
        Inl e \<Rightarrow> andthen (write_error ac (mh_method h) (mh_option h) e) (\<lambda>_. throw e)
      | Inr (sock, addr) \<Rightarrow>
          andthen (write_message sc (mh_method h) (mh_option h) addr) (\<lambda>_.
          andthen (read_ack ac) (\<lambda>_ s. case tcp_forward cutoff (s, sock) of (r, s', _) \<Rightarrow> (r, s'))))"
  by (rule ext) (auto simp: tcp_forward_handle_def andthen_def split: sum.splits prod.splits)

lemma keeps_tcp:
  "keeps (within cmd) (\<lambda>w. case tcp_forward_handle ac sc lookup net cutoff req h w of (r, w', _) \<Rightarrow> (r, w')) (\<lambda>_. True)"
  unfolding tcp_forward_handle_prog by (auto intro!: frame_rules split: sum.split)

lemma command_within:
  assumes "command_handle sv st cmd h w = (r, w')"
  shows "within cmd w w'"
proof -
  have "keeps (within cmd) (command_handle sv st cmd h) (\<lambda>_. True)"
    unfolding command_handle_def ping_handle_def dir_handle_def
    by (cases cmd)
      (auto intro: keeps_answers keeps_delete keeps_read_file keeps_write_file keeps_http keeps_tcp keeps_udp
        keeps_simple keeps_looking)
  with assms show ?thesis by (rule keepsD[rotated])
qed

section \<open>Properties\<close>

text \<open>
  C8: a command touches only what it names.  If no command can be read from a stream, the node
  answers nothing, changes no file and ends with the error of reading.  Otherwise the node
  does nothing to the files but what the command it has read allows: nothing at all for
  \<open>Ping\<close>, the listings, the reads, the forwarders and the proxy; the named path, and the
  tree below it if a directory was asked for, for \<open>Delete\<close>; the target, its temporary file
  and with \<open>mkdir\<close> the missing directories above for \<open>WriteFile\<close>.  It takes back nothing it
  has sent.  This holds for every stream, file system, token and behaviour of the services.
\<close>

theorem files_touched:
  "case serve_stream sv cc st meta w of (r, w') \<Rightarrow>
     (\<exists>sent. tx w' = tx w @ sent) \<and>
     (case fst (read_message (sv_ack sv) cc w) of
        Inl e \<Rightarrow> r = Inl e \<and> tx w' = tx w \<and> w_fs w' = w_fs w
      | Inr (h, cmd) \<Rightarrow>
          \<forall>q. command_allows cmd q (stat (w_fs w) q) (stat (w_fs w') q))"
proof -
  obtain x w1 where 1: "read_message (sv_ack sv) cc w = (x, w1)" by (cases "read_message (sv_ack sv) cc w")
  have same: "w_fs w1 = w_fs w" "tx w1 = tx w"
    using read_message_fs[OF 1] read_message_tx[OF 1] by simp_all
  obtain r w' where run: "serve_stream sv cc st meta w = (r, w')" by (cases "serve_stream sv cc st meta w")
  show ?thesis
  proof (cases x)
    case (Inl e)
    with run 1 same show ?thesis by (simp add: serve_stream_def hook_handle_stream_def andthen_def)
  next
    case (Inr hc)
    obtain h cmd where hc: "hc = (h, cmd)" by (cases hc)
    with run 1 Inr have "command_handle sv st cmd h w1 = (r, w')"
      by (simp add: serve_stream_def hook_handle_stream_def app_handle_command_def andthen_def)
    from command_within[OF this] same run 1 Inr hc show ?thesis by (simp add: within_def)
  qed
qed

end
