(* ===== verification/Crab_Answers.thy ===== *)
theory Crab_Answers
  imports Crab_Footprint
begin

text \<open>
  The types of the conversations.  A caller knows only from the command it has sent how to
  read what comes back: an acknowledgement, then a listing or an error, then perhaps raw
  data.  \<open>answer_shapes\<close> states for each command the sequences of parts a node may answer with,
  as the callers of \<^verbatim>\<open>src/src/app/protocol/base.rs\<close> and the workers expect them; the handlers
  are shown to answer with one of them, all of it when they succeed and a beginning of it
  when they fail, whatever happens to the stream and the services.
\<close>

section \<open>Parts and shapes\<close>

datatype part =
  Pt_ok | Pt_error | Pt_outcome | Pt_metadata | Pt_entries | Pt_address | Pt_response | Pt_data

text \<open>The bytes a part may be: a frame under the header of the command, or data without a frame.\<close>

fun part_bytes :: "'req services \<Rightarrow> message_header \<Rightarrow> part \<Rightarrow> bytes \<Rightarrow> bool" where
  "part_bytes sv h Pt_ok bs \<longleftrightarrow> frame (sv_ack sv) (mh_method h) (mh_option h) ack_success = Some bs"
| "part_bytes sv h Pt_error bs \<longleftrightarrow>
    (\<exists>e. frame (sv_ack sv) (mh_method h) (mh_option h OR OPTION_ERROR) (ack_from_error e) = Some bs)"
| "part_bytes sv h Pt_outcome bs \<longleftrightarrow>
    (\<exists>r. frame (sv_ack sv) (mh_method h) (mh_option h) (ack_from_result r) = Some bs)"
| "part_bytes sv h Pt_metadata bs \<longleftrightarrow> (\<exists>m. frame (sv_metadata sv) (mh_method h) (mh_option h) m = Some bs)"
| "part_bytes sv h Pt_entries bs \<longleftrightarrow> (\<exists>m. frame (sv_entries sv) (mh_method h) (mh_option h) m = Some bs)"
| "part_bytes sv h Pt_address bs \<longleftrightarrow> (\<exists>m. frame (sv_addr sv) (mh_method h) (mh_option h) m = Some bs)"
| "part_bytes sv h Pt_response bs \<longleftrightarrow> (\<exists>m. frame (sv_response sv) (mh_method h) (mh_option h) m = Some bs)"
| "part_bytes sv h Pt_data bs \<longleftrightarrow> True"

definition answer_shapes :: "command \<Rightarrow> part list list" where
  "answer_shapes cmd =
    (case cmd of
       Command_Ping \<Rightarrow> [[Pt_ok]]
     | Command_Delete _ \<Rightarrow> [[Pt_ok, Pt_outcome]]
     | Command_ListDir _ \<Rightarrow> [[Pt_ok, Pt_entries], [Pt_ok, Pt_error]]
     | Command_ReadFile _ \<Rightarrow>
         [[Pt_ok, Pt_error], [Pt_ok, Pt_metadata, Pt_error], [Pt_ok, Pt_metadata, Pt_ok, Pt_data]]
     | Command_WriteFile _ \<Rightarrow> [[Pt_ok, Pt_error], [Pt_ok, Pt_ok, Pt_outcome]]
     | Command_HttpProxy _ \<Rightarrow> [[Pt_error], [Pt_ok, Pt_error], [Pt_ok, Pt_response, Pt_data]]
     | Command_TcpForward _ \<Rightarrow> [[Pt_ok, Pt_error], [Pt_ok, Pt_address, Pt_data]]
     | Command_UdpForward _ \<Rightarrow> [[Pt_ok, Pt_error], [Pt_ok, Pt_address, Pt_data]])"

text \<open>All the parts, one after the other; a beginning of them, cut off anywhere.\<close>

fun spoken :: "(part \<Rightarrow> bytes \<Rightarrow> bool) \<Rightarrow> part list \<Rightarrow> bytes \<Rightarrow> bool" where
  "spoken P [] bs \<longleftrightarrow> bs = []"
| "spoken P (p # ps) bs \<longleftrightarrow> (\<exists>a b. bs = a @ b \<and> P p a \<and> spoken P ps b)"

fun cut_off :: "(part \<Rightarrow> bytes \<Rightarrow> bool) \<Rightarrow> part list \<Rightarrow> bytes \<Rightarrow> bool" where
  "cut_off P [] bs \<longleftrightarrow> bs = []"
| "cut_off P (p # ps) bs \<longleftrightarrow>
    bs = [] \<or> (\<exists>a n. P p a \<and> bs = take n a) \<or> (\<exists>a b. bs = a @ b \<and> P p a \<and> cut_off P ps b)"

definition conforms :: "(part \<Rightarrow> bytes \<Rightarrow> bool) \<Rightarrow> part list set \<Rightarrow> crab_error + unit \<Rightarrow> bytes \<Rightarrow> bool" where
  "conforms P S r bs \<longleftrightarrow> (\<exists>sh \<in> S. if r = Inr () then spoken P sh bs else cut_off P sh bs)"

definition speaks :: "(part \<Rightarrow> bytes \<Rightarrow> bool) \<Rightarrow> part list set \<Rightarrow> ('z, unit) wprog \<Rightarrow> bool" where
  "speaks P S m \<longleftrightarrow> (\<forall>s r t. m s = (r, t) \<longrightarrow> (\<exists>bs. tx t = tx s @ bs \<and> conforms P S r bs))"

text \<open>\<open>after p S\<close>: what may still come when the part \<open>p\<close> has been said.\<close>

definition after :: "part \<Rightarrow> part list set \<Rightarrow> part list set" where
  "after p S = {ps. p # ps \<in> S}"

lemma after_simps [simp]:
  "after p {} = {}" "after p (insert [] S) = after p S"
  "after p (insert (q # qs) S) = (if q = p then insert qs (after p S) else after p S)"
  by (auto simp: after_def)

section \<open>Rules\<close>

lemma cut_off_Nil [simp]: "cut_off P sh []"
  by (cases sh) simp_all

lemma speaks_run: "speaks P S m \<Longrightarrow> m s = (r, t) \<Longrightarrow> \<exists>bs. tx t = tx s @ bs \<and> conforms P S r bs"
  by (simp add: speaks_def)

lemma speaks_nonempty: "speaks P S m \<Longrightarrow> S \<noteq> {}"
  using speaks_run[OF _ prod.collapse[symmetric], of P S m undefined] by (auto simp: conforms_def)

lemma speaks_throw: "S \<noteq> {} \<Longrightarrow> speaks P S (throw e)"
  by (auto simp: speaks_def conforms_def)

lemma speaks_ret: "[] \<in> S \<Longrightarrow> speaks P S (ret ())"
  by (auto simp: speaks_def conforms_def intro!: bexI[of _ "[]"])

text \<open>A step that says nothing: another relation that programs keep.\<close>

definition quiet :: "'z world_scheme \<Rightarrow> 'z world_scheme \<Rightarrow> bool" where
  "quiet s t \<longleftrightarrow> tx t = tx s"

interpretation hush: kept_relation quiet
  by unfold_locales (simp_all add: quiet_def)

lemma speaks_quiet:
  assumes "keeps quiet m Q" "\<And>a. Q a \<Longrightarrow> speaks P S (f a)" "S \<noteq> {}"
  shows "speaks P S (andthen m f)"
  unfolding speaks_def
proof (intro allI impI)
  fix s r u assume run: "andthen m f s = (r, u)"
  obtain x t where m: "m s = (x, t)" by (cases "m s")
  with assms(1) have x: "tx t = tx s" "\<forall>a. x = Inr a \<longrightarrow> Q a" by (auto simp: keeps_def quiet_def)
  show "\<exists>bs. tx u = tx s @ bs \<and> conforms P S r bs"
  proof (cases x)
    case (Inl e)
    with run m x assms(3) show ?thesis by (auto simp: andthen_def conforms_def)
  next
    case (Inr a)
    with run m have "f a t = (r, u)" by (simp add: andthen_def)
    from speaks_run[OF assms(2) this] x Inr show ?thesis by simp
  qed
qed

lemmas speaks_step = speaks_quiet[where Q = "\<lambda>_. True"]

lemma quiet_steps:
  "keeps quiet (read_ack ac) (\<lambda>_. True)" "keeps quiet (on_fs m) (\<lambda>_. True)"
  by (auto intro!: keepsI simp: quiet_def read_ack_def andthen_def on_fs_run
      split: prod.splits sum.splits dest: read_message_tx)

text \<open>A message: the part it is, and then what may come after it.\<close>

lemma write_message_said:
  assumes "write_message c me op m s = (r, t)"
  shows "(r = Inr () \<and> (\<exists>a. frame c me op m = Some a \<and> tx t = tx s @ a)) \<or>
    (\<exists>e. r = Inl e \<and> (tx t = tx s \<or> (\<exists>a n. frame c me op m = Some a \<and> tx t = tx s @ take n a)))"
proof (cases "frame c me op m")
  case None
  with assms show ?thesis by (auto simp: write_message_def)
next
  case (Some a)
  with assms have "write_bytes QuicWriteError a s = (r, t)" by (simp add: write_message_def write_all_def)
  from write_bytes_prefix[OF this] obtain n where "tx t = tx s @ take n a" "r = Inr () \<longrightarrow> length a \<le> n" by blast
  with Some show ?thesis by (cases r) auto
qed

lemma speaks_message:
  assumes "\<And>a. frame c me op m = Some a \<Longrightarrow> P p a" "\<And>a. speaks P (after p S) (f a)"
  shows "speaks P S (andthen (write_message c me op m) f)"
  unfolding speaks_def
proof (intro allI impI)
  fix s r u assume run: "andthen (write_message c me op m) f s = (r, u)"
  obtain x t where m: "write_message c me op m s = (x, t)" by (cases "write_message c me op m s")
  from write_message_said[OF m] show "\<exists>bs. tx u = tx s @ bs \<and> conforms P S r bs"
  proof (elim disjE conjE exE)
    fix a assume x: "x = Inr ()" and a: "frame c me op m = Some a" "tx t = tx s @ a"
    with run m have "f () t = (r, u)" by (simp add: andthen_def)
    from speaks_run[OF assms(2) this] obtain bs sh where bs: "tx u = tx t @ bs" "p # sh \<in> S"
      "if r = Inr () then spoken P sh bs else cut_off P sh bs"
      by (auto simp: conforms_def after_def)
    with assms(1)[OF a(1)] have "conforms P S r (a @ bs)"
      unfolding conforms_def by (intro bexI[OF _ bs(2)]) (auto split: if_splits)
    with a(2) bs(1) show ?thesis by simp
  next
    fix e assume x: "x = Inl e" and said: "tx t = tx s"
    moreover obtain sh where "p # sh \<in> S" using speaks_nonempty[OF assms(2)] by (auto simp: after_def)
    ultimately show ?thesis using run m by (auto simp: andthen_def conforms_def)
  next
    fix e a n assume x: "x = Inl e" and a: "frame c me op m = Some a" "tx t = tx s @ take n a"
    moreover obtain sh where "p # sh \<in> S" using speaks_nonempty[OF assms(2)] by (auto simp: after_def)
    moreover from this assms(1)[OF a(1)] have "conforms P S (Inl e) (take n a)"
      unfolding conforms_def by (intro bexI[of _ "p # sh"]) auto
    ultimately show ?thesis using run m by (auto simp: andthen_def)
  qed
qed

lemma andthen_ret_unit: "andthen m ret = m"
  by (rule ext) (auto simp: andthen_def split: prod.splits sum.splits)

text \<open>The last message, and data to the end.\<close>

lemma speaks_last:
  "(\<And>a. frame c me op m = Some a \<Longrightarrow> P p a) \<Longrightarrow> [p] \<in> S \<Longrightarrow> speaks P S (write_message c me op m)"
  using speaks_message[of c me op m P p S "\<lambda>_. ret ()"] speaks_ret[of "after p S" P]
  by (auto simp: andthen_ret_unit after_def)

lemma speaks_data:
  assumes "\<And>s r t. m s = (r, t) \<Longrightarrow> \<exists>bs. tx t = tx s @ bs" "[p] \<in> S" "\<And>bs. P p bs"
  shows "speaks P S m"
  unfolding speaks_def
proof (intro allI impI)
  fix s r t assume "m s = (r, t)"
  from assms(1)[OF this] obtain bs where "tx t = tx s @ bs" by blast
  moreover have "conforms P S r bs"
    unfolding conforms_def using assms(3) by (intro bexI[OF _ assms(2)]) (auto intro: exI[of _ bs])
  ultimately show "\<exists>bs. tx t = tx s @ bs \<and> conforms P S r bs" by blast
qed

section \<open>The handlers\<close>

lemmas speaks_fs = speaks_step[OF hush.keeps_tried[OF quiet_steps(2)]]
  and speaks_ack = speaks_step[OF quiet_steps(1)]

lemma speaks_error:
  assumes "\<And>a. speaks (part_bytes sv h) (after Pt_error S) (f a)"
  shows "speaks (part_bytes sv h) S (andthen (write_error (sv_ack sv) (mh_method h) (mh_option h) e) f)"
  unfolding write_error_def by (rule speaks_message[where p = Pt_error]) (use assms in auto)

lemma speaks_last_error:
  "[Pt_error] \<in> S \<Longrightarrow> speaks (part_bytes sv h) S (write_error (sv_ack sv) (mh_method h) (mh_option h) e)"
  unfolding write_error_def by (rule speaks_last[where p = Pt_error]) auto

lemma speaks_accept:
  "(\<And>a. speaks (part_bytes sv h) (after Pt_ok S) (f a)) \<Longrightarrow>
    speaks (part_bytes sv h) S (andthen (write_message (sv_ack sv) (mh_method h) (mh_option h) ack_success) f)"
  by (rule speaks_message[where p = Pt_ok]) auto

lemma speaks_refuse:
  "[Pt_error] \<in> S \<Longrightarrow>
    speaks (part_bytes sv h) S (andthen (write_error (sv_ack sv) (mh_method h) (mh_option h) e) (\<lambda>_. throw e'))"
  "[Pt_error] \<in> S \<Longrightarrow>
    speaks (part_bytes sv h) S (andthen (write_error (sv_ack sv) (mh_method h) (mh_option h) e) ret)"
  by (rule speaks_error, auto intro!: speaks_throw speaks_ret simp: after_def)+

lemma andthen_ends [simp]: "andthen (throw e) f = throw e" "andthen (ret a) g = g a"
  by (rule ext, simp)+

lemmas answer_defs = answer_def answer_error_def

lemma speaks_simple:
  assumes "keeps quiet make_response Q" "\<And>r a. Q r \<Longrightarrow> frame rc (mh_method h) (mh_option h) r = Some a \<Longrightarrow> part_bytes sv h p a"
  shows "speaks (part_bytes sv h) {[Pt_ok, p], [Pt_ok, Pt_error]} (simple_handle (sv_ack sv) rc make_response h)"
  unfolding simple_handle_def answer_defs
  by (rule speaks_accept, rule speaks_quiet[OF hush.keeps_attempt[OF assms(1)]])
    (auto intro!: speaks_last[where p = p] speaks_last_error assms(2) split: sum.split)

lemma speaks_contents: "speaks (part_bytes sv h) {[Pt_data]} (send_contents tok q node)"
proof (rule speaks_data[where p = Pt_data])
  fix s r u assume "send_contents tok q node s = (r, u)"
  then show "\<exists>bs. tx u = tx s @ bs"
    using write_bytes_prefix[of IO _ s]
    by (fastforce simp: send_contents_def copy_to_stream_def prod_eq_iff split: fnode.splits option.splits)
qed simp_all

lemma speaks_opened:
  "speaks (part_bytes sv h) {[Pt_error], [Pt_ok, Pt_data]}
    (andthen (read_ack (sv_ack sv)) (\<lambda>_. andthen (attempt (on_fs (open_file q))) (\<lambda>file.
       case file of Inl e \<Rightarrow> andthen (write_error (sv_ack sv) (mh_method h) (mh_option h) e) ret
       | Inr node \<Rightarrow> andthen (write_message (sv_ack sv) (mh_method h) (mh_option h) ack_success)
           (\<lambda>_. send_contents tok q node))))"
  by (intro speaks_ack speaks_fs) (auto intro!: speaks_refuse speaks_accept speaks_contents split: sum.split)

lemma speaks_read_file:
  "speaks (part_bytes sv h) {[Pt_ok, Pt_error], [Pt_ok, Pt_metadata, Pt_error], [Pt_ok, Pt_metadata, Pt_ok, Pt_data]}
    (read_file_handle (sv_ack sv) (sv_metadata sv) tok rf h)"
  unfolding read_file_handle_def answer_defs Let_def
  by (intro speaks_accept speaks_fs,
      auto simp: andthen_assoc intro!: speaks_refuse speaks_message[where p = Pt_metadata] speaks_opened split: sum.split)

text \<open>A write ends with its outcome.\<close>

lemma ack_of_result: "ack_from_error e = ack_from_result (Inl e)" "ack_success = ack_from_result (Inr ())"
  by (simp_all add: ack_from_result_def ack_success_def)

lemma quiet_receive: "keeps quiet (receive_contents tok t) (\<lambda>_. True)"
  by (rule keepsI)
    (auto simp: quiet_def receive_contents_def andthen_def on_fs_apply split: option.splits if_splits prod.splits sum.splits)

lemma quiet_write:
  "keeps quiet (write_check wc copied) (\<lambda>_. True)" "keeps quiet (write_cleanup temp ack) (\<lambda>_. True)"
  "keeps quiet (create_temp_file wc) (\<lambda>_. True)"
  by (cases copied) (auto intro!: hush.rules quiet_steps simp: write_check_def write_cleanup_def create_temp_file_def)

lemma publish_outcome: "keeps quiet (write_publish wc temp checked) (\<lambda>ack. \<exists>r. ack = ack_from_result r)"
proof -
  have ack: "\<exists>r. (case x of Inr _ \<Rightarrow> ack_success | Inl e \<Rightarrow> ack_from_error e) = ack_from_result r"
    for x :: "crab_error + unit"
    by (cases x) (auto simp only: ack_of_result sum.case)
  show ?thesis
  proof (cases checked)
    case (Inl e)
    with ack[of "Inl e"] show ?thesis by (simp add: write_publish_def hush.keeps_ret)
  next
    case (Inr u)
    then show ?thesis
      by (simp add: write_publish_def hush.keeps_seq[OF hush.keeps_tried[OF quiet_steps(2)]] hush.keeps_ret ack)
  qed
qed

lemma speaks_receive: "speaks (part_bytes sv h) {[Pt_outcome]} (write_receive (sv_ack sv) tok wc h temp)"
  unfolding write_receive_def answer_defs
  by (rule speaks_step[OF hush.keeps_tried[OF quiet_receive]], rule speaks_step[OF hush.keeps_tried[OF quiet_write(1)]],
      rule speaks_quiet[OF publish_outcome], rule speaks_step[OF quiet_write(2)])
    (auto intro!: speaks_last[where p = Pt_outcome])

lemma speaks_write_file:
  "speaks (part_bytes sv h) {[Pt_ok, Pt_error], [Pt_ok, Pt_ok, Pt_outcome]} (write_file_handle (sv_ack sv) tok wc h)"
  unfolding write_file_handle_def answer_defs
  by (intro speaks_accept, rule speaks_step[OF hush.keeps_tried[OF quiet_write(3)]])
    (auto intro!: speaks_refuse speaks_accept speaks_ack speaks_receive split: sum.split)

text \<open>The proxy and the forwarders: a head, then data.\<close>

text \<open>What the proxy says depends on what the stream delivered.\<close>

lemma speaks_taken:
  assumes "\<And>s. \<exists>m. speaks P S m \<and> f s = m (s\<lparr>rx := []\<rparr>)"
  shows "speaks P S f"
  unfolding speaks_def
proof (intro allI impI)
  fix s r t assume "f s = (r, t)"
  moreover obtain m where "speaks P S m" "f s = m (s\<lparr>rx := []\<rparr>)" using assms by blast
  ultimately have "\<exists>bs. tx t = tx (s\<lparr>rx := []\<rparr>) @ bs \<and> conforms P S r bs"
    by (intro speaks_run[of P S m]) simp_all
  then show "\<exists>bs. tx t = tx s @ bs \<and> conforms P S r bs" by simp
qed

lemma speaks_at: "speaks P S m \<Longrightarrow> \<exists>m'. speaks P S m' \<and> m s = m' s"
  by blast

lemma grows: "keeps (within cmd) m Q \<Longrightarrow> m s = (r, t) \<Longrightarrow> \<exists>bs. tx t = tx s @ bs"
  by (drule keepsD) (auto simp: within_def)

lemma speaks_stream:
  "keeps (within Command_Ping) m (\<lambda>_. True) \<Longrightarrow> speaks (part_bytes sv h) {[Pt_data]} m"
  by (rule speaks_data[where p = Pt_data]) (auto dest: grows)

lemma speaks_http:
  "speaks (part_bytes sv h) {[Pt_error], [Pt_ok, Pt_error], [Pt_ok, Pt_response, Pt_data]}
    (http_proxy_handle (sv_ack sv) (sv_response sv) build perform cr cb q h)"
proof (cases "make_request build q")
  case (Inl e)
  then show ?thesis by (simp add: http_proxy_handle_def andthen_assoc speaks_refuse)
next
  case (Inr req)
  note run = http_proxy_handle_def Inr sum.case andthen_assoc andthen_ends
  show ?thesis
  proof (cases cr)
    case True
    then show ?thesis unfolding run by (auto intro!: speaks_accept speaks_throw)
  next
    case False
    then show ?thesis
      unfolding run
      by (simp, intro speaks_accept speaks_taken)
        (auto intro!: speaks_at speaks_refuse speaks_message[where p = Pt_response] speaks_stream frame_rules
          split: sum.split option.split)
  qed
qed

lemma speaks_tcp:
  "speaks (part_bytes sv h) {[Pt_ok, Pt_error], [Pt_ok, Pt_address, Pt_data]}
    (\<lambda>w. case tcp_forward_handle (sv_ack sv) (sv_addr sv) lookup net cutoff req h w of (r, w', _) \<Rightarrow> (r, w'))"
  unfolding tcp_forward_handle_prog
  by (auto intro!: speaks_accept speaks_refuse speaks_message[where p = Pt_address] speaks_ack
      speaks_stream[OF keeps_tcp_forward] split: sum.split)

lemma speaks_udp:
  "speaks (part_bytes sv h) {[Pt_ok, Pt_error], [Pt_ok, Pt_address, Pt_data]}
    (udp_forward_handle (sv_ack sv) (sv_addr sv) bind (udp_relay lookup send back fires) via h)"
  unfolding udp_forward_handle_def
  by (intro speaks_accept)
    (auto intro!: speaks_refuse speaks_message[where p = Pt_address] speaks_ack
        speaks_stream[OF keeps_relay] simp: andthen_assoc split: sum.split)

lemma delete_answers:
  "attempt (delete_make_response d) =
    andthen (attempt (on_fs (if dc_dir d then remove_dir_all (components (dc_path d))
      else remove_file (components (dc_path d))))) (\<lambda>r. ret (Inr (ack_from_result r)))"
  by (rule ext) (simp add: delete_make_response_def attempt_def andthen_def split: prod.split)

lemma speaks_delete:
  "speaks (part_bytes sv h) {[Pt_ok, Pt_outcome]} (delete_handle (sv_ack sv) d h)"
  unfolding delete_handle_def simple_handle_def answer_defs delete_answers andthen_assoc andthen_ends sum.case
  by (intro speaks_accept speaks_fs) (auto intro!: speaks_last[where p = Pt_outcome])

lemma command_speaks:
  "speaks (part_bytes sv h) (set (answer_shapes cmd)) (command_handle sv st cmd h)"
proof (cases cmd)
  case Command_Ping
  then show ?thesis
    by (auto simp: command_handle_def answer_shapes_def ping_handle_def answer_def intro!: speaks_last[where p = Pt_ok])
next
  case (Command_Delete d)
  then show ?thesis by (simp add: command_handle_def answer_shapes_def speaks_delete)
next
  case (Command_ListDir p)
  with speaks_simple[OF quiet_steps(2)[where m = "list_dir (sv_drives sv) p"], of "sv_entries sv" h sv Pt_entries]
  show ?thesis by (auto simp: command_handle_def answer_shapes_def dir_handle_def)
qed (simp_all add: command_handle_def answer_shapes_def speaks_read_file speaks_write_file speaks_http speaks_tcp speaks_udp)

section \<open>Properties\<close>

text \<open>
  C9: the answer to a command has the shape that goes with the command.  What a node writes to the
  stream of a command is a beginning of the parts of one of its \<open>answer_shapes\<close>, in their
  order, each a whole frame of the type of that part under the header of the command; it is
  cut off in the middle of a frame only if the handler fails, and if the handler succeeds all
  the parts are there.  Nothing is written when no command could be read.  There is no
  assumption on the stream, the peer, the file system, the target or the tokens.
\<close>

theorem answers_typed:
  "case serve_stream sv cc st meta w of (r, w') \<Rightarrow>
     (case fst (read_message (sv_ack sv) cc w) of
        Inl e \<Rightarrow> r = Inl e \<and> tx w' = tx w
      | Inr (h, cmd) \<Rightarrow>
          \<exists>shape \<in> set (answer_shapes cmd). \<exists>bs. tx w' = tx w @ bs \<and>
            (if r = Inr () then spoken (part_bytes sv h) shape bs else cut_off (part_bytes sv h) shape bs))"
proof -
  obtain x w1 where 1: "read_message (sv_ack sv) cc w = (x, w1)" by (cases "read_message (sv_ack sv) cc w")
  obtain r w' where run: "serve_stream sv cc st meta w = (r, w')" by (cases "serve_stream sv cc st meta w")
  show ?thesis
  proof (cases x)
    case (Inl e)
    with run 1 read_message_tx[OF 1] show ?thesis by (simp add: serve_stream_def hook_handle_stream_def andthen_def)
  next
    case (Inr hc)
    obtain h cmd where hc: "hc = (h, cmd)" by (cases hc)
    with run 1 Inr have "command_handle sv st cmd h w1 = (r, w')"
      by (simp add: serve_stream_def hook_handle_stream_def app_handle_command_def andthen_def)
    from speaks_run[OF command_speaks this] read_message_tx[OF 1] obtain bs sh
      where "sh \<in> set (answer_shapes cmd)" "tx w' = tx w @ bs"
        "if r = Inr () then spoken (part_bytes sv h) sh bs else cut_off (part_bytes sv h) sh bs"
      by (auto simp: conforms_def)
    then have "\<exists>shape \<in> set (answer_shapes cmd). \<exists>bs. tx w' = tx w @ bs \<and>
        (if r = Inr () then spoken (part_bytes sv h) shape bs else cut_off (part_bytes sv h) shape bs)" by blast
    with run 1 Inr hc show ?thesis by simp
  qed
qed

end
