(* ===== verification/Crab_Runit.thy ===== *)
theory Crab_Runit
  imports Crab_Errors "HOL-Library.Multiset"
begin

text \<open>
  \<^verbatim>\<open>src/src/crab/utils/runit.rs\<close> and \<^verbatim>\<open>src/src/crab/utils/runit/utils.rs\<close>: workers and the
  loops that run them.

  A \<open>tokio::select!\<close> chooses among its ready branches; the model takes the choices as a list
  of events.  A loop that receives workers, spawns them into a \<open>JoinSet\<close> and reaps the
  finished ones is a step function over \<open>loop_event\<close>; the state keeps what was spawned, what
  still runs and whether the loop is still in its receiving phase.  The locale \<open>spawn_loop\<close>
  is the contract all these loops share; it is interpreted for each of them.
\<close>

section \<open>Join results\<close>

text \<open>What \<open>join_next\<close> yields: a join error (panic or abort) or the task's own result.\<close>

type_synonym join_result = "ext_error + (crab_error + unit)"

fun join_error :: "join_result \<Rightarrow> crab_error option" where
  "join_error (Inl e) = Some (JoinError e)"
| "join_error (Inr (Inl e)) = Some e"
| "join_error (Inr (Inr _)) = None"

section \<open>Workers that run once\<close>

definition once_runner_new :: "'w \<Rightarrow> 'w option" where
  "once_runner_new w = Some w"

definition once_runner_serve ::
  "('w \<Rightarrow> crab_error + unit) \<Rightarrow> 'w option \<Rightarrow> (crab_error + unit) \<times> 'w option" where
  "once_runner_serve run cell =
    (case cell of
       None \<Rightarrow> (Inl (ErrorCode ALREADY_SERVED), None)
     | Some w \<Rightarrow> (run w, None))"

section \<open>A vector of workers\<close>

text \<open>
  \<open>serve\<close> of \<open>Vec<Arc<dyn Worker>>\<close>: the results in the order in which the workers finish; the
  child token is cancelled at each error, the first error is kept.
\<close>

fun vec_serve_loop ::
  "join_result list \<Rightarrow> bool \<times> crab_error option \<Rightarrow> bool \<times> crab_error option" where
  "vec_serve_loop [] st = st"
| "vec_serve_loop (r # rs) (cancelled, first_err) =
    (case r of
       Inr (Inl e) \<Rightarrow> vec_serve_loop rs (True, Some (case first_err of None \<Rightarrow> e | Some f \<Rightarrow> f))
     | Inl e \<Rightarrow> vec_serve_loop rs (True, Some (case first_err of None \<Rightarrow> JoinError e | Some f \<Rightarrow> f))
     | Inr (Inr _) \<Rightarrow> vec_serve_loop rs (cancelled, first_err))"

definition vec_serve :: "join_result list \<Rightarrow> bool \<times> (crab_error + unit)" where
  "vec_serve rs =
    (case vec_serve_loop rs (False, None) of
       (c, None) \<Rightarrow> (c, Inr ())
     | (c, Some e) \<Rightarrow> (c, Inl e))"

lemma vec_serve_loop_some:
  "vec_serve_loop rs (c, Some e) = (c \<or> (\<exists>r \<in> set rs. join_error r \<noteq> None), Some e)"
proof (induction rs arbitrary: c)
  case (Cons r rs)
  show ?case by (cases r rule: join_error.cases) (simp_all add: Cons.IH)
qed simp

lemma vec_serve_loop_none:
  "vec_serve_loop rs (c, None) =
    (case List.map_filter join_error rs of [] \<Rightarrow> (c, None) | e # _ \<Rightarrow> (True, Some e))"
proof (induction rs arbitrary: c)
  case (Cons r rs)
  show ?case
    by (cases r rule: join_error.cases)
      (simp_all add: Cons.IH vec_serve_loop_some List.map_filter_simps split: list.split)
qed (simp add: List.map_filter_simps)

section \<open>Cancellable calls\<close>

text \<open>
  \<open>invoke\<close> of \<open>InvokeWithCancel\<close>: \<open>before\<close> says that the token is cancelled at the call;
  the biased select then gives a token cancelled while the call is pending precedence over
  its result (\<open>None\<close>: the call has not finished when the token fires).
\<close>

definition invoke_with_cancel ::
  "bool \<Rightarrow> bool \<Rightarrow> (crab_error + 'a) option \<Rightarrow> (crab_error + 'a) option" where
  "invoke_with_cancel before fires call =
    (if before then Some (Inl (ErrorCode CANCELED_ERROR))
     else if fires then Some (Inl (ErrorCode CANCELED_ERROR))
     else call)"

section \<open>The receiving loops\<close>

datatype 'w loop_event = Le_cancel | Le_recv "'w option" | Le_join nat

record 'w loop_state =
  ls_open :: bool
  ls_spawned :: "'w list"
  ls_running :: "'w list"

definition loop_init :: "'w loop_state" where
  "loop_init = \<lparr>ls_open = True, ls_spawned = [], ls_running = []\<rparr>"

definition spawn :: "'w \<Rightarrow> 'w loop_state \<Rightarrow> 'w loop_state" where
  "spawn w s = s\<lparr>ls_spawned := ls_spawned s @ [w], ls_running := ls_running s @ [w]\<rparr>"

definition remove_nth :: "nat \<Rightarrow> 'a list \<Rightarrow> 'a list" where
  "remove_nth i xs = take i xs @ drop (Suc i) xs"

text \<open>\<open>join_next\<close> with its guard: the \<open>i\<close>-th running task finishes.\<close>

definition reap :: "nat \<Rightarrow> 'w loop_state \<Rightarrow> 'w loop_state" where
  "reap i s = (if i < length (ls_running s) then s\<lparr>ls_running := remove_nth i (ls_running s)\<rparr> else s)"

fun receiver_step :: "'w loop_state \<Rightarrow> 'w loop_event \<Rightarrow> 'w loop_state" where
  "receiver_step s Le_cancel = (if ls_open s then s\<lparr>ls_open := False\<rparr> else s)"
| "receiver_step s (Le_recv m) =
    (if ls_open s then (case m of None \<Rightarrow> s\<lparr>ls_open := False\<rparr> | Some w \<Rightarrow> spawn w s) else s)"
| "receiver_step s (Le_join i) = reap i s"

text \<open>\<open>serve_all_workers\<close> of \<^verbatim>\<open>runit/utils.rs\<close>.\<close>

fun workers_step :: "'w loop_state \<Rightarrow> 'w loop_event \<Rightarrow> 'w loop_state" where
  "workers_step s Le_cancel = (if ls_open s then s\<lparr>ls_open := False\<rparr> else s)"
| "workers_step s (Le_recv m) =
    (if ls_open s then (case m of Some w \<Rightarrow> spawn w s | None \<Rightarrow> s\<lparr>ls_open := False\<rparr>) else s)"
| "workers_step s (Le_join i) = reap i s"

definition loop_run :: "('w loop_state \<Rightarrow> 'w loop_event \<Rightarrow> 'w loop_state) \<Rightarrow> 'w loop_event list \<Rightarrow> 'w loop_state" where
  "loop_run step es = fold (\<lambda>e s. step s e) es loop_init"

text \<open>
  The loop returns, always with \<open>Ok\<close>, once it has left its receiving phase and the
  \<open>JoinSet\<close> is empty.
\<close>

definition loop_result :: "'w loop_state \<Rightarrow> (crab_error + unit) option" where
  "loop_result s = (if \<not> ls_open s \<and> ls_running s = [] then Some (Inr ()) else None)"

text \<open>The workers among the events.\<close>

definition received :: "'w loop_event list \<Rightarrow> 'w list" where
  "received es = List.map_filter (\<lambda>e. case e of Le_recv m \<Rightarrow> m | _ \<Rightarrow> None) es"

lemma received_simps [simp]:
  "received [] = []" "received (es @ fs) = received es @ received fs"
  "received [Le_cancel] = []" "received [Le_join i] = []"
  "received [Le_recv None] = []" "received [Le_recv (Some w)] = [w]"
  by (simp_all add: received_def List.map_filter_def)

text \<open>
  The contract: once left, the receiving phase is not entered again and nothing more is
  spawned; only received workers are spawned, each received worker that is not a stop
  message is; the channel's end leaves the phase; \<open>Le_join\<close> only reaps.
\<close>

locale spawn_loop =
  fixes step :: "'w loop_state \<Rightarrow> 'w loop_event \<Rightarrow> 'w loop_state"
    and stops :: "'w \<Rightarrow> bool"
  assumes open_mono: "ls_open (step s e) \<Longrightarrow> ls_open s"
    and spawned_closed: "\<not> ls_open s \<Longrightarrow> ls_spawned (step s e) = ls_spawned s"
    and spawned_step: "\<exists>ws. ls_spawned (step s e) = ls_spawned s @ ws \<and>
       mset (ls_running (step s e)) \<subseteq># mset (ls_running s) + mset ws \<and>
       set ws \<subseteq> {w. e = Le_recv (Some w)}"
    and recv_spawns: "ls_open s \<Longrightarrow> \<not> stops w \<Longrightarrow> step s (Le_recv (Some w)) = spawn w s"
    and recv_end: "\<not> ls_open (step s (Le_recv None))"
    and join_removes: "step s (Le_join i) = reap i s"
begin

lemma run_snoc: "loop_run step (es @ [e]) = step (loop_run step es) e"
  by (simp add: loop_run_def)

lemma running_spawned: "mset (ls_running (loop_run step es)) \<subseteq># mset (ls_spawned (loop_run step es))"
proof (induction es rule: rev_induct)
  case Nil
  show ?case by (simp add: loop_run_def loop_init_def)
next
  case (snoc e es)
  let ?s = "loop_run step es"
  obtain ws where w: "ls_spawned (step ?s e) = ls_spawned ?s @ ws"
    "mset (ls_running (step ?s e)) \<subseteq># mset (ls_running ?s) + mset ws"
    using spawned_step by blast
  have "mset (ls_running ?s) + mset ws \<subseteq># mset (ls_spawned ?s) + mset ws"
    using snoc.IH by (rule subset_mset.add_right_mono)
  with w(2) have "mset (ls_running (step ?s e)) \<subseteq># mset (ls_spawned ?s) + mset ws"
    by (rule subset_mset.order_trans)
  then show ?case by (simp add: run_snoc w(1))
qed

lemma spawned_received:
  "set (ls_spawned (loop_run step es)) \<subseteq> {w. Le_recv (Some w) \<in> set es}"
proof (induction es rule: rev_induct)
  case Nil
  show ?case by (simp add: loop_run_def loop_init_def)
next
  case (snoc e es)
  obtain ws where w: "ls_spawned (step (loop_run step es) e) = ls_spawned (loop_run step es) @ ws"
    "set ws \<subseteq> {w. e = Le_recv (Some w)}"
    using spawned_step by blast
  with snoc.IH show ?case by (fastforce simp: run_snoc)
qed

lemma all_spawned:
  assumes "Le_cancel \<notin> set es" "Le_recv None \<notin> set es" "\<And>w. Le_recv (Some w) \<in> set es \<Longrightarrow> \<not> stops w"
  shows "ls_open (loop_run step es) \<and> ls_spawned (loop_run step es) = received es"
  using assms
proof (induction es rule: rev_induct)
  case Nil
  show ?case by (simp add: loop_run_def loop_init_def)
next
  case (snoc e es)
  let ?s = "loop_run step es"
  from snoc have IH: "ls_open ?s" "ls_spawned ?s = received es" by auto
  show ?case
  proof (cases e)
    case Le_cancel
    with snoc.prems(1) show ?thesis by simp
  next
    case (Le_recv m)
    with snoc.prems obtain w where "m = Some w" "\<not> stops w" by (cases m) auto
    with Le_recv IH show ?thesis by (simp add: run_snoc recv_spawns spawn_def)
  next
    case (Le_join i)
    with IH show ?thesis by (simp add: run_snoc join_removes reap_def)
  qed
qed

lemma closed_forever:
  assumes "\<not> ls_open (loop_run step es)"
  shows "\<not> ls_open (loop_run step (es @ fs)) \<and>
    ls_spawned (loop_run step (es @ fs)) = ls_spawned (loop_run step es)"
proof (induction fs rule: rev_induct)
  case Nil
  with assms show ?case by simp
next
  case (snoc f fs)
  have "loop_run step (es @ fs @ [f]) = step (loop_run step (es @ fs)) f"
    using run_snoc[of "es @ fs" f] by simp
  with snoc.IH show ?case using open_mono spawned_closed by metis
qed

lemma joins_drain:
  "ls_running (fold (\<lambda>e s. step s e) (replicate (length (ls_running s)) (Le_join 0)) s) = [] \<and>
   ls_open (fold (\<lambda>e s. step s e) (replicate (length (ls_running s)) (Le_join 0)) s) = ls_open s"
proof (induction "length (ls_running s)" arbitrary: s)
  case 0
  then show ?case by simp
next
  case (Suc n)
  let ?t = "step s (Le_join 0)"
  have t: "ls_running ?t = tl (ls_running s)" "ls_open ?t = ls_open s"
    using Suc.hyps(2) by (auto simp: join_removes reap_def remove_nth_def drop_Suc)
  with Suc.hyps(2) have "n = length (ls_running ?t)" by simp
  from Suc.hyps(1)[OF this] t Suc.hyps(2)[symmetric] show ?case by simp
qed

lemma terminates:
  assumes "\<not> ls_open (loop_run step es)"
  shows "\<exists>fs. set fs \<subseteq> {Le_join 0} \<and> loop_result (loop_run step (es @ fs)) = Some (Inr ())"
proof (intro exI conjI)
  let ?s = "loop_run step es"
  let ?fs = "replicate (length (ls_running ?s)) (Le_join 0) :: 'a loop_event list"
  show "set ?fs \<subseteq> {Le_join 0}" by auto
  have "loop_run step (es @ ?fs) = fold (\<lambda>e s. step s e) ?fs ?s"
    by (simp add: loop_run_def)
  with joins_drain[of ?s] assms show "loop_result (loop_run step (es @ ?fs)) = Some (Inr ())"
    by (simp add: loop_result_def)
qed

end

lemma mset_remove_nth: "mset (remove_nth i xs) \<subseteq># mset xs"
proof -
  have "mset xs = mset (take i xs) + mset (drop i xs)"
    by (metis append_take_drop_id mset_append)
  moreover have "mset (drop (Suc i) xs) \<subseteq># mset (drop i xs)"
    by (cases "drop i xs") (simp_all flip: tl_drop add: drop_Suc)
  ultimately show ?thesis by (simp add: remove_nth_def)
qed

lemmas loop_defs = spawn_def reap_def

lemma reap_simps [simp]:
  "ls_open (reap i s) = ls_open s" "ls_spawned (reap i s) = ls_spawned s"
  "mset (ls_running (reap i s)) \<subseteq># mset (ls_running s)"
  by (simp_all add: reap_def mset_remove_nth)

lemma spawn_simps [simp]:
  "ls_open (spawn w s) = ls_open s" "ls_spawned (spawn w s) = ls_spawned s @ [w]"
  "ls_running (spawn w s) = ls_running s @ [w]"
  by (simp_all add: spawn_def)

lemma receiver_step_laws:
  "ls_open (receiver_step s e) \<Longrightarrow> ls_open s"
  "\<not> ls_open s \<Longrightarrow> ls_spawned (receiver_step s e) = ls_spawned s"
  "\<exists>ws. ls_spawned (receiver_step s e) = ls_spawned s @ ws \<and>
     mset (ls_running (receiver_step s e)) \<subseteq># mset (ls_running s) + mset ws \<and>
     set ws \<subseteq> {w. e = Le_recv (Some w)}"
  by (cases e; auto split: if_splits option.splits)+

lemma workers_step_laws:
  "ls_open (workers_step s e) \<Longrightarrow> ls_open s"
  "\<not> ls_open s \<Longrightarrow> ls_spawned (workers_step s e) = ls_spawned s"
  "\<exists>ws. ls_spawned (workers_step s e) = ls_spawned s @ ws \<and>
     mset (ls_running (workers_step s e)) \<subseteq># mset (ls_running s) + mset ws \<and>
     set ws \<subseteq> {w. e = Le_recv (Some w)}"
  by (cases e; auto split: if_splits option.splits)+

interpretation receiver: spawn_loop receiver_step "\<lambda>_. False"
  by unfold_locales (simp_all add: receiver_step_laws)

interpretation workers: spawn_loop workers_step "\<lambda>_. False"
  by unfold_locales (simp_all add: workers_step_laws)

section \<open>Properties\<close>

text \<open>
  Running a vector of workers ends with the error of the worker that failed first, a
  join error counting as its failure, and with success if none failed; the token of the
  others is cancelled exactly when there was a failure.
\<close>

lemma vec_serve_first_error:
  "vec_serve rs =
    (case List.map_filter join_error rs of
       [] \<Rightarrow> (False, Inr ())
     | e # _ \<Rightarrow> (True, Inl e))"
  by (simp add: vec_serve_def vec_serve_loop_none split: list.split)

text \<open>
  The loop over a channel of workers loses none and ends.  Every worker received before
  the loop is told to stop, by its token or by the end of the channel, has been started,
  none is started afterwards, only started workers are running, and once the running ones
  have finished the loop returns with success.
\<close>

lemma workers_loop_complete:
  assumes "Le_cancel \<notin> set es" "Le_recv None \<notin> set es" "stop = Le_cancel \<or> stop = Le_recv None"
  shows "ls_spawned (loop_run workers_step ((es @ [stop]) @ fs)) = received es \<and>
    mset (ls_running (loop_run workers_step ((es @ [stop]) @ fs))) \<subseteq># mset (received es) \<and>
    (\<exists>gs. set gs \<subseteq> {Le_join 0} \<and>
       loop_result (loop_run workers_step (((es @ [stop]) @ fs) @ gs)) = Some (Inr ()))"
proof -
  let ?s = "loop_run workers_step (es @ [stop])"
  have "ls_open (loop_run workers_step es)" "ls_spawned (loop_run workers_step es) = received es"
    using workers.all_spawned[OF assms(1,2)] by auto
  with assms(3) have stopped: "\<not> ls_open ?s" "ls_spawned ?s = received es"
    by (auto simp: workers.run_snoc)
  from workers.closed_forever[OF stopped(1)] stopped(2)
  have closed: "\<not> ls_open (loop_run workers_step ((es @ [stop]) @ fs))"
    and spawned: "ls_spawned (loop_run workers_step ((es @ [stop]) @ fs)) = received es"
    by auto
  with workers.terminates[OF closed] workers.running_spawned[of "(es @ [stop]) @ fs"]
  show ?thesis by simp
qed

lemma workers_loop_complete_witness:
  "ls_spawned (loop_run workers_step (([Le_recv (Some (1 :: nat)), Le_recv (Some 2), Le_join 0] @ [Le_cancel])
      @ [Le_recv (Some 3)])) = [1, 2] \<and>
   mset (ls_running (loop_run workers_step (([Le_recv (Some (1 :: nat)), Le_recv (Some 2), Le_join 0] @ [Le_cancel])
      @ [Le_recv (Some 3)]))) \<subseteq># mset [1, 2] \<and>
   (\<exists>gs. set gs \<subseteq> {Le_join 0} \<and>
      loop_result (loop_run workers_step ((([Le_recv (Some (1 :: nat)), Le_recv (Some 2), Le_join 0] @ [Le_cancel])
      @ [Le_recv (Some 3)]) @ gs)) = Some (Inr ()))"
  using workers_loop_complete[of "[Le_recv (Some (1 :: nat)), Le_recv (Some 2), Le_join 0]" Le_cancel
      "[Le_recv (Some 3)]"]
  by (simp add: received_def List.map_filter_simps)

end
