(* ===== verification/Crab_Node.thy ===== *)
theory Crab_Node
  imports Crab_Hook Crab_Runit
begin

text \<open>
  \<^verbatim>\<open>src/src/crab/nodes.rs\<close>: a remote node, its status, its heartbeat and the loops that
  take its tasks and its incoming streams.

  Timers, the cancellation token and the stream race in \<open>select!\<close>; the winner of each race
  is a \<open>wait\<close>.  When the token or the timer wins, the heartbeat stream is given up, so what
  the losing call had done to it is not observed again.
\<close>

section \<open>Status\<close>

record node =
  nd_status :: node_status
  nd_log :: "node_status list"
  nd_cancelled :: bool

definition node_new :: node where
  "node_new = \<lparr>nd_status = NodeStatus_Ready, nd_log = [], nd_cancelled = False\<rparr>"

text \<open>\<open>send_if_modified\<close>: the watchers are woken (\<open>nd_log\<close>) only when the status changes.\<close>

definition set_status :: "node_status \<Rightarrow> node \<Rightarrow> node" where
  "set_status st n =
    (if nd_status n \<noteq> st then n\<lparr>nd_status := st, nd_log := nd_log n @ [st]\<rparr> else n)"

section \<open>Heartbeats\<close>

datatype wait = Wt_cancelled | Wt_elapsed | Wt_ready

text \<open>The connecting side: the timer is the pause between two heartbeats.\<close>

definition heartbeat_as_client ::
  "ack_message codec \<Rightarrow> 'hb codec \<Rightarrow> ('hs, 'hb) protocol \<Rightarrow> node_metadata \<Rightarrow> wait \<Rightarrow> ('z, unit) sprog" where
  "heartbeat_as_client ac bc p meta w =
    (case w of
       Wt_cancelled \<Rightarrow> throw (ErrorCode CANCELED_ERROR)
     | _ \<Rightarrow> hook_heartbeat_as_client ac bc p meta)"

text \<open>The other side: the timer bounds the wait for the peer's heartbeat.\<close>

definition heartbeat_as_server ::
  "ack_message codec \<Rightarrow> 'hb codec \<Rightarrow> ('hs, 'hb) protocol \<Rightarrow> node_metadata \<Rightarrow> wait \<Rightarrow> ('z, unit) sprog" where
  "heartbeat_as_server ac bc p meta w =
    (case w of
       Wt_cancelled \<Rightarrow> throw (ErrorCode CANCELED_ERROR)
     | Wt_elapsed \<Rightarrow> throw (ErrorCode HEARTBEAT_TIMEOUT)
     | Wt_ready \<Rightarrow> hook_heartbeat ac bc p meta)"

definition node_heartbeat ::
  "ack_message codec \<Rightarrow> 'hb codec \<Rightarrow> ('hs, 'hb) protocol \<Rightarrow> node_metadata \<Rightarrow> wait \<Rightarrow> ('z, unit) sprog" where
  "node_heartbeat ac bc p meta w =
    (if nm_as_client meta then heartbeat_as_client ac bc p meta w
     else heartbeat_as_server ac bc p meta w)"

definition make_first_heartbeat ::
  "ack_message codec \<Rightarrow> 'hb codec \<Rightarrow> ('hs, 'hb) protocol \<Rightarrow> node_metadata \<Rightarrow> bool
    \<Rightarrow> crab_error + 'z stream_scheme \<Rightarrow> crab_error + 'z stream_scheme" where
  "make_first_heartbeat ac bc p meta cancelled opened =
    (case opened of
       Inl e \<Rightarrow> Inl e
     | Inr stream \<Rightarrow>
         if cancelled then Inl (ErrorCode CANCELED_ERROR)
         else (case (if nm_as_client meta then hook_heartbeat_as_client ac bc p meta
                     else hook_heartbeat ac bc p meta) stream of
             (Inl e, _) \<Rightarrow> Inl e
           | (Inr _, stream') \<Rightarrow> Inr stream'))"

section \<open>Serving a node\<close>

text \<open>
  The heartbeat loop over the outcomes of its races: an error is what ended it, a value
  means that it is still going when the given outcomes are used up.
\<close>

fun heartbeat_loop :: "(wait \<Rightarrow> ('z, unit) sprog) \<Rightarrow> wait list \<Rightarrow> ('z, unit) sprog" where
  "heartbeat_loop beat [] = ret ()"
| "heartbeat_loop beat (w # ws) = andthen (beat w) (\<lambda>_. heartbeat_loop beat ws)"

text \<open>The result after both inner tasks are joined: only join errors are kept, the first wins.\<close>

fun first_join_error :: "join_result list \<Rightarrow> crab_error + unit" where
  "first_join_error [] = Inr ()"
| "first_join_error (Inl e # rs) = Inl (JoinError e)"
| "first_join_error (Inr _ # rs) = first_join_error rs"

text \<open>
  \<open>serve\<close>: \<open>fh\<close> is the outcome of the race on the first heartbeat (\<open>Wt_elapsed\<close>: the timeout
  of \<open>first_heartbeat\<close> seconds), \<open>ws\<close> those of the heartbeats after it, \<open>joins\<close> the results of
  the two inner tasks.  No result means that the node is still being served.
\<close>

definition node_serve ::
  "ack_message codec \<Rightarrow> 'hb codec \<Rightarrow> ('hs, 'hb) protocol \<Rightarrow> node_metadata
    \<Rightarrow> wait \<Rightarrow> crab_error + 'z stream_scheme \<Rightarrow> wait list \<Rightarrow> join_result list
    \<Rightarrow> node \<Rightarrow> (crab_error + unit) option \<times> node" where
  "node_serve ac bc p meta fh opened ws joins n =
    (if fh = Wt_elapsed then (Some (Inl (ErrorCode HEARTBEAT_TIMEOUT)), n)
     else case make_first_heartbeat ac bc p meta (fh = Wt_cancelled) opened of
       Inl e \<Rightarrow> (Some (Inl e), n)
     | Inr stream \<Rightarrow>
         (let n1 = set_status NodeStatus_Running n
          in case heartbeat_loop (node_heartbeat ac bc p meta) ws stream of
               (Inr _, _) \<Rightarrow> (None, n1)
             | (Inl _, _) \<Rightarrow>
                 (let n2 = (set_status NodeStatus_Stopping n1)\<lparr>nd_cancelled := True\<rparr>
                  in (Some (first_join_error joins), set_status NodeStatus_Stopped n2))))"

section \<open>The task and stream loops\<close>

text \<open>
  \<open>serve_all_tasks\<close>: the receiver can be taken once; \<open>task_rx_take\<close> returns whether the
  loop runs and the emptied cell.
\<close>

definition task_rx_take :: "'r option \<Rightarrow> bool \<times> 'r option" where
  "task_rx_take cell = (cell \<noteq> None, None)"

fun tasks_step :: "'w loop_state \<Rightarrow> 'w loop_event \<Rightarrow> 'w loop_state" where
  "tasks_step s (Le_recv m) =
    (if ls_open s then (case m of None \<Rightarrow> s\<lparr>ls_open := False\<rparr> | Some task \<Rightarrow> spawn task s) else s)"
| "tasks_step s (Le_join i) = reap i s"
| "tasks_step s Le_cancel = (if ls_open s then s\<lparr>ls_open := False\<rparr> else s)"

text \<open>
  \<open>accept\<close> sends each accepted stream as \<open>Some(stream)\<close> and \<open>None\<close> when it stops;
  \<open>handle_all_streams\<close> leaves its loop at \<open>None\<close>, at the closed channel and when cancelled.
\<close>

fun streams_step :: "'w option loop_state \<Rightarrow> 'w option loop_event \<Rightarrow> 'w option loop_state" where
  "streams_step s Le_cancel = (if ls_open s then s\<lparr>ls_open := False\<rparr> else s)"
| "streams_step s (Le_recv m) =
    (if ls_open s then
       (case m of
          None \<Rightarrow> s\<lparr>ls_open := False\<rparr>
        | Some None \<Rightarrow> s\<lparr>ls_open := False\<rparr>
        | Some (Some stream) \<Rightarrow> spawn (Some stream) s)
     else s)"
| "streams_step s (Le_join i) = reap i s"

lemma tasks_step_laws:
  "ls_open (tasks_step s e) \<Longrightarrow> ls_open s"
  "\<not> ls_open s \<Longrightarrow> ls_spawned (tasks_step s e) = ls_spawned s"
  "\<exists>ws. ls_spawned (tasks_step s e) = ls_spawned s @ ws \<and>
     mset (ls_running (tasks_step s e)) \<subseteq># mset (ls_running s) + mset ws \<and>
     set ws \<subseteq> {w. e = Le_recv (Some w)}"
  by (cases e; auto split: if_splits option.splits)+

lemma streams_step_laws:
  "ls_open (streams_step s e) \<Longrightarrow> ls_open s"
  "\<not> ls_open s \<Longrightarrow> ls_spawned (streams_step s e) = ls_spawned s"
  "\<exists>ws. ls_spawned (streams_step s e) = ls_spawned s @ ws \<and>
     mset (ls_running (streams_step s e)) \<subseteq># mset (ls_running s) + mset ws \<and>
     set ws \<subseteq> {w. e = Le_recv (Some w)}"
  by (cases e; auto split: if_splits option.splits)+

interpretation node_tasks: spawn_loop tasks_step "\<lambda>_. False"
  by unfold_locales (simp_all add: tasks_step_laws)

interpretation node_streams: spawn_loop streams_step "\<lambda>w. w = None"
  by unfold_locales (auto simp: streams_step_laws)

section \<open>Status lemmas\<close>

lemma set_status_status [simp]: "nd_status (set_status st n) = st"
  by (simp add: set_status_def)

lemma set_status_cancelled [simp]: "nd_cancelled (set_status st n) = nd_cancelled n"
  by (simp add: set_status_def)

lemma set_status_log [simp]:
  "nd_log (set_status st n) = (if nd_status n = st then nd_log n else nd_log n @ [st])"
  by (simp add: set_status_def)

lemma first_join_error_ok: "first_join_error joins = Inr () \<longleftrightarrow> (\<forall>r \<in> set joins. \<exists>x. r = Inr x)"
  by (induction joins rule: first_join_error.induct) auto

text \<open>
  The three outcomes of \<open>serve\<close>: it failed before the first heartbeat was done and the node
  is as it was; it is running; it is over and the node is stopped, its token cancelled.
\<close>

lemma node_serve_cases:
  assumes "node_serve ac bc p meta fh opened ws joins n = (r, n')"
  obtains (not_started) e where "r = Some (Inl e)" "n' = n"
    | (running) "r = None" "n' = set_status NodeStatus_Running n"
    | (stopped) "r = Some (first_join_error joins)"
        "n' = set_status NodeStatus_Stopped
           ((set_status NodeStatus_Stopping (set_status NodeStatus_Running n))\<lparr>nd_cancelled := True\<rparr>)"
  using assms
  by (auto simp: node_serve_def Let_def split: if_splits sum.splits prod.splits)

lemma heartbeat_loop_append:
  "heartbeat_loop beat (ws @ us) = andthen (heartbeat_loop beat ws) (\<lambda>_. heartbeat_loop beat us)"
  by (induction ws) (auto simp: fun_eq_iff andthen_def split: prod.splits sum.splits)

text \<open>Once the loop has ended, further events change nothing.\<close>

lemma heartbeat_loop_stops:
  "heartbeat_loop beat ws s = (Inl e, t) \<Longrightarrow> heartbeat_loop beat (ws @ us) s = (Inl e, t)"
  by (simp add: heartbeat_loop_append andthen_def)

lemma node_heartbeat_cancel:
  "node_heartbeat ac bc p meta Wt_cancelled s = (Inl (ErrorCode CANCELED_ERROR), s)"
  by (simp add: node_heartbeat_def heartbeat_as_client_def heartbeat_as_server_def)

lemma heartbeat_loop_cancel:
  assumes "heartbeat_loop (node_heartbeat ac bc p meta) ws s = (Inr (), t)"
  shows "heartbeat_loop (node_heartbeat ac bc p meta) (ws @ [Wt_cancelled]) s
     = (Inl (ErrorCode CANCELED_ERROR), t)"
  using assms by (simp add: heartbeat_loop_append andthen_def node_heartbeat_cancel)

section \<open>Properties\<close>

text \<open>
  C33: a node goes through its states in order and its result says how it ended.  Serving a
  new node either fails before its first heartbeat is done, and then the node is as new;
  or it is running; or it has been running, stopping and stopped, its token is cancelled
  and the result is that of joining its two loops.  The watchers see each state once and
  in increasing order.
\<close>

theorem node_serve_states:
  assumes "node_serve ac bc p meta fh opened ws joins node_new = (r, n)"
  shows "sorted_wrt (<) (NodeStatus_Ready # nd_log n) \<and> nd_status n = last (NodeStatus_Ready # nd_log n) \<and>
    (case r of
       None \<Rightarrow> nd_status n = NodeStatus_Running \<and> \<not> nd_cancelled n
     | Some res \<Rightarrow>
         (n = node_new \<and> res \<noteq> Inr ()) \<or>
         (nd_log n = [NodeStatus_Running, NodeStatus_Stopping, NodeStatus_Stopped] \<and> nd_cancelled n \<and>
          res = first_join_error joins))"
  using assms
  by (cases rule: node_serve_cases) (auto simp: node_new_def status_order)

definition sample_peer :: node_metadata where
  "sample_peer = \<lparr>nm_node_id = ''p'', nm_remote_addr = sample_addr, nm_as_client = True\<rparr>"

definition sample_beat :: bytes where
  "sample_beat = write_header \<lparr>mh_version = 0, mh_option = OPTION_NONE, mh_method = Method_Heartbeat,
     mh_length = 3\<rparr> @ [1, 2, 3]"

lemma sample_beat_framed: "framed sample_codec Method_Heartbeat OPTION_NONE 7 sample_beat"
  using framed_of_ser[OF sample_codec_facts(2,3), of Method_Heartbeat OPTION_NONE]
  by (simp add: sample_beat_def)

lemma sample_live: "live_protocol sample_protocol 7"
  by unfold_locales (simp_all add: sample_protocol_def)

lemma sample_serve:
  "node_serve sample_ack sample_codec sample_protocol sample_peer Wt_ready (Inr (stream_of sample_beat)) [] joins
     node_new = (None, set_status NodeStatus_Running node_new)"
  using live_protocol.client_beat[OF sample_live sample_codec_facts(1) sample_beat_framed
      small_framed[OF sample_ack_facts(2), unfolded ack_success_def],
      of "stream_of sample_beat" "[]" sample_peer]
  by (simp add: node_serve_def make_first_heartbeat_def sample_peer_def)

theorem node_serve_states_witness:
  "sorted_wrt (<) (NodeStatus_Ready # nd_log (set_status NodeStatus_Running node_new)) \<and>
   nd_status (set_status NodeStatus_Running node_new) =
     last (NodeStatus_Ready # nd_log (set_status NodeStatus_Running node_new)) \<and>
   nd_status (set_status NodeStatus_Running node_new) = NodeStatus_Running \<and>
   \<not> nd_cancelled (set_status NodeStatus_Running node_new)"
  using node_serve_states[OF sample_serve] by simp

text \<open>
  A running node stops on cancellation, and on a heartbeat timeout if it waits for the
  peer's heartbeats; whatever would have happened later, it is stopped and its token is
  cancelled.  The loss of the heartbeat is not an error of \<open>serve\<close>: when both loops are
  joined without an error the result is success.
\<close>

lemma node_stops:
  assumes "node_serve ac bc p meta fh opened ws joins0 n = (None, n0)"
    and "w = Wt_cancelled \<or> w = Wt_elapsed \<and> \<not> nm_as_client meta"
  shows "\<exists>n'. node_serve ac bc p meta fh opened (ws @ w # us) joins n = (Some (first_join_error joins), n') \<and>
    nd_status n' = NodeStatus_Stopped \<and> nd_cancelled n' \<and>
    (first_join_error joins = Inr () \<longleftrightarrow> (\<forall>r \<in> set joins. \<exists>x. r = Inr x))"
proof -
  from assms(1) obtain s t where fh: "fh \<noteq> Wt_elapsed"
    and s: "make_first_heartbeat ac bc p meta (fh = Wt_cancelled) opened = Inr s"
    and t: "heartbeat_loop (node_heartbeat ac bc p meta) ws s = (Inr (), t)"
    by (auto simp: node_serve_def Let_def split: if_splits sum.splits prod.splits)
  obtain e where e: "node_heartbeat ac bc p meta w t = (Inl e, t)"
    using assms(2) by (auto simp: node_heartbeat_def heartbeat_as_client_def heartbeat_as_server_def)
  have "heartbeat_loop (node_heartbeat ac bc p meta) (ws @ [w]) s = (Inl e, t)"
    by (simp add: heartbeat_loop_append andthen_def t e)
  then have "heartbeat_loop (node_heartbeat ac bc p meta) ((ws @ [w]) @ us) s = (Inl e, t)"
    by (rule heartbeat_loop_stops)
  with fh s show ?thesis by (simp add: node_serve_def Let_def first_join_error_ok)
qed

lemma node_stops_witness:
  "\<exists>n'. node_serve sample_ack sample_codec sample_protocol sample_peer Wt_ready (Inr (stream_of sample_beat))
      ([] @ Wt_cancelled # [Wt_ready]) [Inr (Inr ()), Inr (Inl (ErrorCode CANCELED_ERROR))] node_new =
      (Some (Inr ()), n') \<and>
    nd_status n' = NodeStatus_Stopped \<and> nd_cancelled n'"
  using node_stops[OF sample_serve, of Wt_cancelled "[Wt_ready]" "[Inr (Inr ()), Inr (Inl (ErrorCode CANCELED_ERROR))]"]
  by simp

end
