(* ===== verification/Crab_Beats.thy ===== *)
theory Crab_Beats
  imports Crab_Node
begin

text \<open>
  The timing of the heartbeats: the options of \<^verbatim>\<open>src/src/crab/types.rs\<close> and the races of
  \<^verbatim>\<open>src/src/crab/nodes.rs\<close>.

  Times are milliseconds.  One side pauses for \<open>heartbeat_interval\<close> seconds before each of its
  heartbeats, which then takes some time to reach the other side and to be answered; the other
  side waits for at most \<open>heartbeat_timeout\<close> seconds, from the end of the previous heartbeat on.
\<close>

definition duration_from_secs :: "u64 \<Rightarrow> nat" where
  "duration_from_secs n = 1000 * unat n"

text \<open>\<open>time::sleep(interval)\<close> and then the heartbeat, which takes \<open>delay\<close>.\<close>

definition beat_after :: "options \<Rightarrow> nat \<Rightarrow> nat" where
  "beat_after opts delay = duration_from_secs (heartbeat_interval opts) + delay"

text \<open>\<open>timeout(limit, heartbeat)\<close>: the heartbeat is looked at before the clock.\<close>

definition timeout_wait :: "nat \<Rightarrow> nat \<Rightarrow> wait" where
  "timeout_wait limit arrives = (if arrives \<le> limit then Wt_ready else Wt_elapsed)"

definition server_waits :: "options \<Rightarrow> nat list \<Rightarrow> wait list" where
  "server_waits opts delays =
    map (\<lambda>d. timeout_wait (duration_from_secs (heartbeat_timeout opts)) (beat_after opts d)) delays"

definition in_time :: "options \<Rightarrow> nat \<Rightarrow> bool" where
  "in_time opts d \<longleftrightarrow> beat_after opts d \<le> duration_from_secs (heartbeat_timeout opts)"

lemma server_waits_simps [simp]:
  "server_waits opts [] = []"
  "server_waits opts (d # ds) = (if in_time opts d then Wt_ready else Wt_elapsed) # server_waits opts ds"
  by (simp_all add: server_waits_def timeout_wait_def in_time_def)

text \<open>
  A peer that answers as long as it is asked: each heartbeat is taken from the stream and
  answered, until one is late.
\<close>

context live_protocol
begin

lemma server_beats:
  assumes "codec_ok ac" "codec_ok bc" "framed bc Method_Heartbeat OPTION_NONE beat b"
    and "framed ac Method_Heartbeat OPTION_NONE \<lparr>ack_code = NO_ERROR, ack_msg = None\<rparr> k"
    and "\<not> nm_as_client meta"
  shows "rx s = concat (replicate (length ds) (b @ k)) @ rest \<Longrightarrow> tx_cap s = None \<Longrightarrow>
    heartbeat_loop (node_heartbeat ac bc p meta) (server_waits opts ds) s =
      (let n = length (takeWhile (in_time opts) ds) in
       (if n = length ds then Inr () else Inl (ErrorCode HEARTBEAT_TIMEOUT),
        s\<lparr>rx := concat (replicate (length ds - n) (b @ k)) @ rest, tx := tx s @ concat (replicate n b)\<rparr>))"
proof (induction ds arbitrary: s)
  case Nil
  then show ?case by simp
next
  case (Cons d ds)
  show ?case
  proof (cases "in_time opts d")
    case True
    let ?s = "s\<lparr>rx := concat (replicate (length ds) (b @ k)) @ rest, tx := tx s @ b\<rparr>"
    have "node_heartbeat ac bc p meta Wt_ready s = (Inr (), ?s)"
      using server_beat[OF assms(1-4), of s "concat (replicate (length ds) (b @ k)) @ rest" meta] Cons.prems assms(5)
      by (simp add: node_heartbeat_def heartbeat_as_server_def)
    with Cons.IH[of ?s] Cons.prems(2) True show ?thesis by (simp add: andthen_def Let_def)
  next
    case False
    with Cons.prems assms(5) show ?thesis
      by (simp add: andthen_def node_heartbeat_def heartbeat_as_server_def)
  qed
qed

lemma server_keeps_alive:
  assumes "codec_ok ac" "codec_ok bc" "framed bc Method_Heartbeat OPTION_NONE beat b"
    and "framed ac Method_Heartbeat OPTION_NONE \<lparr>ack_code = NO_ERROR, ack_msg = None\<rparr> k"
    and "\<not> nm_as_client meta" "rx s = concat (replicate (Suc (length ds)) (b @ k))" "tx_cap s = None"
  shows "node_serve ac bc p meta Wt_ready (Inr s) (server_waits opts ds) joins node_new =
    (if list_all (in_time opts) ds then (None, set_status NodeStatus_Running node_new)
     else (Some (first_join_error joins), set_status NodeStatus_Stopped
       ((set_status NodeStatus_Stopping (set_status NodeStatus_Running node_new))\<lparr>nd_cancelled := True\<rparr>)))"
proof -
  let ?s = "s\<lparr>rx := concat (replicate (length ds) (b @ k)), tx := tx s @ b\<rparr>"
  have first: "make_first_heartbeat ac bc p meta False (Inr s) = Inr ?s"
    using server_beat[OF assms(1-4), of s "concat (replicate (length ds) (b @ k))" meta] assms(5-7)
    by (simp add: make_first_heartbeat_def)
  have "length (takeWhile (in_time opts) ds) = length ds \<longleftrightarrow> list_all (in_time opts) ds"
    by (induction ds) auto
  with first server_beats[OF assms(1-5), of ?s ds "[]" opts] assms(7) show ?thesis
    by (simp add: node_serve_def Let_def)
qed

end

section \<open>Properties\<close>

text \<open>
  C25: the heartbeats keep a node alive exactly as long as they come in time.  If the peer makes
  its heartbeats at its interval and each takes some delay, the node that waits for them is
  still running after all of them if and only if no interval plus delay exceeds its timeout;
  at the first that does it is stopped and cancelled.  With the default options every delay of
  up to fifteen seconds is tolerated and none above; with an interval longer than the timeout,
  which the configuration admits, no node outlives its first heartbeat.
\<close>

theorem heartbeats_in_time:
  assumes "p_make_heartbeat p = Inr beat" "\<And>m. \<exists>r. p_on_heartbeat p m beat = Inr r"
    and "codec_ok ac" "codec_ok bc" "framed bc Method_Heartbeat OPTION_NONE beat b"
    and "framed ac Method_Heartbeat OPTION_NONE \<lparr>ack_code = NO_ERROR, ack_msg = None\<rparr> k"
    and "\<not> nm_as_client meta" "rx s = concat (replicate (Suc (length ds)) (b @ k))" "tx_cap s = None"
    and "node_serve ac bc p meta Wt_ready (Inr s) (server_waits opts ds) joins node_new = (r, n)"
  shows "(r = None \<longleftrightarrow> (\<forall>d \<in> set ds.
      1000 * unat (heartbeat_interval opts) + d \<le> 1000 * unat (heartbeat_timeout opts))) \<and>
    nd_status n = (if r = None then NodeStatus_Running else NodeStatus_Stopped) \<and> nd_cancelled n = (r \<noteq> None) \<and>
    (opts = default_options \<longrightarrow> (r = None \<longleftrightarrow> (\<forall>d \<in> set ds. d \<le> 15000))) \<and>
    (heartbeat_timeout opts < heartbeat_interval opts \<longrightarrow> ds \<noteq> [] \<longrightarrow> r \<noteq> None)"
proof -
  have "live_protocol p beat" using assms(1,2) by unfold_locales auto
  note live_protocol.server_keeps_alive[OF this assms(3-9), where joins = joins]
  with assms(10) show ?thesis
    by (auto simp: list_all_iff in_time_def beat_after_def duration_from_secs_def default_options_def
        node_new_def word_less_nat_alt neq_Nil_conv split: if_splits)
qed

definition server_peer :: node_metadata where
  "server_peer = \<lparr>nm_node_id = ''p'', nm_remote_addr = sample_addr, nm_as_client = False\<rparr>"

theorem heartbeats_in_time_witness:
  "\<exists>r n. node_serve sample_ack sample_codec sample_protocol server_peer Wt_ready
     (Inr (stream_of (concat (replicate (Suc (length [200 :: nat, 15001]))
       (sample_beat @ small_frame Method_Heartbeat OPTION_NONE 0)))))
     (server_waits default_options [200, 15001]) [] node_new = (r, n) \<and>
     r \<noteq> None \<and> nd_status n = NodeStatus_Stopped \<and> nd_cancelled n"
proof -
  let ?s = "stream_of (concat (replicate (Suc (length [200 :: nat, 15001]))
    (sample_beat @ small_frame Method_Heartbeat OPTION_NONE 0)))"
  obtain r n where run: "node_serve sample_ack sample_codec sample_protocol server_peer Wt_ready (Inr ?s)
      (server_waits default_options [200, 15001]) [] node_new = (r, n)" by fastforce
  have "r \<noteq> None \<and> nd_status n = NodeStatus_Stopped \<and> nd_cancelled n"
    using heartbeats_in_time[where p = sample_protocol and beat = 7, OF _ _ sample_ack_facts(1) sample_codec_facts(1)
      sample_beat_framed small_framed[OF sample_ack_facts(2), unfolded ack_success_def] _ _ _ run]
    by (simp add: sample_protocol_def server_peer_def stream_of_def default_options_def split: if_splits)
  with run show ?thesis by blast
qed

end
