(* ===== verification/Crab_Registry.thy ===== *)
theory Crab_Registry
  imports Crab_Hook Crab_App_Types
begin

text \<open>
  \<^verbatim>\<open>src/src/app/manager.rs\<close> and \<^verbatim>\<open>src/src/app/protocol/proto.rs\<close>: the table of connected
  nodes and the application's \<open>Protocol\<close>, which checks a handshake against the table, enters
  accepted nodes and removes nodes that exit; then the life of the connections around it, as
  the tasks of \<^verbatim>\<open>src/src/crab/endpoint.rs\<close> run it, as a step function over events.
\<close>

section \<open>The manager\<close>

record 'h node_entry =
  ne_handle :: 'h
  ne_info :: handshake

type_synonym 'h manager = "string \<rightharpoonup> 'h node_entry"

definition manager_new :: "'h manager" where
  "manager_new = Map.empty"

definition manager_insert :: "'h manager \<Rightarrow> string \<Rightarrow> 'h \<Rightarrow> handshake \<Rightarrow> 'h manager" where
  "manager_insert m node_id h info = m(node_id \<mapsto> \<lparr>ne_handle = h, ne_info = info\<rparr>)"

definition manager_remove :: "'h manager \<Rightarrow> string \<Rightarrow> 'h manager" where
  "manager_remove m node_id = m(node_id := None)"

definition manager_get :: "'h manager \<Rightarrow> string \<Rightarrow> ('h \<times> handshake) option" where
  "manager_get m node_id = map_option (\<lambda>n. (ne_handle n, ne_info n)) (m node_id)"

definition manager_exists :: "'h manager \<Rightarrow> string \<Rightarrow> bool" where
  "manager_exists m node_id \<longleftrightarrow> m node_id \<noteq> None"

text \<open>
  What the clients of the table (the protocol, the forwarders, the HTTP interface) rely on:
  a lookup sees the last insertion under its key, removal and insertion do not touch other
  keys, and \<open>exists\<close> agrees with \<open>get\<close>.
\<close>

locale registry =
  fixes new :: 'm
    and ins :: "'m \<Rightarrow> string \<Rightarrow> 'h \<Rightarrow> handshake \<Rightarrow> 'm"
    and del :: "'m \<Rightarrow> string \<Rightarrow> 'm"
    and get :: "'m \<Rightarrow> string \<Rightarrow> ('h \<times> handshake) option"
    and has :: "'m \<Rightarrow> string \<Rightarrow> bool"
  assumes get_new: "get new k = None"
    and get_ins: "get (ins m k h i) k' = (if k' = k then Some (h, i) else get m k')"
    and get_del: "get (del m k) k' = (if k' = k then None else get m k')"
    and has_get: "has m k \<longleftrightarrow> get m k \<noteq> None"
begin

lemma has_new: "\<not> has new k"
  by (simp add: has_get get_new)

lemma has_ins: "has (ins m k h i) k' \<longleftrightarrow> k' = k \<or> has m k'"
  by (simp add: has_get get_ins)

lemma has_del: "has (del m k) k' \<longleftrightarrow> k' \<noteq> k \<and> has m k'"
  by (simp add: has_get get_del)

lemma get_ins_del: "get (del (ins m k h i) k) k' = get (del m k) k'"
  by (simp add: get_ins get_del)

lemma ins_shadows: "get (ins (ins m k h i) k h' i') k' = get (ins m k h' i') k'"
  by (simp add: get_ins)

end

interpretation mgr: registry manager_new manager_insert manager_remove manager_get manager_exists
  by unfold_locales
    (auto simp: manager_new_def manager_insert_def manager_remove_def manager_get_def manager_exists_def)

lemmas manager_simps = mgr.get_new mgr.get_ins mgr.get_del mgr.has_new mgr.has_ins mgr.has_del

section \<open>The application protocol\<close>

definition app_make_handshake :: "string \<Rightarrow> host_info \<Rightarrow> crab_error + handshake" where
  "app_make_handshake local_id host = Inr (handshake_new host local_id)"

definition app_make_heartbeat :: "crab_error + command" where
  "app_make_heartbeat = Inr Command_Ping"

definition app_on_handshake ::
  "string \<Rightarrow> host_info \<Rightarrow> 'h manager \<Rightarrow> node_metadata \<Rightarrow> handshake \<Rightarrow> crab_error + handshake" where
  "app_on_handshake local_id host m meta hs =
    (if manager_exists m (nm_node_id meta) then Inl (ErrorCode NODE_EXISTS)
     else app_make_handshake local_id host)"

definition app_on_heartbeat :: "node_metadata \<Rightarrow> command \<Rightarrow> crab_error + command" where
  "app_on_heartbeat meta beat = Inr Command_Ping"

definition app_on_node_accepted ::
  "'h manager \<Rightarrow> node_metadata \<Rightarrow> 'h \<Rightarrow> handshake \<Rightarrow> (crab_error + unit) \<times> 'h manager" where
  "app_on_node_accepted m meta h info = (Inr (), manager_insert m (nm_node_id meta) h info)"

definition app_on_node_exited :: "'h manager \<Rightarrow> node_metadata \<Rightarrow> 'h manager" where
  "app_on_node_exited m meta = manager_remove m (nm_node_id meta)"

definition app_protocol :: "string \<Rightarrow> host_info \<Rightarrow> 'h manager \<Rightarrow> (handshake, command) protocol" where
  "app_protocol local_id host m =
    \<lparr>p_node_id = hs_device_id,
     p_make_handshake = app_make_handshake local_id host,
     p_make_heartbeat = app_make_heartbeat,
     p_on_handshake = app_on_handshake local_id host m,
     p_on_heartbeat = app_on_heartbeat\<rparr>"

lemma app_protocol_simps [simp]:
  "p_node_id (app_protocol local_id host m) = hs_device_id"
  "p_make_handshake (app_protocol local_id host m) = Inr (handshake_new host local_id)"
  "p_make_heartbeat (app_protocol local_id host m) = Inr Command_Ping"
  "p_on_handshake (app_protocol local_id host m) = app_on_handshake local_id host m"
  "p_on_heartbeat (app_protocol local_id host m) = app_on_heartbeat"
  by (simp_all add: app_protocol_def app_make_handshake_def app_make_heartbeat_def)

interpretation app: live_protocol "app_protocol local_id host m" Command_Ping
  for local_id :: string and host :: host_info and m :: "'h manager"
  by unfold_locales (simp_all add: app_on_heartbeat_def)

section \<open>The life of a connection\<close>

text \<open>
  A connection, named by a number that also stands for its handle, goes through three
  states: its handshake is over (\<open>Conn_handshaken\<close>), it is entered in the table and served
  (\<open>Conn_running\<close>), it has exited.  The events are the points where the code reads or writes
  the table; the tasks of different connections interleave freely between them.  An event
  that the code cannot perform in a state leaves no state (\<open>None\<close>).
  \<^item> \<open>Ev_handshake i meta info\<close>: the accepting side, which consults \<open>on_handshake\<close>;
  \<^item> \<open>Ev_connect i meta info\<close>: the connecting side (\<open>handshake_as_client\<close>), which does not;
  \<^item> \<open>Ev_accept i\<close>: \<open>on_node_accepted\<close> of the serving task;
  \<^item> \<open>Ev_exit i\<close>: the node's \<open>serve\<close> is over and \<open>on_node_exited\<close> runs.
\<close>

datatype conn_state =
    Conn_handshaken node_metadata handshake
  | Conn_running node_metadata handshake
  | Conn_exited

datatype reg_event =
    Ev_handshake nat node_metadata handshake
  | Ev_connect nat node_metadata handshake
  | Ev_accept nat
  | Ev_exit nat

record reg_state =
  rs_nodes :: "nat manager"
  rs_conns :: "nat \<rightharpoonup> conn_state"

definition reg_init :: reg_state where
  "reg_init = \<lparr>rs_nodes = manager_new, rs_conns = Map.empty\<rparr>"

fun reg_step :: "string \<Rightarrow> host_info \<Rightarrow> reg_state \<Rightarrow> reg_event \<Rightarrow> reg_state option" where
  "reg_step local_id host s (Ev_handshake i meta info) =
    (if rs_conns s i = None \<and> nm_as_client meta \<and> nm_node_id meta = hs_device_id info
     then (case app_on_handshake local_id host (rs_nodes s) meta info of
         Inl _ \<Rightarrow> Some (s\<lparr>rs_conns := (rs_conns s)(i \<mapsto> Conn_exited)\<rparr>)
       | Inr _ \<Rightarrow> Some (s\<lparr>rs_conns := (rs_conns s)(i \<mapsto> Conn_handshaken meta info)\<rparr>))
     else None)"
| "reg_step local_id host s (Ev_connect i meta info) =
    (if rs_conns s i = None \<and> \<not> nm_as_client meta \<and> nm_node_id meta = hs_device_id info
     then Some (s\<lparr>rs_conns := (rs_conns s)(i \<mapsto> Conn_handshaken meta info)\<rparr>)
     else None)"
| "reg_step local_id host s (Ev_accept i) =
    (case rs_conns s i of
       Some (Conn_handshaken meta info) \<Rightarrow>
         Some (s\<lparr>rs_nodes := snd (app_on_node_accepted (rs_nodes s) meta i info),
                 rs_conns := (rs_conns s)(i \<mapsto> Conn_running meta info)\<rparr>)
     | _ \<Rightarrow> None)"
| "reg_step local_id host s (Ev_exit i) =
    (case rs_conns s i of
       Some (Conn_running meta info) \<Rightarrow>
         Some (s\<lparr>rs_nodes := app_on_node_exited (rs_nodes s) meta,
                 rs_conns := (rs_conns s)(i \<mapsto> Conn_exited)\<rparr>)
     | _ \<Rightarrow> None)"

fun reg_run :: "string \<Rightarrow> host_info \<Rightarrow> reg_state \<Rightarrow> reg_event list \<Rightarrow> reg_state option" where
  "reg_run local_id host s [] = Some s"
| "reg_run local_id host s (e # es) =
    (case reg_step local_id host s e of None \<Rightarrow> None | Some t \<Rightarrow> reg_run local_id host t es)"

text \<open>The states a run passes through, all of which satisfy \<open>P\<close>.\<close>

inductive reg_reach :: "string \<Rightarrow> host_info \<Rightarrow> (reg_state \<Rightarrow> bool) \<Rightarrow> reg_state \<Rightarrow> bool"
  for local_id host P where
  start: "P reg_init \<Longrightarrow> reg_reach local_id host P reg_init"
| step: "reg_reach local_id host P s \<Longrightarrow> reg_step local_id host s e = Some t \<Longrightarrow> P t
    \<Longrightarrow> reg_reach local_id host P t"

fun conn_node :: "conn_state \<Rightarrow> string option" where
  "conn_node (Conn_handshaken meta _) = Some (nm_node_id meta)"
| "conn_node (Conn_running meta _) = Some (nm_node_id meta)"
| "conn_node Conn_exited = None"

definition running_as :: "reg_state \<Rightarrow> nat \<Rightarrow> string \<Rightarrow> bool" where
  "running_as s i k \<longleftrightarrow> (\<exists>meta info. rs_conns s i = Some (Conn_running meta info) \<and> nm_node_id meta = k)"

text \<open>No two live connections carry the same node id.\<close>

definition distinct_nodes :: "reg_state \<Rightarrow> bool" where
  "distinct_nodes s \<longleftrightarrow>
    (\<forall>i j c d k. rs_conns s i = Some c \<longrightarrow> rs_conns s j = Some d \<longrightarrow>
       conn_node c = Some k \<longrightarrow> conn_node d = Some k \<longrightarrow> i = j)"

text \<open>Every entry of the table is the handle and the handshake of a running connection.\<close>

definition entries_running :: "reg_state \<Rightarrow> bool" where
  "entries_running s \<longleftrightarrow>
    (\<forall>k i info. manager_get (rs_nodes s) k = Some (i, info) \<longrightarrow>
       (\<exists>meta. rs_conns s i = Some (Conn_running meta info) \<and> nm_node_id meta = k \<and> hs_device_id info = k))"

definition ids_match :: "reg_state \<Rightarrow> bool" where
  "ids_match s \<longleftrightarrow>
    (\<forall>i meta info. rs_conns s i = Some (Conn_handshaken meta info) \<or>
       rs_conns s i = Some (Conn_running meta info) \<longrightarrow> nm_node_id meta = hs_device_id info)"

definition running_registered :: "reg_state \<Rightarrow> bool" where
  "running_registered s \<longleftrightarrow>
    (\<forall>i k. running_as s i k \<longrightarrow> (\<exists>info. manager_get (rs_nodes s) k = Some (i, info)))"

lemmas reg_defs = app_on_node_accepted_def app_on_node_exited_def app_on_handshake_def
  app_make_handshake_def

lemma ids_match_step:
  "ids_match s \<Longrightarrow> reg_step local_id host s e = Some t \<Longrightarrow> ids_match t"
  by (cases e) (auto simp: ids_match_def reg_defs split: if_splits option.splits conn_state.splits)

text \<open>The three ways a step changes the state.\<close>

definition enter_state :: "reg_state \<Rightarrow> nat \<Rightarrow> conn_state \<Rightarrow> reg_state" where
  "enter_state s i c = s\<lparr>rs_conns := (rs_conns s)(i \<mapsto> c)\<rparr>"

definition accept_state :: "reg_state \<Rightarrow> nat \<Rightarrow> node_metadata \<Rightarrow> handshake \<Rightarrow> reg_state" where
  "accept_state s i meta info =
    s\<lparr>rs_nodes := manager_insert (rs_nodes s) (nm_node_id meta) i info,
      rs_conns := (rs_conns s)(i \<mapsto> Conn_running meta info)\<rparr>"

definition exit_state :: "reg_state \<Rightarrow> nat \<Rightarrow> node_metadata \<Rightarrow> reg_state" where
  "exit_state s i meta =
    s\<lparr>rs_nodes := manager_remove (rs_nodes s) (nm_node_id meta),
      rs_conns := (rs_conns s)(i \<mapsto> Conn_exited)\<rparr>"

lemma reg_step_cases:
  assumes "reg_step local_id host s e = Some t"
  obtains
    (enter) i c where "rs_conns s i = None" "t = enter_state s i c"
      "\<And>meta info. c \<noteq> Conn_running meta info"
      "\<And>meta info. c = Conn_handshaken meta info \<Longrightarrow> nm_node_id meta = hs_device_id info"
  | (accept) i meta info where "rs_conns s i = Some (Conn_handshaken meta info)"
      "t = accept_state s i meta info"
  | (exit) i meta info where "rs_conns s i = Some (Conn_running meta info)"
      "t = exit_state s i meta"
proof (cases e)
  case (Ev_handshake i meta info)
  with assms show thesis
    by (cases "app_on_handshake local_id host (rs_nodes s) meta info")
      (auto split: if_splits intro!: enter simp: enter_state_def)
next
  case (Ev_connect i meta info)
  with assms show thesis
    by (auto split: if_splits intro!: enter simp: enter_state_def)
next
  case (Ev_accept i)
  with assms show thesis
    by (auto split: option.splits conn_state.splits intro!: accept
        simp: accept_state_def app_on_node_accepted_def)
next
  case (Ev_exit i)
  with assms show thesis
    by (auto split: option.splits conn_state.splits intro!: exit
        simp: exit_state_def app_on_node_exited_def)
qed

lemma entries_running_enter:
  assumes inv: "entries_running s" and new: "rs_conns s i = None"
  shows "entries_running (enter_state s i c)"
  using assms by (fastforce simp: entries_running_def enter_state_def)

lemma entries_running_accept:
  assumes inv: "entries_running s" and c: "rs_conns s i = Some (Conn_handshaken meta info)"
    and id: "nm_node_id meta = hs_device_id info"
  shows "entries_running (accept_state s i meta info)"
  unfolding entries_running_def
proof (intro allI impI)
  fix k j info'
  assume g: "manager_get (rs_nodes (accept_state s i meta info)) k = Some (j, info')"
  show "\<exists>m. rs_conns (accept_state s i meta info) j = Some (Conn_running m info')
      \<and> nm_node_id m = k \<and> hs_device_id info' = k"
  proof (cases "k = nm_node_id meta")
    case True
    with g id show ?thesis by (auto simp: accept_state_def mgr.get_ins)
  next
    case False
    with g have "manager_get (rs_nodes s) k = Some (j, info')"
      by (simp add: accept_state_def mgr.get_ins)
    with inv obtain m where m: "rs_conns s j = Some (Conn_running m info')" "nm_node_id m = k"
      "hs_device_id info' = k"
      unfolding entries_running_def by blast
    with c have "j \<noteq> i" by auto
    with m show ?thesis by (simp add: accept_state_def)
  qed
qed

lemma entries_running_exit:
  assumes inv: "entries_running s" and c: "rs_conns s i = Some (Conn_running meta info)"
  shows "entries_running (exit_state s i meta)"
  unfolding entries_running_def
proof (intro allI impI)
  fix k j info'
  assume g: "manager_get (rs_nodes (exit_state s i meta)) k = Some (j, info')"
  then have k: "k \<noteq> nm_node_id meta" and "manager_get (rs_nodes s) k = Some (j, info')"
    by (auto simp: exit_state_def mgr.get_del split: if_splits)
  with inv obtain m where m: "rs_conns s j = Some (Conn_running m info')" "nm_node_id m = k"
    "hs_device_id info' = k"
    unfolding entries_running_def by blast
  with c k have "j \<noteq> i" by auto
  with m show "\<exists>m. rs_conns (exit_state s i meta) j = Some (Conn_running m info')
      \<and> nm_node_id m = k \<and> hs_device_id info' = k"
    by (simp add: exit_state_def)
qed

lemma entries_running_step:
  assumes "entries_running s" "ids_match s" "reg_step local_id host s e = Some t"
  shows "entries_running t"
  using assms(3)
proof (cases rule: reg_step_cases)
  case (accept i meta info)
  with assms(2) have "nm_node_id meta = hs_device_id info" by (simp add: ids_match_def)
  with accept assms(1) show ?thesis by (simp add: entries_running_accept)
qed (use assms(1) in \<open>simp_all add: entries_running_enter entries_running_exit\<close>)

lemma running_registered_step:
  assumes "running_registered s" "distinct_nodes s" "reg_step local_id host s e = Some t"
  shows "running_registered t"
  using assms(3)
proof (cases rule: reg_step_cases)
  case (enter i c)
  with assms(1) show ?thesis
    by (auto simp: running_registered_def running_as_def enter_state_def)
next
  case (accept i meta info)
  have "running_as s j k \<Longrightarrow> j \<noteq> i \<and> k \<noteq> nm_node_id meta" for j k
    using accept(1) assms(2) unfolding running_as_def distinct_nodes_def
    by (metis conn_node.simps(1) conn_node.simps(2) conn_state.distinct(1) option.inject)
  with accept assms(1) show ?thesis
    by (auto simp: running_registered_def running_as_def accept_state_def mgr.get_ins split: if_splits)
next
  case (exit i meta info)
  have "running_as s j k \<Longrightarrow> j \<noteq> i \<Longrightarrow> k \<noteq> nm_node_id meta" for j k
    using exit(1) assms(2) unfolding running_as_def distinct_nodes_def
    by (metis conn_node.simps(2))
  with exit assms(1) show ?thesis
    by (auto simp: running_registered_def running_as_def exit_state_def mgr.get_del split: if_splits)
qed

lemma reg_reach_ids_match: "reg_reach local_id host P s \<Longrightarrow> ids_match s"
proof (induction rule: reg_reach.induct)
  case start
  show ?case by (simp add: ids_match_def reg_init_def)
next
  case (step s e t)
  then show ?case by (blast intro: ids_match_step)
qed

lemma reg_reach_entries_running: "reg_reach local_id host P s \<Longrightarrow> entries_running s"
proof (induction rule: reg_reach.induct)
  case start
  show ?case by (simp add: entries_running_def reg_init_def mgr.get_new)
next
  case (step s e t)
  then show ?case by (blast intro: entries_running_step reg_reach_ids_match)
qed

lemma reg_reach_P: "reg_reach local_id host P s \<Longrightarrow> P s"
  by (induction rule: reg_reach.induct) auto

lemma reg_reach_running_registered:
  "reg_reach local_id host distinct_nodes s \<Longrightarrow> running_registered s"
proof (induction rule: reg_reach.induct)
  case start
  show ?case by (simp add: running_registered_def running_as_def reg_init_def)
next
  case (step s e t)
  then show ?case by (blast intro: running_registered_step reg_reach_P)
qed

lemma reg_run_reach:
  "reg_reach local_id host (\<lambda>_. True) s \<Longrightarrow> reg_run local_id host s es = Some t
    \<Longrightarrow> reg_reach local_id host (\<lambda>_. True) t"
  by (induction es arbitrary: s) (auto split: option.splits intro: reg_reach.step)

section \<open>Properties\<close>

text \<open>
  A node that is in the table is turned away, and learns why.  Whatever the handshake
  carries, if the table has its device id then the accepting side fails with \<open>NODE_EXISTS\<close>
  without writing anything but this error, and the connecting side, reading it, fails with
  \<open>NODE_EXISTS\<close> as well.
\<close>

lemma registered_node_rejected:
  assumes "codec_ok hc" "codec_ok ac" "framed hc Method_Handshake 0 (handshake_new host_c id_c) b1"
    and "framed ac Method_Handshake OPTION_ERROR (ack_from_error (ErrorCode NODE_EXISTS)) b2"
    and "manager_exists ms id_c"
    and "rx c = b2 @ rest" "tx_cap c = None" "rx s = b1 @ rest'" "tx_cap s = None"
  shows
    "hook_handshake ac hc (app_protocol id_s host_s ms) ca (Inr s) =
      (Inl (ErrorCode NODE_EXISTS), Some (s\<lparr>rx := rest', tx := tx s @ b2\<rparr>)) \<and>
     hook_handshake_as_client ac hc (app_protocol id_c host_c mc) sa (Inr c) =
      (Inl (ErrorCode NODE_EXISTS), Some (c\<lparr>rx := rest, tx := tx c @ b1\<rparr>))"
proof
  have ok: "(0 :: u8) AND OPTION_ERROR \<noteq> OPTION_ERROR" "OPTION_ERROR AND OPTION_ERROR = OPTION_ERROR"
    by (simp_all add: OPTION_ERROR_def)
  have "app_on_handshake id_s host_s ms \<lparr>nm_node_id = id_c, nm_remote_addr = ca, nm_as_client = True\<rparr>
      (handshake_new host_c id_c) = Inl (ErrorCode NODE_EXISTS)"
    using assms(5) by (simp add: app_on_handshake_def)
  then show "hook_handshake ac hc (app_protocol id_s host_s ms) ca (Inr s) =
      (Inl (ErrorCode NODE_EXISTS), Some (s\<lparr>rx := rest', tx := tx s @ b2\<rparr>))"
    by (simp add: hook_handshake_def with_stream_def handshake_new_def
        handshake_session_rejected[OF assms(1) assms(3)[unfolded handshake_new_def] ok(1) _ assms(4,8,9)])
  show "hook_handshake_as_client ac hc (app_protocol id_c host_c mc) sa (Inr c) =
      (Inl (ErrorCode NODE_EXISTS), Some (c\<lparr>rx := rest, tx := tx c @ b1\<rparr>))"
    by (simp add: hook_handshake_as_client_def with_stream_def
        client_session_rejected[OF assms(2,3,4) ok(2) assms(6,7)])
qed

definition sample_host :: host_info where
  "sample_host = host_info_new None (Some ''linux'') []"

abbreviation sample_table :: "nat manager" where
  "sample_table \<equiv> manager_insert manager_new ''a'' 7 (handshake_new sample_host ''a'')"

definition sample_handshake_codec :: "handshake codec" where
  "sample_handshake_codec = table_codec [(handshake_new sample_host ''a'', [1])]"

lemma sample_handshake_facts:
  "codec_ok sample_handshake_codec"
  "framed sample_handshake_codec Method_Handshake 0 (handshake_new sample_host ''a'')
     (small_frame Method_Handshake 0 1)"
  unfolding sample_handshake_codec_def
  by (rule table_codec_ok, simp) (rule small_framed, simp add: table_codec_def)

definition sample_meta :: "bool \<Rightarrow> node_metadata" where
  "sample_meta as_client = \<lparr>nm_node_id = ''a'', nm_remote_addr = sample_addr, nm_as_client = as_client\<rparr>"

lemma registered_node_rejected_witness:
  "hook_handshake sample_ack sample_handshake_codec
      (app_protocol ''b'' sample_host (manager_insert manager_new ''a'' (1 :: nat) (handshake_new sample_host ''a'')))
      sample_addr (Inr (stream_of (small_frame Method_Handshake 0 1))) =
     (Inl (ErrorCode NODE_EXISTS), Some ((stream_of [])\<lparr>tx := small_frame Method_Handshake OPTION_ERROR 1\<rparr>)) \<and>
   hook_handshake_as_client sample_ack sample_handshake_codec
      (app_protocol ''a'' sample_host (manager_new :: nat manager))
      sample_addr (Inr (stream_of (small_frame Method_Handshake OPTION_ERROR 1))) =
     (Inl (ErrorCode NODE_EXISTS), Some ((stream_of [])\<lparr>tx := small_frame Method_Handshake 0 1\<rparr>))"
  using registered_node_rejected[OF sample_handshake_facts(1) sample_ack_facts(1) sample_handshake_facts(2)
      small_framed[OF sample_ack_facts(3)],
      where ms = "manager_insert manager_new ''a'' (1 :: nat) (handshake_new sample_host ''a'')"
      and mc = "manager_new :: nat manager" and rest = "[]" and rest' = "[]"
      and c = "stream_of (small_frame Method_Handshake OPTION_ERROR 1)"
      and s = "stream_of (small_frame Method_Handshake 0 1)" and id_s = "''b''" and host_s = sample_host
      and ca = sample_addr and sa = sample_addr]
  by (simp add: manager_exists_def manager_insert_def stream_of_def)

text \<open>
  A heartbeat between two application nodes keeps both alive.  The connecting side sends
  its beat, the accepting side answers with its own and the connecting side acknowledges;
  each reads exactly what the other wrote and both calls succeed, whatever the tables hold.
\<close>

lemma heartbeat_round:
  assumes "codec_ok ac" "codec_ok bc" "framed bc Method_Heartbeat OPTION_NONE Command_Ping b"
    and "framed ac Method_Heartbeat OPTION_NONE ack_success k"
    and "rx c = b @ rest" "tx_cap c = None" "rx s = b @ k @ rest'" "tx_cap s = None"
  shows
    "hook_heartbeat_as_client ac bc (app_protocol id_c host_c mc) meta_c c =
       (Inr (), c\<lparr>rx := rest, tx := tx c @ b @ k\<rparr>) \<and>
     hook_heartbeat ac bc (app_protocol id_s host_s ms) meta_s s =
       (Inr (), s\<lparr>rx := rest', tx := tx s @ b\<rparr>)"
  by (simp add: app.client_beat[OF assms(2,3) assms(4)[unfolded ack_success_def] assms(5,6)]
      app.server_beat[OF assms(1,2,3) assms(4)[unfolded ack_success_def] assms(7,8)])

definition sample_command_codec :: "command codec" where
  "sample_command_codec = table_codec [(Command_Ping, [7])]"

lemma sample_command_facts:
  "codec_ok sample_command_codec"
  "framed sample_command_codec me op Command_Ping (small_frame me op 7)"
  unfolding sample_command_codec_def
  by (rule table_codec_ok, simp) (rule small_framed, simp add: table_codec_def)

lemma heartbeat_round_witness:
  "hook_heartbeat_as_client sample_ack sample_command_codec (app_protocol ''a'' sample_host (manager_new :: nat manager))
      (sample_meta False) (stream_of (small_frame Method_Heartbeat OPTION_NONE 7)) =
     (Inr (), (stream_of [])\<lparr>tx := small_frame Method_Heartbeat OPTION_NONE 7 @ small_frame Method_Heartbeat OPTION_NONE 0\<rparr>) \<and>
   hook_heartbeat sample_ack sample_command_codec (app_protocol ''b'' sample_host (manager_new :: nat manager))
      (sample_meta True) (stream_of (small_frame Method_Heartbeat OPTION_NONE 7 @ small_frame Method_Heartbeat OPTION_NONE 0)) =
     (Inr (), (stream_of [])\<lparr>tx := small_frame Method_Heartbeat OPTION_NONE 7\<rparr>)"
  using heartbeat_round[OF sample_ack_facts(1) sample_command_facts(1) sample_command_facts(2)
      small_framed[OF sample_ack_facts(2)], where rest = "[]" and rest' = "[]"
      and c = "stream_of (small_frame Method_Heartbeat OPTION_NONE 7)"
      and s = "stream_of (small_frame Method_Heartbeat OPTION_NONE 7 @ small_frame Method_Heartbeat OPTION_NONE 0)"
      and id_c = "''a''" and id_s = "''b''" and host_c = sample_host and host_s = sample_host
      and mc = "manager_new :: nat manager" and ms = "manager_new :: nat manager"
      and meta_c = "sample_meta False" and meta_s = "sample_meta True"]
  by (simp add: stream_of_def)

text \<open>
  The table never has a stale entry.  In every state that a sequence of handshakes,
  acceptances and exits leads to, however the connections interleave, a handle found under
  an id is the handle of a connection that is running under that id, with the handshake
  that connection made.
\<close>

lemma registry_never_stale:
  assumes "reg_run local_id host reg_init es = Some s"
    and "manager_get (rs_nodes s) k = Some (i, info)"
  shows "\<exists>meta. rs_conns s i = Some (Conn_running meta info) \<and> nm_node_id meta = k \<and> hs_device_id info = k"
  using reg_reach_entries_running[OF reg_run_reach[OF reg_reach.start assms(1)]] assms(2)
  by (simp add: entries_running_def)

definition sample_events :: "reg_event list" where
  "sample_events =
    [Ev_handshake 0 (sample_meta True) (handshake_new sample_host ''a''),
     Ev_handshake 1 (sample_meta True) (handshake_new sample_host ''a''),
     Ev_accept 0, Ev_accept 1]"

lemmas sample_run_simps = sample_events_def sample_meta_def handshake_new_def reg_init_def manager_new_def
  app_on_handshake_def app_make_handshake_def app_on_node_accepted_def app_on_node_exited_def
  manager_exists_def manager_insert_def manager_remove_def manager_get_def running_as_def

lemma sample_run:
  "\<exists>s. reg_run ''b'' sample_host reg_init sample_events = Some s \<and>
     manager_get (rs_nodes s) ''a'' = Some (1, handshake_new sample_host ''a'')"
  by (simp add: sample_run_simps)

lemma registry_never_stale_witness:
  "\<exists>s. reg_run ''b'' sample_host reg_init sample_events = Some s \<and>
     (\<exists>meta. rs_conns s 1 = Some (Conn_running meta (handshake_new sample_host ''a'')) \<and>
        nm_node_id meta = ''a'' \<and> hs_device_id (handshake_new sample_host ''a'') = ''a'')"
  using sample_run registry_never_stale by blast

text \<open>
  C5: as long as no two live connections carry the same node id, the table is exact: a
  connection is running under an id if and only if the table has its handle under that id.
\<close>

theorem registry_exact:
  assumes "reg_reach local_id host distinct_nodes s"
  shows "running_as s i k \<longleftrightarrow> (\<exists>info. manager_get (rs_nodes s) k = Some (i, info))"
  using reg_reach_running_registered[OF assms] reg_reach_entries_running[OF assms]
  unfolding running_registered_def entries_running_def running_as_def by blast

lemma sample_single:
  "reg_reach ''b'' sample_host distinct_nodes
     (accept_state (enter_state reg_init 0 (Conn_handshaken (sample_meta True) (handshake_new sample_host ''a'')))
        0 (sample_meta True) (handshake_new sample_host ''a''))"
  (is "reg_reach _ _ _ ?t")
proof (rule reg_reach.step)
  let ?s = "enter_state reg_init 0 (Conn_handshaken (sample_meta True) (handshake_new sample_host ''a''))"
  show "reg_reach ''b'' sample_host distinct_nodes ?s"
    by (rule reg_reach.step[OF reg_reach.start,
          where e = "Ev_handshake 0 (sample_meta True) (handshake_new sample_host ''a'')"])
      (auto simp: sample_run_simps distinct_nodes_def enter_state_def split: if_splits)
  show "reg_step ''b'' sample_host ?s (Ev_accept 0) = Some ?t"
    by (simp add: enter_state_def accept_state_def app_on_node_accepted_def)
  show "distinct_nodes ?t"
    by (auto simp: sample_run_simps distinct_nodes_def enter_state_def accept_state_def split: if_splits)
qed

theorem registry_exact_witness:
  "running_as (accept_state (enter_state reg_init 0
        (Conn_handshaken (sample_meta True) (handshake_new sample_host ''a'')))
      0 (sample_meta True) (handshake_new sample_host ''a'')) 0 ''a'' \<longleftrightarrow>
   (\<exists>info. manager_get (rs_nodes (accept_state (enter_state reg_init 0
        (Conn_handshaken (sample_meta True) (handshake_new sample_host ''a'')))
      0 (sample_meta True) (handshake_new sample_host ''a''))) ''a'' = Some (0, info))"
  by (rule registry_exact[OF sample_single])

text \<open>
  The check in \<open>on_handshake\<close> does not keep two connections of one node apart.  Two
  handshakes that are both checked before either connection is accepted both succeed; when
  the first of the two connections then exits, the entry of the second is removed, and a
  running node is not in the table any more.
\<close>

lemma registration_race:
  "\<exists>s. reg_run ''b'' sample_host reg_init (sample_events @ [Ev_exit 0]) = Some s \<and>
     running_as s 1 ''a'' \<and> manager_get (rs_nodes s) ''a'' = None"
  by (simp add: sample_run_simps)

end
