(* ===== verification/Crab_Pair.thy ===== *)
theory Crab_Pair
  imports Crab_Beats Crab_Registry
begin

text \<open>
  Two nodes that keep each other alive: the heartbeats of \<^verbatim>\<open>src/src/crab/nodes.rs\<close> and
  \<^verbatim>\<open>src/src/crab/proto/hook_wrapper.rs\<close> on both ends of one heartbeat stream.  The side that
  accepted the connection makes a heartbeat first (its peer is the client), the side that
  connected answers with one of its own, and the first acknowledges it.

  A pair of streams is consistent when each side reads what the other writes; the lemmas give
  what a side writes on all, and on a beginning, of what the other side has for it.
\<close>

section \<open>Heartbeats only add to the stream\<close>

lemma keeps_grows_handle [grow_rules]: "keeps grows (handle_heartbeat ac bc p meta) (\<lambda>_. True)"
  unfolding handle_heartbeat_def by (auto intro!: grow_rules)

lemma keeps_grows_beat: "keeps grows (node_heartbeat ac bc p meta w) (\<lambda>_. True)"
proof -
  have "keeps grows (hook_heartbeat_as_client ac bc p meta) (\<lambda>_. True)"
    unfolding hook_heartbeat_as_client_def by (auto intro!: grow_rules split: sum.split)
  moreover have "keeps grows (hook_heartbeat ac bc p meta) (\<lambda>_. True)"
    unfolding hook_heartbeat_def by (auto intro!: grow_rules split: sum.split)
  ultimately show ?thesis
    unfolding node_heartbeat_def heartbeat_as_client_def heartbeat_as_server_def
    by (auto intro: grow_rules split: wait.split)
qed

lemma keeps_grows_loop [grow_rules]: "keeps grows (heartbeat_loop (node_heartbeat ac bc p meta) ws) (\<lambda>_. True)"
proof (induction ws)
  case Nil
  show ?case unfolding heartbeat_loop.simps by (intro grow_rules TrueI)
next
  case (Cons w ws)
  then show ?case unfolding heartbeat_loop.simps by (intro growth.keeps_seq keeps_grows_beat)
qed

lemma grows_run: "keeps grows m Q \<Longrightarrow> \<exists>out. tx (snd (m s)) = tx s @ out"
  by (metis grows_def keepsD prod.collapse)

section \<open>One side\<close>

text \<open>A protocol that makes \<open>own\<close> as its heartbeat and takes \<open>peer\<close> from the other side.\<close>

locale beating =
  fixes p :: "('hs, 'hb) protocol" and own peer :: 'hb
  assumes makes: "p_make_heartbeat p = Inr own"
    and takes: "\<exists>r. p_on_heartbeat p meta peer = Inr r"
begin

lemma first_side:
  assumes "codec_ok bc" "framed bc Method_Heartbeat OPTION_NONE own a" "framed bc Method_Heartbeat OPTION_NONE peer b"
    and "framed ac Method_Heartbeat OPTION_NONE \<lparr>ack_code = NO_ERROR, ack_msg = None\<rparr> k"
    and "rx s = b @ rest" "tx_cap s = None"
  shows "hook_heartbeat_as_client ac bc p meta s = (Inr (), s\<lparr>rx := rest, tx := tx s @ a @ k\<rparr>)"
proof -
  obtain r where "p_on_heartbeat p meta peer = Inr r" using takes by blast
  with assms show ?thesis
    by (simp add: hook_heartbeat_as_client_def handle_heartbeat_def andthen_def attempt_def makes
        read_message_ok[OF assms(1,3) option_none_ok, where rest = rest]
        write_message_up[OF assms(2)] write_message_up[OF assms(4)])
qed

lemma second_side:
  assumes "codec_ok ac" "codec_ok bc"
    and "framed bc Method_Heartbeat OPTION_NONE own a" "framed bc Method_Heartbeat OPTION_NONE peer b"
    and "framed ac Method_Heartbeat OPTION_NONE \<lparr>ack_code = NO_ERROR, ack_msg = None\<rparr> k"
    and "rx s = b @ k @ rest" "tx_cap s = None"
  shows "hook_heartbeat ac bc p meta s = (Inr (), s\<lparr>rx := rest, tx := tx s @ a\<rparr>)"
proof -
  obtain r where "p_on_heartbeat p meta peer = Inr r" using takes by blast
  with assms show ?thesis
    by (simp add: hook_heartbeat_def handle_heartbeat_def andthen_def attempt_def makes
        read_message_ok[OF assms(2,4) option_none_ok, where rest = "k @ rest"]
        read_message_ok[OF assms(1,5) option_none_ok, where rest = rest]
        write_message_up[OF assms(3)])
qed

text \<open>As often as the other side goes along.\<close>

lemma first_side_beats:
  assumes "codec_ok bc" "framed bc Method_Heartbeat OPTION_NONE own a" "framed bc Method_Heartbeat OPTION_NONE peer b"
    and "framed ac Method_Heartbeat OPTION_NONE \<lparr>ack_code = NO_ERROR, ack_msg = None\<rparr> k"
    and "nm_as_client meta"
  shows "rx s = concat (replicate (length ws) b) @ rest \<Longrightarrow> tx_cap s = None \<Longrightarrow> Wt_cancelled \<notin> set ws \<Longrightarrow>
    heartbeat_loop (node_heartbeat ac bc p meta) ws s =
      (Inr (), s\<lparr>rx := rest, tx := tx s @ concat (replicate (length ws) (a @ k))\<rparr>)"
proof (induction ws arbitrary: s)
  case (Cons w ws)
  let ?s = "s\<lparr>rx := concat (replicate (length ws) b) @ rest, tx := tx s @ a @ k\<rparr>"
  have "node_heartbeat ac bc p meta w s = (Inr (), ?s)"
    using first_side[OF assms(1-4), of s "concat (replicate (length ws) b) @ rest" meta] Cons.prems assms(5)
    by (cases w) (simp_all add: node_heartbeat_def heartbeat_as_client_def)
  with Cons.IH[of ?s] Cons.prems show ?case by (simp add: andthen_def)
qed simp

lemma second_side_beats:
  assumes "codec_ok ac" "codec_ok bc"
    and "framed bc Method_Heartbeat OPTION_NONE own a" "framed bc Method_Heartbeat OPTION_NONE peer b"
    and "framed ac Method_Heartbeat OPTION_NONE \<lparr>ack_code = NO_ERROR, ack_msg = None\<rparr> k"
    and "\<not> nm_as_client meta"
  shows "rx s = concat (replicate n (b @ k)) @ rest \<Longrightarrow> tx_cap s = None \<Longrightarrow>
    heartbeat_loop (node_heartbeat ac bc p meta) (replicate n Wt_ready) s =
      (Inr (), s\<lparr>rx := rest, tx := tx s @ concat (replicate n a)\<rparr>)"
proof (induction n arbitrary: s)
  case (Suc n)
  let ?s = "s\<lparr>rx := concat (replicate n (b @ k)) @ rest, tx := tx s @ a\<rparr>"
  have "node_heartbeat ac bc p meta Wt_ready s = (Inr (), ?s)"
    using second_side[OF assms(1-5), of s "concat (replicate n (b @ k)) @ rest" meta] Suc.prems assms(6)
    by (simp add: node_heartbeat_def heartbeat_as_server_def)
  with Suc.IH[of ?s] Suc.prems show ?case by (simp add: andthen_def)
qed simp

text \<open>The first heartbeat of \<open>serve\<close> is one more of them.\<close>

lemma first_side_serves:
  assumes "codec_ok bc" "framed bc Method_Heartbeat OPTION_NONE own a" "framed bc Method_Heartbeat OPTION_NONE peer b"
    and "framed ac Method_Heartbeat OPTION_NONE \<lparr>ack_code = NO_ERROR, ack_msg = None\<rparr> k"
    and "nm_as_client meta" "rx s = concat (replicate (Suc (length ws)) b)" "tx_cap s = None" "Wt_cancelled \<notin> set ws"
  shows "node_serve ac bc p meta Wt_ready (Inr s) ws joins node_new = (None, set_status NodeStatus_Running node_new)"
proof -
  let ?s = "s\<lparr>rx := concat (replicate (length ws) b), tx := tx s @ a @ k\<rparr>"
  have "make_first_heartbeat ac bc p meta False (Inr s) = Inr ?s"
    using first_side[OF assms(1-4), of s "concat (replicate (length ws) b)" meta] assms(5-7)
    by (simp add: make_first_heartbeat_def)
  with first_side_beats[OF assms(1-5), of ?s ws "[]"] assms(7,8) show ?thesis by (simp add: node_serve_def)
qed

lemma second_side_serves:
  assumes "codec_ok ac" "codec_ok bc"
    and "framed bc Method_Heartbeat OPTION_NONE own a" "framed bc Method_Heartbeat OPTION_NONE peer b"
    and "framed ac Method_Heartbeat OPTION_NONE \<lparr>ack_code = NO_ERROR, ack_msg = None\<rparr> k"
    and "\<not> nm_as_client meta" "rx s = concat (replicate (Suc n) (b @ k))" "tx_cap s = None"
  shows "node_serve ac bc p meta Wt_ready (Inr s) (replicate n Wt_ready) joins node_new =
    (None, set_status NodeStatus_Running node_new)"
proof -
  let ?s = "s\<lparr>rx := concat (replicate n (b @ k)), tx := tx s @ a\<rparr>"
  have "make_first_heartbeat ac bc p meta False (Inr s) = Inr ?s"
    using second_side[OF assms(1-5), of s "concat (replicate n (b @ k))" meta] assms(6-8)
    by (simp add: make_first_heartbeat_def)
  with second_side_beats[OF assms(1-6), of ?s n "[]"] assms(8) show ?thesis by (simp add: node_serve_def)
qed

text \<open>
  Bytes the other side has not written yet are missing in the model, and reading them fails; all
  that has been written before that is there.
\<close>

lemma first_side_ahead:
  fixes s :: "'z stream_scheme"
  assumes "codec_ok bc" "framed bc Method_Heartbeat OPTION_NONE own a" "framed bc Method_Heartbeat OPTION_NONE peer b"
    and "framed ac Method_Heartbeat OPTION_NONE \<lparr>ack_code = NO_ERROR, ack_msg = None\<rparr> k"
    and "nm_as_client meta" "rx s = concat (replicate i b)" "tx_cap s = None" "Wt_cancelled \<notin> set ws" "i < length ws"
  shows "\<exists>out. tx (snd (heartbeat_loop (node_heartbeat ac bc p meta) ws s)) =
    tx s @ concat (replicate i (a @ k)) @ a @ out"
proof -
  let ?beat = "node_heartbeat ac bc p meta"
  let ?s = "s\<lparr>rx := [], tx := tx s @ concat (replicate i (a @ k))\<rparr>"
  obtain w us where ws: "drop i ws = w # us" using assms(9) by (cases "drop i ws") auto
  then have split: "ws = take i ws @ w # us" by (metis append_take_drop_id)
  have "heartbeat_loop ?beat (take i ws) s = (Inr (), ?s)"
    using first_side_beats[OF assms(1-5), of s "take i ws" "[]"] assms(6-9) by (auto dest: in_set_takeD)
  then have run: "heartbeat_loop ?beat ws s = heartbeat_loop ?beat (w # us) ?s"
    by (subst split) (simp add: heartbeat_loop_append andthen_def)
  have "w \<noteq> Wt_cancelled" using assms(8) ws by (metis in_set_dropD list.set_intros(1))
  define rest :: "('z, unit) sprog" where "rest = andthen (attempt (handle_heartbeat ac bc p meta)) (\<lambda>r. andthen (case r of
          Inl err \<Rightarrow> write_error ac Method_Heartbeat OPTION_ERROR err
        | Inr _ \<Rightarrow> write_message ac Method_Heartbeat OPTION_NONE \<lparr>ack_code = NO_ERROR, ack_msg = None\<rparr>)
        (\<lambda>_. heartbeat_loop ?beat us))"
  have "heartbeat_loop ?beat (w # us) ?s = rest (?s\<lparr>tx := tx ?s @ a\<rparr>)"
    using assms(5,7) \<open>w \<noteq> Wt_cancelled\<close>
    by (cases w) (simp_all add: rest_def node_heartbeat_def heartbeat_as_client_def hook_heartbeat_as_client_def makes
        andthen_assoc andthen_def[of "write_message bc Method_Heartbeat OPTION_NONE own"] write_message_up[OF assms(2)])
  moreover have "keeps grows rest (\<lambda>_. True)"
    unfolding rest_def by (auto intro!: grow_rules split: sum.split)
  ultimately show ?thesis
    using grows_run[of rest "\<lambda>_. True" "?s\<lparr>tx := tx ?s @ a\<rparr>"] run by auto
qed

lemma second_side_ahead:
  fixes s :: "'z stream_scheme"
  assumes "codec_ok ac" "codec_ok bc"
    and "framed bc Method_Heartbeat OPTION_NONE own a" "framed bc Method_Heartbeat OPTION_NONE peer b"
    and "framed ac Method_Heartbeat OPTION_NONE \<lparr>ack_code = NO_ERROR, ack_msg = None\<rparr> k"
    and "\<not> nm_as_client meta" "rx s = concat (replicate i (b @ k)) @ b" "tx_cap s = None" "i < n"
  shows "\<exists>out. tx (snd (heartbeat_loop (node_heartbeat ac bc p meta) (replicate n Wt_ready) s)) =
    tx s @ concat (replicate (Suc i) a) @ out"
proof -
  let ?beat = "node_heartbeat ac bc p meta"
  let ?s = "s\<lparr>rx := b, tx := tx s @ concat (replicate i a)\<rparr>"
  let ?t = "s\<lparr>rx := [], tx := tx s @ concat (replicate i a) @ a\<rparr>"
  obtain m where m: "n = i + Suc m" using assms(9) less_iff_Suc_add by auto
  have "heartbeat_loop ?beat (replicate i Wt_ready) s = (Inr (), ?s)"
    by (rule second_side_beats[OF assms(1-6,7,8)])
  then have run: "heartbeat_loop ?beat (replicate n Wt_ready) s = heartbeat_loop ?beat (replicate (Suc m) Wt_ready) ?s"
    by (simp only: m replicate_add heartbeat_loop_append andthen_def) simp
  obtain r where "p_on_heartbeat p meta peer = Inr r" using takes by blast
  then have "handle_heartbeat ac bc p meta ?s = (Inr r, ?s\<lparr>rx := []\<rparr>)"
    by (simp add: handle_heartbeat_def andthen_def read_message_ok[OF assms(2,4) option_none_ok, where rest = "[]"])
  define rest :: "('z, unit) sprog" where "rest = andthen (read_message ac ac) (\<lambda>(_, ack). andthen
        (if ack_code ack \<noteq> NO_ERROR then throw (ErrorCode (ack_code ack)) else ret ())
        (\<lambda>_. heartbeat_loop ?beat (replicate m Wt_ready)))"
  have "heartbeat_loop ?beat (replicate (Suc m) Wt_ready) ?s = rest ?t"
    using assms(6,8) \<open>handle_heartbeat ac bc p meta ?s = _\<close>
    by (simp add: rest_def node_heartbeat_def heartbeat_as_server_def hook_heartbeat_def makes andthen_assoc
        andthen_def[of "attempt _"] attempt_def andthen_def[of "write_message bc Method_Heartbeat OPTION_NONE own"]
        write_message_up[OF assms(3)] case_prod_unfold)
  moreover have "keeps grows rest (\<lambda>_. True)"
    unfolding rest_def by (auto intro!: grow_rules)
  moreover have "concat (replicate (Suc i) a) = concat (replicate i a) @ a"
    using replicate_append_same[of i a] by (metis concat.simps concat_append replicate_Suc append_Nil2)
  ultimately show ?thesis
    using grows_run[of rest "\<lambda>_. True" ?t] run by auto
qed

end

interpretation app_pair: beating "app_protocol local_id host m" Command_Ping Command_Ping
  for local_id :: string and host :: host_info and m :: "'h manager"
  by unfold_locales (simp_all add: app_on_heartbeat_def)

lemma server_waits_ready: "list_all (in_time opts) ds \<Longrightarrow> server_waits opts ds = replicate (length ds) Wt_ready"
  by (induction ds) simp_all

section \<open>Properties\<close>

text \<open>
  C11: two nodes of the application keep each other running.  Take the two ends of a heartbeat
  stream that stays up, on which each side finds what the other writes, and let no heartbeat of the
  accepting side take longer than the timeout of the connecting side leaves beside the interval.
  Then, after the first heartbeat and any number more, both nodes are running; each has read
  all the other has written, and written all the other has read.  Neither ever waits for the
  other in a circle: with \<open>i\<close> heartbeats of its peer the accepting side has written its own
  heartbeat number \<open>i + 1\<close>, and with that one the connecting side has written its own.
\<close>

theorem nodes_keep_each_other_running:
  assumes "codec_ok ac" "codec_ok cc" "framed cc Method_Heartbeat OPTION_NONE Command_Ping b"
    and "framed ac Method_Heartbeat OPTION_NONE \<lparr>ack_code = NO_ERROR, ack_msg = None\<rparr> k"
    and "nm_as_client client" "\<not> nm_as_client server" "tx_cap s = None" "tx_cap c = None" "tx s = []" "tx c = []"
    and "\<forall>d \<in> set ds. 1000 * unat (heartbeat_interval opts) + d \<le> 1000 * unat (heartbeat_timeout opts)"
    and "ws = server_waits opts ds"
    and "rx s = concat (replicate (Suc (length ds)) b)" "rx c = concat (replicate (Suc (length ds)) (b @ k))"
    and "accepting = heartbeat_loop (node_heartbeat ac cc (app_protocol id1 host1 m1) client) (Wt_ready # ws)"
    and "connecting = heartbeat_loop (node_heartbeat ac cc (app_protocol id2 host2 m2) server) (Wt_ready # ws)"
  shows "node_serve ac cc (app_protocol id1 host1 m1) client Wt_ready (Inr s) ws joins1 node_new =
      (None, set_status NodeStatus_Running node_new) \<and>
    node_serve ac cc (app_protocol id2 host2 m2) server Wt_ready (Inr c) ws joins2 node_new =
      (None, set_status NodeStatus_Running node_new) \<and>
    accepting s = (Inr (), s\<lparr>rx := [], tx := rx c\<rparr>) \<and> connecting c = (Inr (), c\<lparr>rx := [], tx := rx s\<rparr>) \<and>
    (\<forall>i \<le> length ds.
       (\<exists>out. tx (snd (accepting (s\<lparr>rx := concat (replicate i b)\<rparr>))) = concat (replicate i (b @ k)) @ b @ out) \<and>
       (\<exists>out. tx (snd (connecting (c\<lparr>rx := concat (replicate i (b @ k)) @ b\<rparr>))) = concat (replicate (Suc i) b) @ out))"
proof -
  have "list_all (in_time opts) ds"
    using assms(11) by (simp add: list_all_iff in_time_def beat_after_def duration_from_secs_def)
  then have ws: "ws = replicate (length ds) Wt_ready" "Wt_ready # ws = replicate (Suc (length ds)) Wt_ready"
    "Wt_cancelled \<notin> set ws" "length ws = length ds"
    unfolding assms(12) by (simp_all add: server_waits_ready)
  note first = assms(2,3,3,4,5) and second = assms(1,2,3,3,4,6)
  have "node_serve ac cc (app_protocol id1 host1 m1) client Wt_ready (Inr s) ws joins1 node_new =
      (None, set_status NodeStatus_Running node_new)"
    by (rule app_pair.first_side_serves[OF first _ assms(7) ws(3)]) (simp only: assms(13) ws(4))
  moreover have "node_serve ac cc (app_protocol id2 host2 m2) server Wt_ready (Inr c) ws joins2 node_new =
      (None, set_status NodeStatus_Running node_new)"
    unfolding ws(1) by (rule app_pair.second_side_serves[OF second assms(14,8)])
  moreover have "accepting s = (Inr (), s\<lparr>rx := [], tx := rx c\<rparr>)"
    using app_pair.first_side_beats[OF first, of s "Wt_ready # ws" "[]"] assms(7,9,13,14) ws(3,4) by (simp add: assms(15))
  moreover have "connecting c = (Inr (), c\<lparr>rx := [], tx := rx s\<rparr>)"
    unfolding assms(16) ws(2) using app_pair.second_side_beats[OF second, of c "Suc (length ds)" "[]"] assms(8,10,13,14)
    by simp
  moreover have "\<exists>out. tx (snd (accepting (s\<lparr>rx := concat (replicate i b)\<rparr>))) = concat (replicate i (b @ k)) @ b @ out"
    if "i \<le> length ds" for i
    unfolding assms(15)
    using app_pair.first_side_ahead[OF first, of "s\<lparr>rx := concat (replicate i b)\<rparr>" i "Wt_ready # ws"] assms(7,9) ws(3,4) that
    by simp
  moreover have "\<exists>out. tx (snd (connecting (c\<lparr>rx := concat (replicate i (b @ k)) @ b\<rparr>))) = concat (replicate (Suc i) b) @ out"
    if "i \<le> length ds" for i
    unfolding assms(16) ws(2)
    using app_pair.second_side_ahead[OF second, of "c\<lparr>rx := concat (replicate i (b @ k)) @ b\<rparr>" i "Suc (length ds)"]
      assms(8,10) that
    by simp
  ultimately show ?thesis by blast
qed

theorem nodes_keep_each_other_running_witness:
  "node_serve sample_ack (table_codec [(Command_Ping, [9])]) (app_protocol ''a'' sample_host (manager_new :: nat manager))
      sample_peer Wt_ready (Inr (stream_of (concat (replicate 3 (small_frame Method_Heartbeat OPTION_NONE 9)))))
      (server_waits default_options [200, 15000]) [] node_new = (None, set_status NodeStatus_Running node_new) \<and>
   node_serve sample_ack (table_codec [(Command_Ping, [9])]) (app_protocol ''b'' sample_host (manager_new :: nat manager))
      server_peer Wt_ready (Inr (stream_of (concat (replicate 3
        (small_frame Method_Heartbeat OPTION_NONE 9 @ small_frame Method_Heartbeat OPTION_NONE 0)))))
      (server_waits default_options [200, 15000]) [] node_new = (None, set_status NodeStatus_Running node_new)"
proof -
  let ?b = "small_frame Method_Heartbeat OPTION_NONE 9" and ?k = "small_frame Method_Heartbeat OPTION_NONE 0"
  let ?s = "stream_of (concat (replicate 3 ?b))" and ?c = "stream_of (concat (replicate 3 (?b @ ?k)))"
  have cc: "codec_ok (table_codec [(Command_Ping, [9])])" by (rule table_codec_ok) simp
  have b: "framed (table_codec [(Command_Ping, [9])]) Method_Heartbeat OPTION_NONE Command_Ping ?b"
    by (rule small_framed) (simp add: table_codec_def)
  have k: "framed sample_ack Method_Heartbeat OPTION_NONE \<lparr>ack_code = NO_ERROR, ack_msg = None\<rparr> ?k"
    using small_framed[OF sample_ack_facts(2)] by (simp add: ack_success_def)
  have time: "\<forall>d \<in> set [200, 15000]. 1000 * unat (heartbeat_interval default_options) + d
      \<le> 1000 * unat (heartbeat_timeout default_options)"
    by (simp add: default_options_def)
  have ends: "nm_as_client sample_peer" "\<not> nm_as_client server_peer" "tx_cap ?s = None" "tx_cap ?c = None" "tx ?s = []" "tx ?c = []"
    by (simp_all add: sample_peer_def server_peer_def stream_of_def)
  have bytes: "rx ?s = concat (replicate (Suc (length [200, 15000 :: nat])) ?b)"
    "rx ?c = concat (replicate (Suc (length [200, 15000 :: nat])) (?b @ ?k))"
    by (simp_all add: stream_of_def numeral_3_eq_3)
  note both = nodes_keep_each_other_running[OF sample_ack_facts(1) cc b k ends time refl bytes refl refl]
  show ?thesis by (intro conjI both[THEN conjunct1] both[THEN conjunct2, THEN conjunct1])
qed

end
