(* ===== verification/Crab_Endpoint.thy ===== *)
theory Crab_Endpoint
  imports Crab_Node Crab_Registry
begin

text \<open>
  \<^verbatim>\<open>src/src/crab/endpoint.rs\<close> and \<^verbatim>\<open>src/src/crab/utils.rs\<close>: the local endpoint, which accepts
  connections and opens connections to the configured addresses, runs the handshake on each
  and serves the nodes.

  Connections are values of a parameter type; what the QUIC endpoint and the timers do is
  given by the outcomes of the races, as in \<open>Crab_Node\<close>.  The sender on which the
  connecting loop waits for its node to be over is a \<open>oneshot\<close>.
\<close>

section \<open>Remote addresses\<close>

text \<open>\<open>str::rsplit_once(':')\<close>: the part before the last colon and the part after it.\<close>

definition rsplit_colon :: "string \<Rightarrow> (string \<times> string) option" where
  "rsplit_colon s =
    (let after = takeWhile (\<lambda>c. c \<noteq> CHR '':'') (rev s)
     in if length after = length s then None
        else Some (take (length s - Suc (length after)) s, rev after))"

definition parse_remote_addr ::
  "(string \<Rightarrow> crab_error + socket_addr list) \<Rightarrow> string \<Rightarrow> crab_error + string \<times> socket_addr list" where
  "parse_remote_addr lookup addr =
    (case rsplit_colon addr of
       None \<Rightarrow> Inl (ErrorCode BAD_REMOTE_ADDR)
     | Some (host, _) \<Rightarrow>
         (case lookup addr of
            Inl e \<Rightarrow> Inl e
          | Inr addrs \<Rightarrow> Inr (host, addrs)))"

text \<open>What becomes of the attempt on one address.\<close>

datatype 'c attempt = At_init_error | At_failed | At_timeout | At_cancelled | At_connected 'c

fun connect_first :: "(socket_addr \<Rightarrow> 'c attempt) \<Rightarrow> socket_addr list \<Rightarrow> crab_error + 'c" where
  "connect_first dial [] = Inl (ErrorCode CONNECT_ERROR)"
| "connect_first dial (addr # addrs) =
    (case dial addr of
       At_connected c \<Rightarrow> Inr c
     | At_cancelled \<Rightarrow> Inl (ErrorCode CANCELED_ERROR)
     | _ \<Rightarrow> connect_first dial addrs)"

definition connect_remote_node ::
  "(string \<Rightarrow> crab_error + socket_addr list) \<Rightarrow> (string \<Rightarrow> socket_addr \<Rightarrow> 'c attempt) \<Rightarrow> string
    \<Rightarrow> crab_error + 'c" where
  "connect_remote_node lookup dial addr =
    (case parse_remote_addr lookup addr of
       Inl e \<Rightarrow> Inl e
     | Inr (host, addrs) \<Rightarrow> connect_first (dial host) addrs)"

section \<open>The connecting loop\<close>

text \<open>
  One round of \<open>start_remote_node\<close>: whether the token is cancelled at the loop's test or
  during the delay, what connecting yields, whether the connection could be handed on and
  what the loop receives when it waits for its node (\<open>None\<close>: the sender was dropped).
\<close>

record 'c round =
  rd_cancelled :: bool
  rd_interrupted :: bool
  rd_connect :: "crab_error + 'c"
  rd_handed :: bool
  rd_node_over :: "unit option"

text \<open>No result means that the loop goes on after the given rounds.\<close>

fun start_remote_node :: "'c round list \<Rightarrow> (crab_error + unit) option" where
  "start_remote_node [] = None"
| "start_remote_node (r # rs) =
    (if rd_cancelled r then Some (Inr ())
     else if rd_interrupted r then Some (Inr ())
     else (case rd_connect r of
         Inl _ \<Rightarrow> start_remote_node rs
       | Inr conn \<Rightarrow>
           if \<not> rd_handed r then Some (Inl (ErrorCode CANCELED_ERROR))
           else (case rd_node_over r of
               None \<Rightarrow> Some (Inl (ErrorCode CANCELED_ERROR))
             | Some _ \<Rightarrow> start_remote_node rs)))"

text \<open>\<open>start_all_remote_node\<close>: one loop for each address; it is over when all are, always with \<open>Ok\<close>.\<close>

definition start_all_remote_node :: "('c round list) list option \<Rightarrow> (crab_error + unit) option" where
  "start_all_remote_node remotes =
    (case remotes of
       None \<Rightarrow> Some (Inr ())
     | Some rs \<Rightarrow> if list_all (\<lambda>r. start_remote_node r \<noteq> None) rs then Some (Inr ()) else None)"

section \<open>The task of a connection\<close>

definition endpoint_handshake :: "bool \<Rightarrow> 'r \<Rightarrow> 'r \<Rightarrow> 'r" where
  "endpoint_handshake as_client handshake_as_client handshake =
    (if as_client then handshake_as_client else handshake)"

definition handshake_with_timeout ::
  "wait \<Rightarrow> crab_error + node_metadata \<times> 'hs \<Rightarrow> crab_error + node_metadata \<times> node \<times> 'hs" where
  "handshake_with_timeout w handshake =
    (case w of
       Wt_ready \<Rightarrow> map_sum id (\<lambda>(meta, extra). (meta, node_new, extra)) handshake
     | Wt_elapsed \<Rightarrow> Inl (ErrorCode HANDSHAKE_TIMEOUT)
     | Wt_cancelled \<Rightarrow> Inl (ErrorCode CANCELED_ERROR))"

text \<open>
  The task \<open>serve_all_connection\<close> spawns for a connection with its sender \<open>notify\<close>: the node
  with the sender, or the error; on an error the sender is dropped with the task.  The
  state is the table; \<open>accepted\<close> is \<open>on_connection_accepted\<close>.
\<close>

definition connection_task ::
  "crab_error + unit \<Rightarrow> wait \<Rightarrow> crab_error + node_metadata \<times> handshake \<Rightarrow> 'h
    \<Rightarrow> unit oneshot option \<Rightarrow> 'h manager
    \<Rightarrow> (crab_error + node_metadata \<times> node) \<times> unit oneshot option \<times> 'h manager" where
  "connection_task accepted w handshake h notify m =
    (case accepted of
       Inl e \<Rightarrow> (Inl e, map_option oneshot_close notify, m)
     | Inr _ \<Rightarrow>
         (case handshake_with_timeout w handshake of
            Inl e \<Rightarrow> (Inl e, map_option oneshot_close notify, m)
          | Inr (meta, node, extra) \<Rightarrow>
              (case hook_on_node_accepted (\<lambda>meta h info m. app_on_node_accepted m meta h info) meta h (Some extra) m of
                 (Inl e, m') \<Rightarrow> (Inl e, map_option oneshot_close notify, m')
               | (Inr _, m') \<Rightarrow> (Inr (meta, node), notify, m'))))"

text \<open>
  The task \<open>serve_all_node\<close> spawns: the node is served, whatever comes of it the hook is told
  and the sender, if there is one, gets its message.
\<close>

definition node_task ::
  "crab_error + unit \<Rightarrow> node_metadata \<Rightarrow> unit oneshot option \<Rightarrow> 'h manager
    \<Rightarrow> unit oneshot option \<times> 'h manager" where
  "node_task served meta callback m =
    (map_option (\<lambda>c. snd (oneshot_send () c)) callback, app_on_node_exited m meta)"

section \<open>The loops of the endpoint\<close>

text \<open>
  \<open>listen\<close> and \<open>serve_all_connection\<close> leave their loop on cancellation and at the end of their
  input, and then shut down the tasks that still run; \<open>serve_all_node\<close> does not look at the
  token: it leaves its loop only at the end of the channel and waits for its nodes.
\<close>

definition shut_down :: "'w loop_state \<Rightarrow> 'w loop_state" where
  "shut_down s = (if ls_open s then s\<lparr>ls_open := False, ls_running := []\<rparr> else s)"

fun connections_step :: "'w loop_state \<Rightarrow> 'w loop_event \<Rightarrow> 'w loop_state" where
  "connections_step s Le_cancel = shut_down s"
| "connections_step s (Le_recv m) =
    (case m of
       None \<Rightarrow> shut_down s
     | Some conn \<Rightarrow> if ls_open s then spawn conn s else s)"
| "connections_step s (Le_join i) = reap i s"

text \<open>
  \<open>listen\<close>: an incoming connection is a task that completes the QUIC handshake, \<open>quic\<close> is its
  outcome (\<open>None\<close> for a failure of the handshake or of the task).  A connection that is ready
  goes to the channel of \<open>serve_all_connection\<close>, as one the peer opened and without a sender;
  whether the channel takes it does not matter to the loop.
\<close>

record ('i, 'c) listen_state =
  li_loop :: "'i loop_state"
  li_sent :: "('c \<times> bool \<times> unit oneshot option) list"

definition listen_init :: "('i, 'c) listen_state" where
  "listen_init = \<lparr>li_loop = loop_init, li_sent = []\<rparr>"

fun listen_step ::
  "('i \<Rightarrow> 'c option) \<Rightarrow> ('i, 'c) listen_state \<Rightarrow> 'i loop_event \<Rightarrow> ('i, 'c) listen_state" where
  "listen_step quic s (Le_recv incoming) =
    (if ls_open (li_loop s)
     then (case incoming of
             Some i \<Rightarrow> s\<lparr>li_loop := spawn i (li_loop s)\<rparr>
           | None \<Rightarrow> s\<lparr>li_loop := shut_down (li_loop s)\<rparr>)
     else s)"
| "listen_step quic s Le_cancel = s\<lparr>li_loop := shut_down (li_loop s)\<rparr>"
| "listen_step quic s (Le_join i) =
    (if i < length (ls_running (li_loop s))
     then s\<lparr>li_loop := reap i (li_loop s),
            li_sent := li_sent s @
              (case quic (ls_running (li_loop s) ! i) of Some conn \<Rightarrow> [(conn, False, None)] | None \<Rightarrow> [])\<rparr>
     else s)"

definition listen_run :: "('i \<Rightarrow> 'c option) \<Rightarrow> 'i loop_event list \<Rightarrow> ('i, 'c) listen_state" where
  "listen_run quic es = fold (\<lambda>e s. listen_step quic s e) es listen_init"

fun nodes_step :: "'w loop_state \<Rightarrow> 'w loop_event \<Rightarrow> 'w loop_state" where
  "nodes_step s Le_cancel = s"
| "nodes_step s (Le_recv m) =
    (if ls_open s then (case m of Some n \<Rightarrow> spawn n s | None \<Rightarrow> s\<lparr>ls_open := False\<rparr>) else s)"
| "nodes_step s (Le_join i) = reap i s"

text \<open>
  \<open>serve\<close>: nothing to do without listening and without remote addresses; otherwise the parts
  that are configured run beside \<open>serve_all_connection\<close> and the result is \<open>Ok\<close> when all
  are over, whatever their results.
\<close>

datatype endpoint_part = Part_listen | Part_remote | Part_connections

definition endpoint_parts :: "bool \<Rightarrow> bool \<Rightarrow> endpoint_part list" where
  "endpoint_parts listen remote =
    (let ps = (if listen then [Part_listen] else []) @ (if remote then [Part_remote] else [])
     in if ps = [] then [] else ps @ [Part_connections])"

definition endpoint_serve ::
  "bool \<Rightarrow> bool \<Rightarrow> (endpoint_part \<Rightarrow> join_result option) \<Rightarrow> (crab_error + unit) option" where
  "endpoint_serve listen remote result =
    (if list_all (\<lambda>p. result p \<noteq> None) (endpoint_parts listen remote) then Some (Inr ()) else None)"

section \<open>The contracts of the loops\<close>

lemma connections_step_laws:
  "ls_open (connections_step s e) \<Longrightarrow> ls_open s"
  "\<not> ls_open s \<Longrightarrow> ls_spawned (connections_step s e) = ls_spawned s"
  "\<exists>ws. ls_spawned (connections_step s e) = ls_spawned s @ ws \<and>
     mset (ls_running (connections_step s e)) \<subseteq># mset (ls_running s) + mset ws \<and>
     set ws \<subseteq> {w. e = Le_recv (Some w)}"
  by (cases e; auto simp: shut_down_def split: if_splits option.splits)+

lemma nodes_step_laws:
  "ls_open (nodes_step s e) \<Longrightarrow> ls_open s"
  "\<not> ls_open s \<Longrightarrow> ls_spawned (nodes_step s e) = ls_spawned s"
  "\<exists>ws. ls_spawned (nodes_step s e) = ls_spawned s @ ws \<and>
     mset (ls_running (nodes_step s e)) \<subseteq># mset (ls_running s) + mset ws \<and>
     set ws \<subseteq> {w. e = Le_recv (Some w)}"
  by (cases e; auto split: if_splits option.splits)+

interpretation connections: spawn_loop connections_step "\<lambda>_. False"
  by unfold_locales (simp_all add: connections_step_laws shut_down_def)

interpretation nodes: spawn_loop nodes_step "\<lambda>_. False"
  by unfold_locales (simp_all add: nodes_step_laws)

section \<open>Lemmas\<close>

lemma nodes_loop_open:
  "Le_recv None \<notin> set es \<Longrightarrow> ls_open (loop_run nodes_step es) \<and> ls_spawned (loop_run nodes_step es) = received es"
proof (induction es rule: rev_induct)
  case Nil
  show ?case by (simp add: loop_run_def loop_init_def)
next
  case (snoc e es)
  then have IH: "ls_open (loop_run nodes_step es)" "ls_spawned (loop_run nodes_step es) = received es" by auto
  show ?case
  proof (cases e)
    case (Le_recv m)
    with snoc.prems obtain n where "m = Some n" by (cases m) auto
    with Le_recv IH show ?thesis by (simp add: nodes.run_snoc)
  qed (use IH in \<open>simp_all add: nodes.run_snoc\<close>)
qed

lemma manager_get_insert:
  "manager_get (manager_insert m k h info) = (manager_get m)(k := Some (h, info))"
  by (rule ext) (simp add: mgr.get_ins)

lemma connections_idle:
  "\<not> ls_open s \<Longrightarrow> ls_running s = [] \<Longrightarrow> connections_step s e = s"
  by (cases e) (auto simp: shut_down_def reap_def split: option.splits)

lemma connections_stop:
  assumes "stop = Le_cancel \<or> stop = Le_recv None" "ls_open s"
  shows "\<not> ls_open (connections_step s stop) \<and> ls_running (connections_step s stop) = [] \<and>
    ls_spawned (connections_step s stop) = ls_spawned s"
  using assms by (auto simp: shut_down_def)

text \<open>The tasks of \<open>listen\<close> obey the contract of the loops: they are those of \<open>connections_step\<close>.\<close>

lemma listen_loop: "li_loop (listen_run quic es) = loop_run connections_step es"
proof (induction es rule: rev_induct)
  case Nil
  show ?case by (simp add: listen_run_def listen_init_def loop_run_def)
next
  case (snoc e es)
  have "li_loop (listen_step quic s e) = connections_step (li_loop s) e" for s :: "('a, 'b) listen_state"
    by (cases e) (auto simp: reap_def shut_down_def split: option.split)
  with snoc show ?case by (simp add: listen_run_def connections.run_snoc)
qed

lemma listen_run_snoc: "listen_run quic (es @ [e]) = listen_step quic (listen_run quic es) e"
  by (simp add: listen_run_def)

text \<open>The handshakes among \<open>incoming\<close> that succeed, with their connections.\<close>

definition ready_of :: "('i \<Rightarrow> 'c option) \<Rightarrow> 'i list \<Rightarrow> 'c option multiset" where
  "ready_of quic incoming = filter_mset (\<lambda>c. c \<noteq> None) (image_mset quic (mset incoming))"

lemma mset_remove_nth_add: "i < length xs \<Longrightarrow> mset xs = add_mset (xs ! i) (mset (remove_nth i xs))"
  using arg_cong[OF id_take_nth_drop[of i xs], of mset] by (simp add: remove_nth_def)

lemma listen_balance:
  assumes "Le_cancel \<notin> set es" "Le_recv None \<notin> set es"
  shows "ready_of quic (received es) =
    mset (map (Some \<circ> fst) (li_sent (listen_run quic es))) +
    ready_of quic (ls_running (li_loop (listen_run quic es)))"
  using assms
proof (induction es rule: rev_induct)
  case Nil
  show ?case by (simp add: listen_run_def listen_init_def loop_init_def ready_of_def)
next
  case (snoc e es)
  let ?s = "listen_run quic es"
  have op: "ls_open (li_loop ?s)" using connections.all_spawned[of es] snoc.prems by (simp add: listen_loop)
  show ?case
  proof (cases e)
    case Le_cancel
    with snoc.prems show ?thesis by simp
  next
    case (Le_recv m)
    with snoc.prems obtain i where "m = Some i" by (cases m) auto
    with Le_recv snoc op show ?thesis by (simp add: listen_run_snoc ready_of_def)
  next
    case (Le_join i)
    with snoc show ?thesis
      by (auto simp: listen_run_snoc reap_def ready_of_def
        mset_remove_nth_add[of i "ls_running (li_loop ?s)"] split: option.split)
  qed
qed

text \<open>
  What a connecting loop receives for its connection: the task of the connection and, if it
  admits the node, the task of the node handle the sender.
\<close>

definition node_over ::
  "crab_error + unit \<Rightarrow> wait \<Rightarrow> crab_error + node_metadata \<times> handshake \<Rightarrow> crab_error + unit \<Rightarrow> 'h
    \<Rightarrow> 'h manager \<Rightarrow> unit option" where
  "node_over accepted w handshake served h m =
    (case connection_task accepted w handshake h (Some Os_open) m of
       (Inl _, notify, _) \<Rightarrow> Option.bind notify oneshot_recv
     | (Inr (meta, _), notify, m') \<Rightarrow> Option.bind (fst (node_task served meta notify m')) oneshot_recv)"

lemmas connection_defs = connection_task_def handshake_with_timeout_def hook_on_node_accepted_def
  app_on_node_accepted_def node_task_def app_on_node_exited_def

lemma node_over_iff:
  "node_over accepted w handshake served h m =
    (if accepted = Inr () \<and> w = Wt_ready \<and> (\<exists>x. handshake = Inr x) then Some () else None)"
  by (cases handshake) (auto simp: node_over_def connection_defs split: sum.splits wait.splits)

text \<open>A hook with the defaults of its trait lets connections in, and admits no node.\<close>

lemma default_hook_admits_none:
  "connection_task (default_on_connection_accepted conn) w
      (endpoint_handshake as_client default_handshake_as_client default_handshake) h notify m =
    (Inl (case w of Wt_ready \<Rightarrow> ErrorCode UNSUPPORTED_ERROR | Wt_elapsed \<Rightarrow> ErrorCode HANDSHAKE_TIMEOUT
                  | Wt_cancelled \<Rightarrow> ErrorCode CANCELED_ERROR), map_option oneshot_close notify, m)"
  by (simp add: connection_defs default_on_connection_accepted_def endpoint_handshake_def
      default_handshake_as_client_def default_handshake_def split: wait.split)

section \<open>Properties\<close>

text \<open>
  C28: a connection changes the table only by being admitted.  If any step of its task fails,
  the table is as it was and the sender it carried is dropped; it succeeds exactly if the
  connection is accepted and the handshake is done in time, and then the table has the
  handle and the handshake under the peer's id, nothing else has changed, the node is new
  and the sender is kept for the node's end.
\<close>

theorem connection_admission:
  assumes "connection_task accepted w handshake h (Some Os_open) m = (r, notify, m')"
  shows "case r of
      Inl _ \<Rightarrow> m' = m \<and> notify = Some Os_tx_dropped \<and>
        (accepted \<noteq> Inr () \<or> w \<noteq> Wt_ready \<or> (\<exists>e. handshake = Inl e))
    | Inr (meta, n) \<Rightarrow>
        (\<exists>info. accepted = Inr () \<and> w = Wt_ready \<and> handshake = Inr (meta, info) \<and>
           manager_get m' (nm_node_id meta) = Some (h, info) \<and>
           manager_get m' = (manager_get m)(nm_node_id meta := Some (h, info))) \<and>
        n = node_new \<and> notify = Some Os_open"
  using assms
  by (cases handshake)
    (auto simp: connection_defs manager_get_insert split: sum.splits wait.splits prod.splits)

theorem connection_admission_witness:
  "connection_task (Inr ()) Wt_ready (Inr (sample_meta False, handshake_new sample_host ''a'')) (1 :: nat)
      (Some Os_open) manager_new = (Inr (sample_meta False, node_new), Some Os_open,
        manager_insert manager_new ''a'' 1 (handshake_new sample_host ''a'')) \<and>
   manager_get (manager_insert manager_new ''a'' (1 :: nat) (handshake_new sample_host ''a'')) ''a'' =
     Some (1, handshake_new sample_host ''a'')"
proof -
  have run: "connection_task (Inr ()) Wt_ready (Inr (sample_meta False, handshake_new sample_host ''a'')) (1 :: nat)
      (Some Os_open) manager_new = (Inr (sample_meta False, node_new), Some Os_open,
        manager_insert manager_new ''a'' 1 (handshake_new sample_host ''a''))"
    by (simp add: connection_defs sample_meta_def)
  from connection_admission[OF run]
  have "manager_get (manager_insert manager_new ''a'' (1 :: nat) (handshake_new sample_host ''a'')) ''a'' =
      Some (1, handshake_new sample_host ''a'')"
    by (simp add: sample_meta_def)
  with run show ?thesis ..
qed

text \<open>
  C35: a connecting loop keeps its node connected only while handshakes succeed.  Every attempt to
  connect that fails, and every connection whose node was admitted, once the node is over
  and however that ended, makes the loop go on to its next round.  After any number of such
  rounds, the loop is over with \<open>Ok\<close> when it is cancelled, at its test or in its delay; it
  goes on as said; but the first connection that cannot be handed on or whose task fails, be
  it by a rejected or late handshake, ends it with an error, whatever the later rounds would bring.
\<close>

theorem reconnecting:
  assumes "\<forall>p \<in> set rs. \<not> rd_cancelled p \<and> \<not> rd_interrupted p \<and>
      ((\<exists>e. rd_connect p = Inl e) \<or>
       ((\<exists>c. rd_connect p = Inr c) \<and> rd_handed p \<and>
        (\<exists>x served' h' m'. rd_node_over p = node_over (Inr ()) Wt_ready (Inr x) served' (h' :: 'h) m')))"
    and "rd_node_over r = node_over accepted w handshake served h m"
  shows "start_remote_node rs = None \<and>
    start_remote_node (rs @ r # us) =
      (if rd_cancelled r \<or> rd_interrupted r then Some (Inr ())
       else if (\<exists>e. rd_connect r = Inl e) \<or>
          (rd_handed r \<and> accepted = Inr () \<and> w = Wt_ready \<and> (\<exists>x. handshake = Inr x))
       then start_remote_node us
       else Some (Inl (ErrorCode CANCELED_ERROR)))"
  using assms(1)
proof (induction rs)
  case Nil
  show ?case using assms(2) by (cases "rd_connect r") (auto simp: node_over_iff)
next
  case (Cons p rs)
  have p: "\<not> rd_cancelled p" "\<not> rd_interrupted p"
    "(\<exists>e. rd_connect p = Inl e) \<or> (\<exists>c. rd_connect p = Inr c) \<and> rd_handed p \<and> rd_node_over p = Some ()"
    using Cons.prems by (auto simp: node_over_iff)
  then have on: "start_remote_node ((p # rs) @ vs) = start_remote_node (rs @ vs)" for vs by auto
  have "start_remote_node (p # rs) = start_remote_node rs" using on[of "[]"] by simp
  moreover have "start_remote_node rs = None \<and> start_remote_node (rs @ r # us) =
      (if rd_cancelled r \<or> rd_interrupted r then Some (Inr ())
       else if (\<exists>e. rd_connect r = Inl e) \<or>
          (rd_handed r \<and> accepted = Inr () \<and> w = Wt_ready \<and> (\<exists>x. handshake = Inr x))
       then start_remote_node us
       else Some (Inl (ErrorCode CANCELED_ERROR)))"
    by (rule Cons.IH) (use Cons.prems in simp)
  ultimately show ?case unfolding on by simp
qed

theorem reconnecting_witness:
  "start_remote_node ([\<lparr>rd_cancelled = False, rd_interrupted = False, rd_connect = Inl (ErrorCode CONNECT_ERROR),
        rd_handed = False, rd_node_over = None\<rparr>,
      \<lparr>rd_cancelled = False, rd_interrupted = False, rd_connect = Inr 2, rd_handed = True,
        rd_node_over = node_over (Inr ()) Wt_ready (Inr (sample_meta False, handshake_new sample_host ''b''))
          (Inl (ErrorCode CANCELED_ERROR)) (1 :: nat) manager_new\<rparr>] @
      \<lparr>rd_cancelled = False, rd_interrupted = False, rd_connect = Inr (1 :: nat), rd_handed = True,
        rd_node_over = node_over (Inr ()) Wt_elapsed (Inl (ErrorCode NODE_EXISTS)) (Inr ()) (1 :: nat) manager_new\<rparr> #
      [\<lparr>rd_cancelled = True, rd_interrupted = False, rd_connect = Inr 1, rd_handed = True, rd_node_over = None\<rparr>])
    = Some (Inl (ErrorCode CANCELED_ERROR))"
  by (subst reconnecting[where accepted = "Inr ()" and w = Wt_elapsed and handshake = "Inl (ErrorCode NODE_EXISTS)" and
      served = "Inr ()" and h = "1 :: nat" and m = manager_new, THEN conjunct2]) (auto simp: node_over_iff)

text \<open>
  C29: the listening loop neither loses nor invents a connection.  At any time before it is told
  to stop, the connections whose QUIC handshake succeeds are, each as often as it came in,
  those it has handed on and those still in their handshake; each is handed on as one the
  peer opened.  Told to stop, it drops the ones in their handshake, hands on nothing more
  and is over.
\<close>

theorem listen_conserves:
  assumes "Le_cancel \<notin> set es" "Le_recv None \<notin> set es" "stop = Le_cancel \<or> stop = Le_recv None"
  shows "ready_of quic (received es) =
      mset (map (Some \<circ> fst) (li_sent (listen_run quic es))) +
      ready_of quic (ls_running (li_loop (listen_run quic es))) \<and>
    snd ` set (li_sent (listen_run quic es)) \<subseteq> {(False, None)} \<and>
    li_sent (listen_run quic ((es @ [stop]) @ fs)) = li_sent (listen_run quic es) \<and>
    loop_result (li_loop (listen_run quic ((es @ [stop]) @ fs))) = Some (Inr ())"
proof -
  have "snd ` set (li_sent (listen_run quic es)) \<subseteq> {(False, None)}"
  proof (induction es rule: rev_induct)
    case (snoc e es)
    then show ?case by (cases e) (auto simp: listen_run_def split: option.splits if_splits)
  qed (simp add: listen_run_def listen_init_def)
  moreover have "li_sent (listen_run quic ((es @ [stop]) @ fs)) = li_sent (listen_run quic es) \<and>
      \<not> ls_open (li_loop (listen_run quic ((es @ [stop]) @ fs))) \<and>
      ls_running (li_loop (listen_run quic ((es @ [stop]) @ fs))) = []"
  proof (induction fs rule: rev_induct)
    case Nil
    have "ls_open (li_loop (listen_run quic es))"
      using connections.all_spawned[OF assms(1,2)] by (simp add: listen_loop)
    with assms(3) show ?case by (auto simp: listen_run_def shut_down_def)
  next
    case (snoc f fs)
    have "listen_run quic ((es @ [stop]) @ fs @ [f]) = listen_step quic (listen_run quic ((es @ [stop]) @ fs)) f"
      by (simp add: listen_run_def)
    with snoc show ?case by (cases f) (auto simp: shut_down_def)
  qed
  ultimately show ?thesis
    using listen_balance[OF assms(1,2), of quic] by (simp add: loop_result_def)
qed

theorem listen_conserves_witness:
  "li_sent (listen_run (\<lambda>i. if i = 2 then None else Some (i :: nat))
      (([Le_recv (Some 1), Le_recv (Some 2), Le_recv (Some 3), Le_join 1, Le_join 1] @ [Le_cancel]) @ [Le_join 0])) =
    [(3, False, None)] \<and>
   mset (map (Some \<circ> fst) (li_sent (listen_run (\<lambda>i. if i = 2 then None else Some (i :: nat))
      [Le_recv (Some 1), Le_recv (Some 2), Le_recv (Some 3), Le_join 1, Le_join 1]))) + {# Some 1 #} = {# Some 1, Some 3 #}"
  using listen_conserves[of "[Le_recv (Some 1), Le_recv (Some 2), Le_recv (Some 3), Le_join 1, Le_join 1]" Le_cancel
      "\<lambda>i. if i = 2 then None else Some (i :: nat)" "[Le_join 0]"]
  by (simp add: listen_run_def listen_init_def loop_init_def reap_def spawn_def remove_nth_def received_def
      List.map_filter_simps ready_of_def)

text \<open>
  The loops of the endpoint end in the right order.  \<open>serve_all_connection\<close>, told to stop,
  drops the connections that are still in their handshake and is over at once.
  \<open>serve_all_node\<close> is not stopped by the token: it goes on taking nodes until its channel
  ends, has started each it received, and returns when all of them are over.
\<close>

lemma endpoint_loops:
  assumes "Le_recv None \<notin> set es" "Le_cancel \<notin> set cs" "Le_recv None \<notin> set cs"
    and "stop = Le_cancel \<or> stop = Le_recv None"
  shows
    "loop_result (loop_run connections_step ((cs @ [stop]) @ fs)) = Some (Inr ()) \<and>
     ls_spawned (loop_run connections_step ((cs @ [stop]) @ fs)) = received cs \<and>
     ls_open (loop_run nodes_step es) \<and>
     ls_spawned (loop_run nodes_step ((es @ [Le_recv None]) @ fs)) = received es \<and>
     (\<exists>gs. set gs \<subseteq> {Le_join 0} \<and>
        loop_result (loop_run nodes_step (((es @ [Le_recv None]) @ fs) @ gs)) = Some (Inr ()))"
proof -
  let ?c = "loop_run connections_step (cs @ [stop])"
  have "ls_open (loop_run connections_step cs)" "ls_spawned (loop_run connections_step cs) = received cs"
    using connections.all_spawned[OF assms(2,3)] by auto
  then have c: "\<not> ls_open ?c" "ls_running ?c = []" "ls_spawned ?c = received cs"
    using connections_stop[OF assms(4)] by (auto simp: connections.run_snoc)
  have "loop_run connections_step ((cs @ [stop]) @ fs) = ?c"
  proof (induction fs rule: rev_induct)
    case (snoc f fs)
    have "loop_run connections_step ((cs @ [stop]) @ fs @ [f]) = connections_step ?c f"
      using connections.run_snoc[of "(cs @ [stop]) @ fs" f] snoc by simp
    then show ?case by (simp only: connections_idle[OF c(1,2)])
  qed simp
  moreover from nodes_loop_open[OF assms(1)]
  have n: "\<not> ls_open (loop_run nodes_step (es @ [Le_recv None]))"
    "ls_spawned (loop_run nodes_step (es @ [Le_recv None])) = received es"
    by (auto simp: nodes.run_snoc)
  moreover from nodes.closed_forever[OF n(1)] have "\<not> ls_open (loop_run nodes_step ((es @ [Le_recv None]) @ fs))"
    by blast
  ultimately show ?thesis
    using c nodes_loop_open[OF assms(1)] nodes.closed_forever[OF n(1), of fs]
      nodes.terminates[of "(es @ [Le_recv None]) @ fs"]
    by (simp add: loop_result_def)
qed

lemma endpoint_loops_witness:
  "loop_result (loop_run connections_step (([Le_recv (Some (1 :: nat))] @ [Le_cancel]) @ [])) = Some (Inr ()) \<and>
   ls_open (loop_run nodes_step [Le_recv (Some (1 :: nat)), Le_cancel, Le_recv (Some 2)]) \<and>
   ls_spawned (loop_run nodes_step (([Le_recv (Some (1 :: nat)), Le_cancel, Le_recv (Some 2)] @ [Le_recv None]) @ [])) = [1, 2]"
  using endpoint_loops[of "[Le_recv (Some (1 :: nat)), Le_cancel, Le_recv (Some 2)]" "[Le_recv (Some 1)]" Le_cancel "[]"]
  by (simp add: received_def List.map_filter_simps)

end
