(* ===== verification/Crab_Fleet.thy ===== *)
theory Crab_Fleet
  imports Crab_Endpoint
begin

text \<open>
  The endpoint as a whole: \<open>serve_all_connection\<close> and \<open>serve_all_node\<close> of
  \<^verbatim>\<open>src/src/crab/endpoint.rs\<close> with the tasks they spawn, their channels and the table of nodes.

  A connection, named by a number that also stands for its handle, is at each moment at one
  \<open>stage\<close> of its way from the channel of connections through its connection task and the
  channel of nodes to its node task.  The lists of a \<open>fleet\<close> are the channels and the two
  \<open>JoinSet\<close>s.  \<open>fleet_env\<close> are the steps of the connecting side, of the handshakes and of the
  token; \<open>fleet_int\<close> are those of the two loops and their tasks.
\<close>

section \<open>States\<close>

definition CONN_QUEUE :: nat where "CONN_QUEUE = 64"
definition NODE_QUEUE :: nat where "NODE_QUEUE = 20"

text \<open>
  \<open>St_orphaned\<close>: entered in the table by a task whose result is then thrown away;
  \<open>St_dropped\<close>: given up before it was entered; \<open>St_ended\<close>: its task or its node is over.
\<close>

datatype stage =
    St_unseen
  | St_queued bool
  | St_admitting bool
  | St_checked node_metadata handshake
  | St_failed
  | St_admitted node_metadata handshake
  | St_passing node_metadata handshake
  | St_passed node_metadata handshake
  | St_served node_metadata handshake
  | St_orphaned node_metadata handshake
  | St_ended
  | St_dropped

text \<open>
  \<open>ft_passing\<close> is the node that the loop is sending to \<open>serve_all_node\<close>, during which it does
  nothing else; \<open>ft_sender\<close> says that its end of that channel has not been dropped.
\<close>

record fleet =
  ft_table :: "nat manager"
  ft_stage :: "nat \<Rightarrow> stage"
  ft_queue :: "nat list"
  ft_feeders :: bool
  ft_open :: bool
  ft_tasks :: "nat list"
  ft_passing :: "nat option"
  ft_sender :: bool
  ft_chan :: "nat list"
  ft_nodes :: bool
  ft_served :: "nat list"
  ft_over :: bool
  ft_cancelled :: bool

definition fleet_init :: fleet where
  "fleet_init = \<lparr>ft_table = manager_new, ft_stage = (\<lambda>_. St_unseen), ft_queue = [], ft_feeders = True, ft_open = True,
     ft_tasks = [], ft_passing = None, ft_sender = True, ft_chan = [], ft_nodes = True, ft_served = [],
     ft_over = False, ft_cancelled = False\<rparr>"

definition move :: "nat \<Rightarrow> stage \<Rightarrow> fleet \<Rightarrow> fleet" where
  "move i st s = s\<lparr>ft_stage := (ft_stage s)(i := st)\<rparr>"

section \<open>Steps\<close>

text \<open>
  Connections come in until the senders are gone; the channel takes no more than its capacity
  and none once \<open>serve_all_connection\<close> has returned.  A connection task of the accepting side
  consults the table in the middle of its handshake, that of the connecting side does not;
  a handshake can fail at any time.
\<close>

inductive fleet_env :: "string \<Rightarrow> host_info \<Rightarrow> fleet \<Rightarrow> fleet \<Rightarrow> bool" for local_id host where
  arrive: "ft_feeders s \<Longrightarrow> \<not> ft_over s \<Longrightarrow> length (ft_queue s) < CONN_QUEUE \<Longrightarrow> ft_stage s i = St_unseen \<Longrightarrow>
    fleet_env local_id host s (move i (St_queued c) (s\<lparr>ft_queue := ft_queue s @ [i]\<rparr>))"
| refuse: "ft_feeders s \<Longrightarrow> ft_over s \<Longrightarrow> ft_stage s i = St_unseen \<Longrightarrow>
    fleet_env local_id host s (move i St_dropped s)"
| feeders_end: "fleet_env local_id host s (s\<lparr>ft_feeders := False\<rparr>)"
| cancel: "fleet_env local_id host s (s\<lparr>ft_cancelled := True\<rparr>)"
| handshake: "ft_stage s i = St_admitting False \<Longrightarrow> nm_as_client meta \<Longrightarrow> nm_node_id meta = hs_device_id info \<Longrightarrow>
    fleet_env local_id host s
      (move i (case app_on_handshake local_id host (ft_table s) meta info of
                 Inr _ \<Rightarrow> St_checked meta info | Inl _ \<Rightarrow> St_failed) s)"
| connect: "ft_stage s i = St_admitting True \<Longrightarrow> \<not> nm_as_client meta \<Longrightarrow> nm_node_id meta = hs_device_id info \<Longrightarrow>
    fleet_env local_id host s (move i (St_checked meta info) s)"
| handshake_fails: "ft_stage s i = St_admitting c \<Longrightarrow> fleet_env local_id host s (move i St_failed s)"
| answer_fails: "ft_stage s i = St_checked meta info \<Longrightarrow> fleet_env local_id host s (move i St_failed s)"

text \<open>
  \<open>serve_all_connection\<close> spawns a task for each connection (\<open>receive\<close>); a task whose handshake
  is done enters the node in the table (\<open>admit\<close>); the loop joins the task and sends the node
  on (\<open>join\<close>, \<open>pass\<close>), or ends (\<open>close\<close>).  \<open>shutdown\<close> then aborts the tasks that still run and
  throws the results of the others away (\<open>abort\<close>, \<open>discard\<close>, \<open>join_failed\<close>), before the
  sender is dropped.  \<open>serve_all_node\<close> spawns a task for each node (\<open>start\<close>), which tells the
  hook when the node is over (\<open>exit\<close>), and ends with its channel (\<open>nodes_end\<close>); when its
  nodes are over as well, \<open>serve_all_connection\<close> returns and its receiver is dropped (\<open>finish\<close>).
\<close>

inductive fleet_int :: "fleet \<Rightarrow> fleet \<Rightarrow> bool" where
  receive: "ft_open s \<Longrightarrow> ft_passing s = None \<Longrightarrow> ft_queue s = i # q \<Longrightarrow> ft_stage s i = St_queued c \<Longrightarrow>
    fleet_int s (move i (St_admitting c) (s\<lparr>ft_queue := q, ft_tasks := ft_tasks s @ [i]\<rparr>))"
| admit: "ft_stage s i = St_checked meta info \<Longrightarrow>
    fleet_int s (move i (St_admitted meta info)
      (s\<lparr>ft_table := snd (app_on_node_accepted (ft_table s) meta i info)\<rparr>))"
| join: "ft_open s \<Longrightarrow> ft_passing s = None \<Longrightarrow> ft_stage s i = St_admitted meta info \<Longrightarrow>
    fleet_int s (move i (St_passing meta info) (s\<lparr>ft_tasks := remove1 i (ft_tasks s), ft_passing := Some i\<rparr>))"
| join_failed: "\<not> ft_open s \<or> ft_passing s = None \<Longrightarrow> ft_stage s i = St_failed \<Longrightarrow>
    fleet_int s (move i St_ended (s\<lparr>ft_tasks := remove1 i (ft_tasks s)\<rparr>))"
| pass: "ft_passing s = Some i \<Longrightarrow> length (ft_chan s) < NODE_QUEUE \<Longrightarrow> ft_stage s i = St_passing meta info \<Longrightarrow>
    fleet_int s (move i (St_passed meta info) (s\<lparr>ft_passing := None, ft_chan := ft_chan s @ [i]\<rparr>))"
| close: "ft_open s \<Longrightarrow> ft_passing s = None \<Longrightarrow> ft_cancelled s \<or> ft_queue s = [] \<and> \<not> ft_feeders s \<Longrightarrow>
    fleet_int s (s\<lparr>ft_open := False\<rparr>)"
| abort: "\<not> ft_open s \<Longrightarrow> ft_stage s i = St_admitting c \<or> ft_stage s i = St_checked meta info \<Longrightarrow>
    fleet_int s (move i St_dropped (s\<lparr>ft_tasks := remove1 i (ft_tasks s)\<rparr>))"
| discard: "\<not> ft_open s \<Longrightarrow> ft_stage s i = St_admitted meta info \<Longrightarrow>
    fleet_int s (move i (St_orphaned meta info) (s\<lparr>ft_tasks := remove1 i (ft_tasks s)\<rparr>))"
| drop_sender: "\<not> ft_open s \<Longrightarrow> ft_tasks s = [] \<Longrightarrow> ft_sender s \<Longrightarrow> fleet_int s (s\<lparr>ft_sender := False\<rparr>)"
| start: "ft_nodes s \<Longrightarrow> ft_chan s = i # q \<Longrightarrow> ft_stage s i = St_passed meta info \<Longrightarrow>
    fleet_int s (move i (St_served meta info) (s\<lparr>ft_chan := q, ft_served := ft_served s @ [i]\<rparr>))"
| exit: "ft_stage s i = St_served meta info \<Longrightarrow>
    fleet_int s (move i St_ended
      (s\<lparr>ft_table := app_on_node_exited (ft_table s) meta, ft_served := remove1 i (ft_served s)\<rparr>))"
| nodes_end: "ft_nodes s \<Longrightarrow> ft_chan s = [] \<Longrightarrow> \<not> ft_sender s \<Longrightarrow> fleet_int s (s\<lparr>ft_nodes := False\<rparr>)"
| finish: "\<not> ft_nodes s \<Longrightarrow> ft_served s = [] \<Longrightarrow> \<not> ft_over s \<Longrightarrow>
    fleet_int s (s\<lparr>ft_stage := (\<lambda>i. if i \<in> set (ft_queue s) then St_dropped else ft_stage s i),
      ft_queue := [], ft_over := True\<rparr>)"

inductive fleet_reach :: "string \<Rightarrow> host_info \<Rightarrow> (fleet \<Rightarrow> bool) \<Rightarrow> fleet \<Rightarrow> bool"
  for local_id host P where
  new: "P fleet_init \<Longrightarrow> fleet_reach local_id host P fleet_init"
| env: "fleet_reach local_id host P s \<Longrightarrow> fleet_env local_id host s t \<Longrightarrow> P t \<Longrightarrow> fleet_reach local_id host P t"
| int: "fleet_reach local_id host P s \<Longrightarrow> fleet_int s t \<Longrightarrow> P t \<Longrightarrow> fleet_reach local_id host P t"

section \<open>Where a connection is\<close>

fun in_task :: "stage \<Rightarrow> bool" where
  "in_task (St_admitting _) \<longleftrightarrow> True"
| "in_task (St_checked _ _) \<longleftrightarrow> True"
| "in_task St_failed \<longleftrightarrow> True"
| "in_task (St_admitted _ _) \<longleftrightarrow> True"
| "in_task _ \<longleftrightarrow> False"

text \<open>What the table may know of a connection at this stage.\<close>

fun entered :: "stage \<Rightarrow> (node_metadata \<times> handshake) option" where
  "entered (St_admitted meta info) = Some (meta, info)"
| "entered (St_passing meta info) = Some (meta, info)"
| "entered (St_passed meta info) = Some (meta, info)"
| "entered (St_served meta info) = Some (meta, info)"
| "entered (St_orphaned meta info) = Some (meta, info)"
| "entered _ = None"

fun claimed :: "stage \<Rightarrow> string option" where
  "claimed (St_checked meta _) = Some (nm_node_id meta)"
| "claimed st = map_option (\<lambda>(meta, _). nm_node_id meta) (entered st)"

text \<open>No two live connections carry the same node id.\<close>

definition ids_apart :: "fleet \<Rightarrow> bool" where
  "ids_apart s \<longleftrightarrow>
    (\<forall>i j k. claimed (ft_stage s i) = Some k \<longrightarrow> claimed (ft_stage s j) = Some k \<longrightarrow> i = j)"

definition placed :: "fleet \<Rightarrow> bool" where
  "placed s \<longleftrightarrow>
    (\<forall>i. (i \<in> set (ft_queue s) \<longleftrightarrow> (\<exists>c. ft_stage s i = St_queued c)) \<and>
         (i \<in> set (ft_tasks s) \<longleftrightarrow> in_task (ft_stage s i)) \<and>
         (ft_passing s = Some i \<longleftrightarrow> (\<exists>meta info. ft_stage s i = St_passing meta info)) \<and>
         (i \<in> set (ft_chan s) \<longleftrightarrow> (\<exists>meta info. ft_stage s i = St_passed meta info)) \<and>
         (i \<in> set (ft_served s) \<longleftrightarrow> (\<exists>meta info. ft_stage s i = St_served meta info))) \<and>
    distinct (ft_queue s) \<and> distinct (ft_tasks s) \<and> distinct (ft_chan s) \<and> distinct (ft_served s)"

definition phases :: "fleet \<Rightarrow> bool" where
  "phases s \<longleftrightarrow>
    (ft_open s \<longrightarrow> ft_sender s) \<and> (ft_sender s \<longrightarrow> ft_nodes s) \<and> (\<not> ft_sender s \<longrightarrow> ft_tasks s = []) \<and>
    (\<not> ft_open s \<longrightarrow> ft_passing s = None) \<and> (\<not> ft_nodes s \<longrightarrow> ft_chan s = []) \<and>
    (ft_over s \<longrightarrow> \<not> ft_nodes s \<and> ft_served s = [] \<and> ft_queue s = []) \<and>
    (ft_open s \<longrightarrow> (\<forall>i. (\<nexists>meta info. ft_stage s i = St_orphaned meta info))) \<and>
    length (ft_queue s) \<le> CONN_QUEUE \<and> length (ft_chan s) \<le> NODE_QUEUE"

lemma move_simps [simp]:
  "ft_stage (move i st s) = (ft_stage s)(i := st)" "ft_table (move i st s) = ft_table s"
  "ft_queue (move i st s) = ft_queue s" "ft_feeders (move i st s) = ft_feeders s"
  "ft_open (move i st s) = ft_open s" "ft_tasks (move i st s) = ft_tasks s"
  "ft_passing (move i st s) = ft_passing s" "ft_sender (move i st s) = ft_sender s"
  "ft_chan (move i st s) = ft_chan s" "ft_nodes (move i st s) = ft_nodes s"
  "ft_served (move i st s) = ft_served s" "ft_over (move i st s) = ft_over s"
  "ft_cancelled (move i st s) = ft_cancelled s"
  by (simp_all add: move_def)

lemma placed_init: "placed fleet_init" and phases_init: "phases fleet_init"
  by (simp_all add: placed_def phases_def fleet_init_def)

lemma placed_env: "fleet_env local_id host s t \<Longrightarrow> placed s \<Longrightarrow> placed t"
  by (cases rule: fleet_env.cases, assumption) (auto simp: placed_def split: sum.splits)

lemma phases_env: "fleet_env local_id host s t \<Longrightarrow> phases s \<Longrightarrow> phases t"
  by (cases rule: fleet_env.cases, assumption) (auto simp: phases_def split: sum.splits)


lemma remove1_set [simp]: "distinct xs \<Longrightarrow> i \<in> set (remove1 j xs) \<longleftrightarrow> i \<in> set xs \<and> i \<noteq> j"
  by auto

lemma placed_int: "fleet_int s t \<Longrightarrow> placed s \<Longrightarrow> placed t"
  by (cases rule: fleet_int.cases, assumption) (auto simp: placed_def distinct_remove1 split: if_splits, metis)

lemma phases_int: "fleet_int s t \<Longrightarrow> phases s \<Longrightarrow> placed s \<Longrightarrow> phases t"
  by (cases rule: fleet_int.cases, assumption) (auto simp: phases_def placed_def split: if_splits)


section \<open>The registry\<close>

text \<open>The stage of a connection and its state in the registry of \<open>Crab_Registry\<close>.\<close>

fun conn_matches :: "stage \<Rightarrow> conn_state option \<Rightarrow> bool" where
  "conn_matches St_unseen c \<longleftrightarrow> c = None"
| "conn_matches (St_queued _) c \<longleftrightarrow> c = None"
| "conn_matches (St_admitting _) c \<longleftrightarrow> c = None"
| "conn_matches (St_checked meta info) c \<longleftrightarrow> c = Some (Conn_handshaken meta info)"
| "conn_matches st c \<longleftrightarrow>
    (case entered st of
       Some (meta, info) \<Rightarrow> c = Some (Conn_running meta info)
     | None \<Rightarrow> (case c of Some (Conn_running _ _) \<Rightarrow> False | _ \<Rightarrow> True))"

definition simulates :: "fleet \<Rightarrow> reg_state \<Rightarrow> bool" where
  "simulates s r \<longleftrightarrow> rs_nodes r = ft_table s \<and> (\<forall>i. conn_matches (ft_stage s i) (rs_conns r i))"

lemma simulates_stage: "simulates s r \<Longrightarrow> conn_matches (ft_stage s i) (rs_conns r i)"
  by (simp add: simulates_def)

lemma simulates_move:
  assumes "simulates s r" "conn_matches st c" "ft_table t = rs_nodes r'"
    and "ft_stage t = (ft_stage s)(i := st)" "rs_conns r' = (rs_conns r)(i := c)"
  shows "simulates t r'"
  using assms by (simp add: simulates_def)

lemma simulates_stay:
  assumes "simulates s r" "conn_matches st (rs_conns r i)" "ft_table t = ft_table s" "ft_stage t = (ft_stage s)(i := st)"
  shows "simulates t r"
  using assms by (simp add: simulates_def)

lemma simulates_stutter: "simulates t r \<Longrightarrow> \<exists>es r'. reg_run local_id host r es = Some r' \<and> simulates t r'"
  by (rule exI[of _ "[]"]) simp

lemma simulates_other [simp]:
  "simulates (s\<lparr>ft_feeders := b\<rparr>) r \<longleftrightarrow> simulates s r" "simulates (s\<lparr>ft_cancelled := b\<rparr>) r \<longleftrightarrow> simulates s r"
  "simulates (s\<lparr>ft_open := b\<rparr>) r \<longleftrightarrow> simulates s r" "simulates (s\<lparr>ft_sender := b\<rparr>) r \<longleftrightarrow> simulates s r"
  "simulates (s\<lparr>ft_nodes := b\<rparr>) r \<longleftrightarrow> simulates s r"
  by (simp_all add: simulates_def)

lemma simulates_idle:
  assumes "simulates s r" "conn_matches st (rs_conns r i)" "ft_table t = ft_table s" "ft_stage t = ft_stage s"
  shows "\<exists>es r'. reg_run local_id host r es = Some r' \<and> simulates (move i st t) r'"
  by (rule simulates_stutter) (use assms in \<open>simp add: simulates_def\<close>)

lemma fleet_env_simulated:
  assumes "fleet_env local_id host s t" "simulates s r"
  shows "\<exists>es r'. reg_run local_id host r es = Some r' \<and> simulates t r'"
  using assms(1)
proof cases
  case (handshake i meta info)
  with simulates_stage[OF assms(2), of i] have new: "rs_conns r i = None" by simp
  let ?r = "r\<lparr>rs_conns := (rs_conns r)(i \<mapsto>
    (case app_on_handshake local_id host (rs_nodes r) meta info of Inl _ \<Rightarrow> Conn_exited | Inr _ \<Rightarrow> Conn_handshaken meta info))\<rparr>"
  have "reg_run local_id host r [Ev_handshake i meta info] = Some ?r"
    using new handshake by (simp split: sum.splits)
  moreover have "simulates t ?r"
    by (rule simulates_move[OF assms(2), of _ "Some _"])
      (use assms(2) handshake in \<open>auto simp: simulates_def split: sum.splits\<close>)
  ultimately show ?thesis by blast
next
  case (connect i meta info)
  with simulates_stage[OF assms(2), of i] have new: "rs_conns r i = None" by simp
  let ?r = "r\<lparr>rs_conns := (rs_conns r)(i \<mapsto> Conn_handshaken meta info)\<rparr>"
  have "reg_run local_id host r [Ev_connect i meta info] = Some ?r"
    using new connect by simp
  moreover have "simulates t ?r"
    by (rule simulates_move[OF assms(2), of "St_checked meta info" "Some (Conn_handshaken meta info)"])
      (use assms(2) connect in \<open>auto simp: simulates_def\<close>)
  ultimately show ?thesis by blast
next
  case (arrive i c)
  with simulates_stage[OF assms(2), of i] show ?thesis by (auto intro!: simulates_idle[OF assms(2)])
next
  case (refuse i)
  with simulates_stage[OF assms(2), of i] show ?thesis by (auto intro!: simulates_idle[OF assms(2)])
next
  case (handshake_fails i c)
  with simulates_stage[OF assms(2), of i] show ?thesis by (auto intro!: simulates_idle[OF assms(2)])
next
  case (answer_fails i meta info)
  with simulates_stage[OF assms(2), of i] show ?thesis by (auto intro!: simulates_idle[OF assms(2)])
qed (use assms(2) in \<open>simp_all add: simulates_stutter\<close>)

lemma fleet_int_simulated:
  assumes "fleet_int s t" "simulates s r" "placed s"
  shows "\<exists>es r'. reg_run local_id host r es = Some r' \<and> simulates t r'"
  using assms(1)
proof cases
  case (admit i meta info)
  with simulates_stage[OF assms(2), of i] have c: "rs_conns r i = Some (Conn_handshaken meta info)" by simp
  let ?r = "r\<lparr>rs_nodes := snd (app_on_node_accepted (rs_nodes r) meta i info), rs_conns := (rs_conns r)(i \<mapsto> Conn_running meta info)\<rparr>"
  have "reg_run local_id host r [Ev_accept i] = Some ?r" using c by simp
  moreover have "simulates t ?r"
    by (rule simulates_move[OF assms(2), of "St_admitted meta info" "Some (Conn_running meta info)"])
      (use assms(2) admit in \<open>auto simp: simulates_def\<close>)
  ultimately show ?thesis by blast
next
  case (exit i meta info)
  with simulates_stage[OF assms(2), of i] have c: "rs_conns r i = Some (Conn_running meta info)" by simp
  let ?r = "r\<lparr>rs_nodes := app_on_node_exited (rs_nodes r) meta, rs_conns := (rs_conns r)(i \<mapsto> Conn_exited)\<rparr>"
  have "reg_run local_id host r [Ev_exit i] = Some ?r" using c by simp
  moreover have "simulates t ?r"
    by (rule simulates_move[OF assms(2), of "St_ended" "Some Conn_exited"])
      (use assms(2) exit in \<open>auto simp: simulates_def\<close>)
  ultimately show ?thesis by blast
next
  case finish
  have "conn_matches St_dropped (rs_conns r i)" if "i \<in> set (ft_queue s)" for i
    using assms(3) that simulates_stage[OF assms(2), of i] by (auto simp: placed_def)
  with finish assms(2) show ?thesis
    by (intro simulates_stutter) (auto simp: simulates_def)
next
  case (receive i q c)
  with simulates_stage[OF assms(2), of i] show ?thesis by (auto intro!: simulates_idle[OF assms(2)])
next
  case (join i meta info)
  with simulates_stage[OF assms(2), of i] show ?thesis by (auto intro!: simulates_idle[OF assms(2)])
next
  case (join_failed i)
  with simulates_stage[OF assms(2), of i] show ?thesis by (auto intro!: simulates_idle[OF assms(2)])
next
  case (pass i meta info)
  with simulates_stage[OF assms(2), of i] show ?thesis by (auto intro!: simulates_idle[OF assms(2)])
next
  case (abort i c meta info)
  with simulates_stage[OF assms(2), of i] show ?thesis by (auto intro!: simulates_idle[OF assms(2)])
next
  case (discard i meta info)
  with simulates_stage[OF assms(2), of i] show ?thesis by (auto intro!: simulates_idle[OF assms(2)])
next
  case (start i q meta info)
  with simulates_stage[OF assms(2), of i] show ?thesis by (auto intro!: simulates_idle[OF assms(2)])
qed (use assms(2) in \<open>simp_all add: simulates_stutter\<close>)


lemma reg_run_append:
  "reg_run local_id host s es = Some t \<Longrightarrow> reg_run local_id host s (es @ fs) = reg_run local_id host t fs"
  by (induction es arbitrary: s) (auto split: option.splits)

lemma fleet_reach_simulated:
  assumes "fleet_reach local_id host P s"
  shows "placed s \<and> phases s \<and> (\<exists>es r. reg_run local_id host reg_init es = Some r \<and> simulates s r)"
  using assms
proof induction
  case new
  have "simulates fleet_init reg_init" by (simp add: simulates_def fleet_init_def reg_init_def)
  then show ?case using placed_init phases_init by (auto intro: exI[of _ "[]"])
next
  case (env s t)
  then show ?case by (metis fleet_env_simulated reg_run_append placed_env phases_env)
next
  case (int s t)
  then show ?case by (metis fleet_int_simulated reg_run_append placed_int phases_int)
qed

lemmas fleet_invs = fleet_reach_simulated[THEN conjunct1] fleet_reach_simulated[THEN conjunct2, THEN conjunct1]

lemma fleet_reach_holds: "fleet_reach local_id host P s \<Longrightarrow> P s"
  by (induction rule: fleet_reach.induct) auto

lemma running_entered: "conn_matches st (Some (Conn_running meta info)) \<Longrightarrow> entered st = Some (meta, info)"
  by (cases st) auto

lemma fleet_entry:
  assumes "fleet_reach local_id host P s" "manager_get (ft_table s) k = Some (i, info)"
  shows "\<exists>meta. entered (ft_stage s i) = Some (meta, info) \<and> nm_node_id meta = k \<and> hs_device_id info = k"
proof -
  from fleet_reach_simulated[OF assms(1)] obtain es r where
    r: "reg_run local_id host reg_init es = Some r" "simulates s r" by blast
  have "entries_running r"
    by (rule reg_reach_entries_running[OF reg_run_reach[OF reg_reach.start r(1)]]) simp
  with assms(2) r(2) obtain meta where
    m: "rs_conns r i = Some (Conn_running meta info)" "nm_node_id meta = k" "hs_device_id info = k"
    unfolding entries_running_def simulates_def by metis
  with simulates_stage[OF r(2), of i] running_entered show ?thesis by auto
qed

section \<open>Nodes of different names\<close>

definition entered_found :: "fleet \<Rightarrow> bool" where
  "entered_found s \<longleftrightarrow>
    (\<forall>i meta info. entered (ft_stage s i) = Some (meta, info) \<longrightarrow>
       manager_get (ft_table s) (nm_node_id meta) = Some (i, info))"

lemma entered_claimed: "entered st = Some (meta, info) \<Longrightarrow> claimed st = Some (nm_node_id meta)"
  by (cases st) auto

lemma entered_found_stay:
  assumes "entered_found s" "ft_table t = ft_table s"
    and "\<And>i meta info. entered (ft_stage t i) = Some (meta, info) \<Longrightarrow> entered (ft_stage s i) = Some (meta, info)"
  shows "entered_found t"
  using assms by (simp add: entered_found_def)

lemma entered_found_env: "fleet_env local_id host s t \<Longrightarrow> entered_found s \<Longrightarrow> entered_found t"
  by (erule fleet_env.cases; erule entered_found_stay)
    (auto split: if_splits sum.splits)

lemma entered_found_int:
  assumes "fleet_int s t" "entered_found s" "ids_apart s" "ids_apart t"
  shows "entered_found t"
  using assms(1)
proof cases
  case (admit i meta info)
  have "nm_node_id m \<noteq> nm_node_id meta" if "j \<noteq> i" "entered (ft_stage s j) = Some (m, f)" for j m f
    using assms(3) that admit(2) entered_claimed[OF that(2)] unfolding ids_apart_def
    by (metis claimed.simps(1))
  with admit assms(2) show ?thesis
    by (auto simp: entered_found_def app_on_node_accepted_def mgr.get_ins split: if_splits)
next
  case (exit i meta info)
  have "nm_node_id m \<noteq> nm_node_id meta" if "j \<noteq> i" "entered (ft_stage s j) = Some (m, f)" for j m f
    using assms(3) that entered_claimed[OF that(2)] entered_claimed[of "ft_stage s i" meta info] exit(2)
    unfolding ids_apart_def by (metis entered.simps(4))
  with exit assms(2) show ?thesis
    by (auto simp: entered_found_def app_on_node_exited_def mgr.get_del split: if_splits)
qed (auto intro!: entered_found_stay[OF assms(2)] split: if_splits)

lemma fleet_reach_found: "fleet_reach local_id host ids_apart s \<Longrightarrow> entered_found s"
proof (induction rule: fleet_reach.induct)
  case new
  show ?case by (simp add: entered_found_def fleet_init_def)
next
  case (env s t)
  then show ?case by (blast intro: entered_found_env)
next
  case (int s t)
  then show ?case by (blast intro: entered_found_int fleet_reach_holds)
qed

section \<open>Stopping\<close>

text \<open>The work that is left of a connection and of the endpoint.\<close>

fun task_work :: "stage \<Rightarrow> nat" where
  "task_work (St_admitting _) = 7"
| "task_work (St_checked _ _) = 6"
| "task_work (St_admitted _ _) = 5"
| "task_work _ = 1"

definition fleet_work :: "fleet \<Rightarrow> nat" where
  "fleet_work s =
    8 * length (ft_queue s) + (\<Sum>i\<leftarrow>ft_tasks s. task_work (ft_stage s i)) + (if ft_passing s = None then 0 else 4) +
    3 * length (ft_chan s) + 2 * length (ft_served s) + of_bool (ft_open s) + of_bool (ft_sender s) +
    of_bool (ft_nodes s) + (if ft_over s then 0 else 1)"

lemma task_work_same:
  "i \<notin> set is \<Longrightarrow> (\<Sum>j\<leftarrow>is. task_work (if j = i then st else ft_stage s j)) = (\<Sum>j\<leftarrow>is. task_work (ft_stage s j))"
  by (rule arg_cong[where f = sum_list], rule map_cong) auto

lemma task_work_split:
  assumes "i \<in> set is" "distinct is"
  shows "(\<Sum>j\<leftarrow>is. task_work (if j = i then st else ft_stage s j)) =
      task_work st + (\<Sum>j\<leftarrow>remove1 i is. task_work (ft_stage s j))"
    and "(\<Sum>j\<leftarrow>is. task_work (ft_stage s j)) =
      task_work (ft_stage s i) + (\<Sum>j\<leftarrow>remove1 i is. task_work (ft_stage s j))"
  using sum_list_map_remove1[OF assms(1), of "\<lambda>j. task_work (if j = i then st else ft_stage s j)"]
    sum_list_map_remove1[OF assms(1), of "\<lambda>j. task_work (ft_stage s j)"]
    task_work_same[of i "remove1 i is" st s] assms(2) by simp_all

lemma placed_facts:
  assumes "placed s"
  shows "i \<in> set (ft_tasks s) \<longleftrightarrow> in_task (ft_stage s i)" "distinct (ft_tasks s)"
    "ft_stage s i = St_served meta info \<Longrightarrow> i \<in> set (ft_served s)"
    "i \<in> set (ft_chan s) \<Longrightarrow> \<exists>meta info. ft_stage s i = St_passed meta info"
    "i \<in> set (ft_served s) \<Longrightarrow> \<exists>meta info. ft_stage s i = St_served meta info"
    "ft_passing s = Some i \<Longrightarrow> \<exists>meta info. ft_stage s i = St_passing meta info"
  using assms by (auto simp: placed_def)

lemma task_work_of:
  assumes "placed s"
  shows "\<not> in_task (ft_stage s i) \<Longrightarrow>
      (\<Sum>j\<leftarrow>ft_tasks s. task_work (if j = i then st else ft_stage s j)) = (\<Sum>j\<leftarrow>ft_tasks s. task_work (ft_stage s j))"
    and "in_task (ft_stage s i) \<Longrightarrow>
      (\<Sum>j\<leftarrow>ft_tasks s. task_work (if j = i then st else ft_stage s j)) =
        task_work st + (\<Sum>j\<leftarrow>remove1 i (ft_tasks s). task_work (ft_stage s j))"
    and "(\<Sum>j\<leftarrow>remove1 i (ft_tasks s). task_work (if j = i then st else ft_stage s j)) =
      (\<Sum>j\<leftarrow>remove1 i (ft_tasks s). task_work (ft_stage s j))"
    and "in_task (ft_stage s i) \<Longrightarrow>
      (\<Sum>j\<leftarrow>ft_tasks s. task_work (ft_stage s j)) =
        task_work (ft_stage s i) + (\<Sum>j\<leftarrow>remove1 i (ft_tasks s). task_work (ft_stage s j))"
  using placed_facts(1,2)[OF assms] task_work_split[of i "ft_tasks s"]
    task_work_same[of i "ft_tasks s" st s] task_work_same[of i "remove1 i (ft_tasks s)" st s]
  by simp_all

lemma fleet_int_work:
  assumes "fleet_int s t" "placed s"
  shows "fleet_work t < fleet_work s"
  using assms(1)
proof cases
  case (receive i q c)
  with placed_facts(1)[OF assms(2), of i] show ?thesis
    by (simp add: fleet_work_def task_work_same)
next
  case (exit i meta info)
  with placed_facts(1,3)[OF assms(2), of i] have "i \<in> set (ft_served s)" "i \<notin> set (ft_tasks s)" by auto
  then have "0 < length (ft_served s)" "length (remove1 i (ft_served s)) = length (ft_served s) - 1"
    by (auto simp: length_remove1)
  with exit \<open>i \<notin> set (ft_tasks s)\<close> show ?thesis by (simp add: fleet_work_def task_work_same)
next
  case finish
  have "(\<Sum>i\<leftarrow>ft_tasks s. task_work (if i \<in> set (ft_queue s) then St_dropped else ft_stage s i)) =
      (\<Sum>i\<leftarrow>ft_tasks s. task_work (ft_stage s i))"
    using assms(2) by (intro arg_cong[where f = sum_list] map_cong) (auto simp: placed_def)
  with finish show ?thesis by (simp add: fleet_work_def)
next
  case (admit i meta info)
  with task_work_of[OF assms(2), of i] show ?thesis by (simp add: fleet_work_def)
next
  case (join i meta info)
  with task_work_of[OF assms(2), of i] show ?thesis by (simp add: fleet_work_def)
next
  case (join_failed i)
  with task_work_of[OF assms(2), of i] show ?thesis by (simp add: fleet_work_def)
next
  case (abort i c meta info)
  with task_work_of[OF assms(2), of i] show ?thesis by (auto simp: fleet_work_def)
next
  case (discard i meta info)
  with task_work_of[OF assms(2), of i] show ?thesis by (simp add: fleet_work_def)
qed (use task_work_of(1)[OF assms(2)] in \<open>simp_all add: fleet_work_def\<close>)


text \<open>A cancelled endpoint has a step left until it is over.\<close>

lemma fleet_int_progress:
  assumes "placed s" "phases s" "ft_cancelled s" "\<not> ft_over s"
  shows "\<exists>t. fleet_int s t"
proof (cases "ft_chan s")
  case (Cons i q)
  with placed_facts(4)[OF assms(1), of i] obtain meta info where "ft_stage s i = St_passed meta info" by auto
  moreover have "ft_nodes s" using Cons assms(2) by (auto simp: phases_def)
  moreover note Cons
  ultimately show ?thesis by (blast intro: fleet_int.start)
next
  case chan: Nil
  show ?thesis
  proof (cases "ft_passing s")
    case (Some i)
    with placed_facts(6)[OF assms(1)] obtain meta info where "ft_stage s i = St_passing meta info" by blast
    moreover have "length (ft_chan s) < NODE_QUEUE" using chan by (simp add: NODE_QUEUE_def)
    ultimately show ?thesis using Some by (blast intro: fleet_int.pass)
  next
    case None
    show ?thesis
    proof (cases "ft_open s")
      case True
      with None assms(3) show ?thesis by (blast intro: fleet_int.close)
    next
      case closed: False
      show ?thesis
      proof (cases "ft_tasks s")
        case (Cons i js)
        with placed_facts(1)[OF assms(1), of i] have "in_task (ft_stage s i)" by simp
        with closed show ?thesis
          by (cases "ft_stage s i") (auto intro: fleet_int.abort fleet_int.discard fleet_int.join_failed)
      next
        case tasks: Nil
        show ?thesis
        proof (cases "ft_served s")
          case (Cons i js)
          with placed_facts(5)[OF assms(1), of i] obtain meta info where "ft_stage s i = St_served meta info" by auto
          then show ?thesis by (blast intro: fleet_int.exit)
        next
          case Nil
          with closed tasks chan assms(4) show ?thesis
            by (blast intro: fleet_int.drop_sender fleet_int.nodes_end fleet_int.finish)
        qed
      qed
    qed
  qed
qed

interpretation endpoint_steps: winding_down fleet_int placed "measure fleet_work"
  by unfold_locales (auto simp: fleet_int_work intro: placed_int)

lemma fleet_int_cancelled: "fleet_int s t \<Longrightarrow> ft_cancelled t = ft_cancelled s"
  by (cases rule: fleet_int.cases, assumption) simp_all

lemma fleet_run_reach:
  assumes "fleet_int\<^sup>*\<^sup>* s t" "fleet_reach local_id host (\<lambda>_. True) s"
  shows "fleet_reach local_id host (\<lambda>_. True) t \<and> ft_cancelled t = ft_cancelled s"
  using assms by (induction rule: rtranclp_induct) (auto simp: fleet_int_cancelled intro: fleet_reach.int)

section \<open>Properties\<close>

text \<open>
  C7: the loops of the endpoint do with the table what the registry does.  Whatever the order of
  the steps of the loops, the connection tasks and the node tasks, there is a run of
  \<open>Crab_Registry\<close> with the same table in which each connection is in the state of its stage:
  so every entry of the table belongs to a connection that was entered under this id with this
  handshake, has not exited, and, while \<open>serve_all_connection\<close> is in its loop, is in its task,
  being sent on, in the channel of nodes or being served.  If no two live connections have
  the same id, each of these connections is found in the table.
\<close>

theorem endpoint_refines_registry:
  assumes "fleet_reach local_id host P s"
  shows "(\<exists>es r. reg_run local_id host reg_init es = Some r \<and> rs_nodes r = ft_table s \<and>
      (\<forall>i. conn_matches (ft_stage s i) (rs_conns r i))) \<and>
    (\<forall>k i info. manager_get (ft_table s) k = Some (i, info) \<longrightarrow>
      (\<exists>meta. entered (ft_stage s i) = Some (meta, info) \<and> nm_node_id meta = k) \<and>
      (ft_open s \<longrightarrow> i \<in> set (ft_tasks s @ ft_chan s @ ft_served s) \<or> ft_passing s = Some i)) \<and>
    (P = ids_apart \<longrightarrow> (\<forall>i meta info. entered (ft_stage s i) = Some (meta, info) \<longrightarrow>
      manager_get (ft_table s) (nm_node_id meta) = Some (i, info)))"
proof -
  have place: "i \<in> set (ft_tasks s @ ft_chan s @ ft_served s) \<or> ft_passing s = Some i"
    if "entered (ft_stage s i) = Some (meta, info)" "ft_open s" for i meta info
    using fleet_invs[OF assms] that placed_facts(1)[OF fleet_invs(1)[OF assms], of i]
    by (cases "ft_stage s i") (auto simp: placed_def phases_def)
  show ?thesis
    using fleet_reach_simulated[OF assms] fleet_entry[OF assms] place fleet_reach_found[of local_id host s] assms
    unfolding simulates_def entered_found_def by (intro conjI) (blast, blast, blast)
qed

abbreviation sample_info :: handshake where
  "sample_info \<equiv> handshake_new sample_host ''a''"

text \<open>One connection, entered in the table by its task, which the loop has not joined.\<close>

definition one_admitted :: "fleet \<Rightarrow> bool" where
  "one_admitted s \<longleftrightarrow>
    ft_stage s = (\<lambda>_. St_unseen)(0 := St_admitted (sample_meta True) sample_info) \<and>
    ft_table s = manager_insert manager_new ''a'' 0 sample_info \<and> ft_tasks s = [0] \<and>
    ft_open s \<and> ft_passing s = None \<and> ft_sender s \<and> ft_nodes s \<and> \<not> ft_over s \<and>
    ft_queue s = [] \<and> ft_chan s = [] \<and> ft_served s = []"

lemma sample_admitted:
  assumes "\<And>u. (\<And>i. i \<noteq> 0 \<Longrightarrow> ft_stage u i = St_unseen) \<Longrightarrow> P u"
  shows "\<exists>s. fleet_reach ''b'' sample_host P s \<and> one_admitted s"
proof -
  let ?a = "move 0 (St_queued False) (fleet_init\<lparr>ft_queue := ft_queue fleet_init @ [0]\<rparr>)"
  let ?b = "move 0 (St_admitting False) (?a\<lparr>ft_queue := [], ft_tasks := ft_tasks ?a @ [0]\<rparr>)"
  let ?c = "move 0 (St_checked (sample_meta True) sample_info) ?b"
  let ?d = "move 0 (St_admitted (sample_meta True) sample_info)
    (?c\<lparr>ft_table := snd (app_on_node_accepted (ft_table ?c) (sample_meta True) 0 sample_info)\<rparr>)"
  have "fleet_reach ''b'' sample_host P fleet_init"
    by (rule fleet_reach.new, rule assms) (simp add: fleet_init_def)
  moreover have "fleet_env ''b'' sample_host fleet_init ?a"
    by (rule fleet_env.arrive) (simp_all add: fleet_init_def CONN_QUEUE_def)
  ultimately have a: "fleet_reach ''b'' sample_host P ?a"
    by (rule fleet_reach.env) (rule assms, simp add: fleet_init_def)
  have "fleet_int ?a ?b" by (rule fleet_int.receive) (simp_all add: fleet_init_def)
  with a have b: "fleet_reach ''b'' sample_host P ?b"
    by (rule fleet_reach.int) (rule assms, simp add: fleet_init_def)
  have h: "app_on_handshake ''b'' sample_host (ft_table ?b) (sample_meta True) sample_info =
      Inr (handshake_new sample_host ''b'')"
    by (simp add: fleet_init_def reg_defs mgr.has_new)
  have "fleet_env ''b'' sample_host ?b (move 0 (case app_on_handshake ''b'' sample_host (ft_table ?b) (sample_meta True) sample_info
      of Inr _ \<Rightarrow> St_checked (sample_meta True) sample_info | Inl _ \<Rightarrow> St_failed) ?b)"
    by (rule fleet_env.handshake) (simp_all add: sample_meta_def handshake_new_def)
  then have "fleet_env ''b'' sample_host ?b ?c" unfolding h by simp
  with b have c: "fleet_reach ''b'' sample_host P ?c"
    by (rule fleet_reach.env) (rule assms, simp add: fleet_init_def)
  have "fleet_int ?c ?d" by (rule fleet_int.admit) simp
  with c have d: "fleet_reach ''b'' sample_host P ?d"
    by (rule fleet_reach.int) (rule assms, simp add: fleet_init_def)
  have "one_admitted ?d"
    by (simp add: one_admitted_def fleet_init_def app_on_node_accepted_def sample_meta_def)
  with d show ?thesis by blast
qed

lemma sample_apart: "\<exists>s. fleet_reach ''b'' sample_host ids_apart s \<and> one_admitted s"
proof (rule sample_admitted)
  fix u :: fleet assume unseen: "\<And>i. i \<noteq> 0 \<Longrightarrow> ft_stage u i = St_unseen"
  have "i = 0" if "claimed (ft_stage u i) = Some k" for i k
    using that unseen[of i] by (cases "i = 0") simp_all
  then show "ids_apart u" unfolding ids_apart_def by blast
qed

theorem endpoint_refines_registry_witness:
  "\<exists>s es r. fleet_reach ''b'' sample_host ids_apart s \<and> one_admitted s \<and>
    reg_run ''b'' sample_host reg_init es = Some r \<and> rs_nodes r = ft_table s \<and>
    rs_conns r 0 = Some (Conn_running (sample_meta True) sample_info) \<and>
    manager_get (ft_table s) ''a'' = Some (0, sample_info)"
proof -
  obtain s where s: "fleet_reach ''b'' sample_host ids_apart s" "one_admitted s" using sample_apart by blast
  have st: "ft_stage s 0 = St_admitted (sample_meta True) sample_info" using s(2) by (simp add: one_admitted_def)
  note th = endpoint_refines_registry[OF s(1)]
  from th[THEN conjunct1] obtain es r where r: "reg_run ''b'' sample_host reg_init es = Some r"
    "rs_nodes r = ft_table s" "conn_matches (ft_stage s 0) (rs_conns r 0)" by blast
  have "manager_get (ft_table s) (nm_node_id (sample_meta True)) = Some (0, sample_info)"
    using th[THEN conjunct2, THEN conjunct2] st by simp
  with s st r show ?thesis by (auto simp: sample_meta_def)
qed

text \<open>
  C20: an endpoint that is told to stop does, but may leave nodes in the table.  Once the token
  is cancelled, the loops and their tasks cannot go on for ever, whatever their order, if the
  nodes stop; where they end, \<open>serve_all_connection\<close> has returned, no connection waits or is
  served, and every entry that is left in the table is that of a connection whose task had
  entered it when \<open>shutdown\<close> threw its result away: its \<open>on_node_exited\<close> is never called.
\<close>

theorem endpoint_stop_completes:
  assumes "fleet_reach local_id host (\<lambda>_. True) s" "ft_cancelled s" "fleet_int\<^sup>*\<^sup>* s t"
  shows "(\<exists>u. fleet_int\<^sup>*\<^sup>* t u \<and> (\<nexists>v. fleet_int u v)) \<and> (\<nexists>f. f 0 = t \<and> (\<forall>n. fleet_int (f n) (f (Suc n)))) \<and>
    ((\<nexists>u. fleet_int t u) \<longrightarrow>
      ft_over t \<and> ft_queue t = [] \<and> ft_tasks t = [] \<and> ft_passing t = None \<and> ft_chan t = [] \<and> ft_served t = [] \<and>
      (\<forall>k i info. manager_get (ft_table t) k = Some (i, info) \<longrightarrow>
        (\<exists>meta. ft_stage t i = St_orphaned meta info \<and> nm_node_id meta = k)))"
proof (intro conjI)
  have t: "fleet_reach local_id host (\<lambda>_. True) t" "ft_cancelled t" using fleet_run_reach[OF assms(3,1)] assms(2) by auto
  note inv = fleet_invs[OF t(1)]
  show "\<exists>u. fleet_int\<^sup>*\<^sup>* t u \<and> (\<nexists>v. fleet_int u v)" by (rule endpoint_steps.run_ends[OF inv(1)])
  show "\<nexists>f. f 0 = t \<and> (\<forall>n. fleet_int (f n) (f (Suc n)))" by (rule endpoint_steps.no_endless_run[OF inv(1)])
  show "(\<nexists>u. fleet_int t u) \<longrightarrow>
      ft_over t \<and> ft_queue t = [] \<and> ft_tasks t = [] \<and> ft_passing t = None \<and> ft_chan t = [] \<and> ft_served t = [] \<and>
      (\<forall>k i info. manager_get (ft_table t) k = Some (i, info) \<longrightarrow>
        (\<exists>meta. ft_stage t i = St_orphaned meta info \<and> nm_node_id meta = k))"
  proof
    assume "\<nexists>u. fleet_int t u"
    with fleet_int_progress[OF inv t(2)] have "ft_over t" by blast
    with inv(2) have over: "ft_over t" "ft_queue t = []" "ft_tasks t = []" "ft_passing t = None" "ft_chan t = []"
      "ft_served t = []" by (auto simp: phases_def)
    have "\<exists>meta. ft_stage t i = St_orphaned meta info \<and> nm_node_id meta = k"
      if "manager_get (ft_table t) k = Some (i, info)" for k i info
    proof -
      from fleet_entry[OF t(1) that] obtain meta where m: "entered (ft_stage t i) = Some (meta, info)" "nm_node_id meta = k"
        by blast
      moreover have "\<not> in_task (ft_stage t i)" using placed_facts(1)[OF inv(1), of i] over by simp
      ultimately show ?thesis using inv(1) over by (cases "ft_stage t i") (auto simp: placed_def)
    qed
    with over show "ft_over t \<and> ft_queue t = [] \<and> ft_tasks t = [] \<and> ft_passing t = None \<and> ft_chan t = [] \<and>
      ft_served t = [] \<and> (\<forall>k i info. manager_get (ft_table t) k = Some (i, info) \<longrightarrow>
        (\<exists>meta. ft_stage t i = St_orphaned meta info \<and> nm_node_id meta = k))" by blast
  qed
qed

theorem endpoint_stop_completes_witness:
  "\<exists>s t. fleet_reach ''b'' sample_host (\<lambda>_. True) s \<and> ft_cancelled s \<and> fleet_int\<^sup>*\<^sup>* s t \<and> ft_over t \<and> ft_served t = [] \<and>
    manager_get (ft_table t) ''a'' = Some (0, sample_info) \<and>
    ft_stage t 0 = St_orphaned (sample_meta True) sample_info"
proof -
  obtain s where s: "fleet_reach ''b'' sample_host (\<lambda>_. True) s" "one_admitted s"
    using sample_admitted[of "\<lambda>_. True"] by blast
  let ?s = "s\<lparr>ft_cancelled := True\<rparr>"
  have r: "fleet_reach ''b'' sample_host (\<lambda>_. True) ?s" by (rule fleet_reach.env[OF s(1) fleet_env.cancel]) simp
  let ?a = "?s\<lparr>ft_open := False\<rparr>"
  let ?b = "move 0 (St_orphaned (sample_meta True) sample_info) (?a\<lparr>ft_tasks := remove1 0 (ft_tasks ?a)\<rparr>)"
  have "fleet_int ?s ?a" by (rule fleet_int.close) (use s(2) in \<open>simp_all add: one_admitted_def\<close>)
  moreover have "fleet_int ?a ?b" by (rule fleet_int.discard) (use s(2) in \<open>simp_all add: one_admitted_def\<close>)
  moreover let ?c = "?b\<lparr>ft_sender := False\<rparr>"
  have "fleet_int ?b ?c" by (rule fleet_int.drop_sender) (use s(2) in \<open>simp_all add: one_admitted_def\<close>)
  moreover let ?d = "?c\<lparr>ft_nodes := False\<rparr>"
  have "fleet_int ?c ?d" by (rule fleet_int.nodes_end) (use s(2) in \<open>simp_all add: one_admitted_def\<close>)
  moreover let ?e = "?d\<lparr>ft_stage := (\<lambda>i. if i \<in> set (ft_queue ?d) then St_dropped else ft_stage ?d i),
      ft_queue := [], ft_over := True\<rparr>"
  have "fleet_int ?d ?e" by (rule fleet_int.finish) (use s(2) in \<open>simp_all add: one_admitted_def\<close>)
  ultimately have run: "fleet_int\<^sup>*\<^sup>* ?s ?e"
    by (meson converse_rtranclp_into_rtranclp rtranclp.rtrancl_refl)
  have "\<nexists>u. fleet_int ?e u"
    using s(2) by (auto simp: one_admitted_def elim!: fleet_int.cases split: if_splits)
  with endpoint_stop_completes[OF r _ run] have over: "ft_over ?e" "ft_served ?e = []"
    "manager_get (ft_table ?e) ''a'' = Some (0, sample_info) \<Longrightarrow>
      \<exists>meta. ft_stage ?e 0 = St_orphaned meta sample_info \<and> nm_node_id meta = ''a''"
    by simp_all
  have "manager_get (ft_table ?e) ''a'' = Some (0, sample_info)"
    "ft_stage ?e 0 = St_orphaned (sample_meta True) sample_info"
    using s(2) by (simp_all add: one_admitted_def mgr.get_ins)
  with r run over show ?thesis by (intro exI[of _ ?s] exI[of _ ?e]) simp
qed

end
