(* ===== verification/Crab_Proxy.thy ===== *)
theory Crab_Proxy
  imports Crab_Dispatch
begin

text \<open>
  The proxied HTTP request end to end: the call \<open>http_proxy\<close> of a handle
  (\<^verbatim>\<open>src/src/app/protocol/forwarder/http.rs\<close>, \<open>worker\<close>) against the node that serves it.
\<close>

section \<open>The parts of the exchange\<close>

lemma send_request_body_up:
  "tx_cap s = None \<Longrightarrow> send_request_body None s =
     s\<lparr>tx := tx s @ rx (lk_conn s), lk_conn := (lk_conn s)\<lparr>rx := []\<rparr>\<rparr>"
  by (simp add: send_request_body_def copy_in_up)

text \<open>The caller, once its command has been acknowledged.\<close>

lemma client_http_proxy_up:
  fixes s :: "(http_response, 'y) reply_link_scheme"
  assumes "codec_ok ac" "codec_ok rc" "framed cc Method_Command OPTION_NONE (Command_HttpProxy req) b"
    and "framed ac Method_Command OPTION_NONE ack_success k"
    and "rx s = k @ rest" "tx_cap s = None"
  shows "client_http_proxy ac cc rc True (Inr s) None None req =
    (let t = (s\<lparr>rl_chan := Os_open, rx := rest, tx := tx s @ b @ rx (lk_conn s),
                lk_conn := (lk_conn s)\<lparr>rx := []\<rparr>\<rparr>) in
     case read_message ac rc t of
       (Inl e, t') \<Rightarrow> (Inl e, Some (t'\<lparr>rl_chan := Os_value (Inl e)\<rparr>))
     | (Inr (_, resp), t') \<Rightarrow> (Inr resp, Some ((snd (copy_out t'))\<lparr>rl_chan := Os_value (Inr resp)\<rparr>)))"
proof -
  let ?s = "s\<lparr>rl_chan := Os_open\<rparr>"
  let ?t = "?s\<lparr>rx := rest, tx := tx s @ b @ rx (lk_conn s), lk_conn := (lk_conn s)\<lparr>rx := []\<rparr>\<rparr>"
  have w: "write_message cc Method_Command OPTION_NONE (Command_HttpProxy req) ?s = (Inr (), ?s\<lparr>tx := tx s @ b\<rparr>)"
    by (simp add: write_message_up[OF assms(3)] assms(6))
  have a: "read_ack ac (?s\<lparr>tx := tx s @ b\<rparr>) = (Inr (), ?s\<lparr>rx := rest, tx := tx s @ b\<rparr>)"
    using read_ack_ok[OF assms(1,4) option_none_ok, of "?s\<lparr>tx := tx s @ b\<rparr>" rest] assms(5) by simp
  have body: "send_request_body None (?s\<lparr>rx := rest, tx := tx s @ b\<rparr>) = ?t"
    using assms(6) by (simp add: send_request_body_up)
  obtain m t' where m: "read_message ac rc ?t = (m, t')" by (cases "read_message ac rc ?t")
  show ?thesis
    using m
    by (cases m)
      (auto simp: client_http_proxy_def handle_spawn_def base_task_execute_def andthen_def w a with_chan_def
        do_http_request_proxy_def body attempt_def Let_def split: prod.splits sum.splits)
qed

section \<open>The node\<close>

text \<open>What the node writes for a request that can be made, by the outcome of performing it.\<close>

lemma http_proxy_handle_up:
  fixes w :: "'z stream_scheme"
  assumes "make_request build req = Inr r" "framed ac (mh_method h) (mh_option h) ack_success k"
    and "client_request (perform r (rx w) (rx_fin w)) = outcome" "tx_cap w = None"
    and "case outcome of
           Inr (resp, _) \<Rightarrow> framed rc (mh_method h) (mh_option h) resp m
         | Inl e \<Rightarrow> framed ac (mh_method h) (mh_option h OR OPTION_ERROR) (ack_from_error e) m"
  shows "http_proxy_handle ac rc build perform False None req h w =
    (case outcome of
       Inr (_, body) \<Rightarrow>
         (case snd body of None \<Rightarrow> Inr () | Some e \<Rightarrow> Inl (IO e), w\<lparr>rx := [], tx := tx w @ k @ m @ fst body\<rparr>)
     | Inl e \<Rightarrow> (Inl e, w\<lparr>rx := [], tx := tx w @ k @ m\<rparr>))"
proof -
  have a: "write_message ac (mh_method h) (mh_option h) ack_success w = (Inr (), w\<lparr>tx := tx w @ k\<rparr>)"
    by (rule write_message_up[OF assms(2,4)])
  show ?thesis
  proof (cases outcome)
    case (Inl e)
    with assms(5) have f: "framed ac (mh_method h) (mh_option h OR OPTION_ERROR) (ack_from_error e) m" by simp
    have "write_error ac (mh_method h) (mh_option h) e (w\<lparr>tx := tx w @ k, rx := []\<rparr>) =
        (Inr (), w\<lparr>rx := [], tx := tx w @ k @ m\<rparr>)"
      using assms(4) by (simp add: write_error_up[OF f])
    with Inl assms(1,3) a show ?thesis by (simp add: http_proxy_handle_def andthen_def)
  next
    case (Inr p)
    then obtain resp body where p: "outcome = Inr (resp, body)" by (cases p) simp
    with assms(5) have f: "framed rc (mh_method h) (mh_option h) resp m" by simp
    have "write_message rc (mh_method h) (mh_option h) resp (w\<lparr>tx := tx w @ k, rx := []\<rparr>) =
        (Inr (), w\<lparr>rx := [], tx := tx w @ k @ m\<rparr>)"
      using assms(4) by (simp add: write_message_up[OF f])
    with p assms(1,3,4) a show ?thesis
      by (simp add: http_proxy_handle_def andthen_def send_received_def copy_to_stream_up split: option.split)
  qed
qed

section \<open>Properties\<close>

text \<open>
  C13: a proxied request is transparent end to end.  The target is asked with exactly the
  method, headers and URI of the request and exactly the bytes of its body; the caller gets
  the status and headers of the target's answer and exactly the bytes of its body, or, if
  the target cannot be reached, an error with the number of the node's error and no body.
\<close>

theorem http_exchange:
  fixes s :: "(http_response, 'y) reply_link_scheme" and w :: "'z world_scheme"
  assumes "codec_ok (sv_ack sv)" "codec_ok (sv_response sv)" "codec_ok cc"
    and "framed cc Method_Command OPTION_NONE (Command_HttpProxy req) b"
    and "framed (sv_ack sv) Method_Command OPTION_NONE ack_success k"
    and "sv_build sv (http_method_name (hq_method req)) (hq_headers req) (hq_request_uri req) = Some r"
    and "client_request (sv_perform sv r body True) = outcome"
    and "case outcome of
           Inr (resp, d, None) \<Rightarrow> framed (sv_response sv) Method_Command OPTION_NONE resp m \<and> d = answer_body
         | Inr (resp, d, Some _) \<Rightarrow> False
         | Inl e \<Rightarrow> framed (sv_ack sv) Method_Command OPTION_ERROR (ack_from_error e) m \<and> answer_body = []"
    and "\<not> st_request st" "st_body st = None"
    and "rx w = b @ body" "rx_fin w" "tx w = []" "tx_cap w = None"
    and "rx s = k @ m @ answer_body" "rx_fin s" "tx_cap s = None" "tx_cap (lk_conn s) = None" "rx (lk_conn s) = body"
  shows "(\<exists>w'. serve_stream sv cc st meta w = (map_sum id (\<lambda>_. ()) outcome, w') \<and> tx w' = rx s) \<and>
    (\<exists>t. client_http_proxy (sv_ack sv) cc (sv_response sv) True (Inr s) None None req =
        (map_sum (\<lambda>e. ErrorCode (err_no e)) fst outcome, Some t) \<and>
      tx t = tx s @ rx w \<and> tx (lk_conn t) = tx (lk_conn s) @ answer_body)"
proof
  let ?h = "head_of Method_Command OPTION_NONE b"
  have made: "make_request (sv_build sv) req = Inr r" using assms(6) by (simp add: make_request_def)
  have wf: "case outcome of
           Inr (resp, _) \<Rightarrow> framed (sv_response sv) (mh_method ?h) (mh_option ?h) resp m
         | Inl e \<Rightarrow> framed (sv_ack sv) (mh_method ?h) (mh_option ?h OR OPTION_ERROR) (ack_from_error e) m"
    using assms(8) by (auto split: sum.splits option.splits)
  have "serve_stream sv cc st meta w =
      http_proxy_handle (sv_ack sv) (sv_response sv) (sv_build sv) (sv_perform sv) False None req ?h (w\<lparr>rx := body\<rparr>)"
    using assms(9,10) by (simp add: serve_stream_command[OF assms(3,4,11)] command_handle_def)
  also have "\<dots> = (case outcome of
       Inr (_, d) \<Rightarrow> (case snd d of None \<Rightarrow> Inr () | Some e \<Rightarrow> Inl (IO e), w\<lparr>rx := [], tx := k @ m @ fst d\<rparr>)
     | Inl e \<Rightarrow> (Inl e, w\<lparr>rx := [], tx := k @ m\<rparr>))"
    using http_proxy_handle_up[OF made _ _ _ wf, of k "sv_perform sv" "w\<lparr>rx := body\<rparr>"] assms(5,7,12,13,14)
    by (cases outcome) (auto split: prod.splits)
  finally show "\<exists>w'. serve_stream sv cc st meta w = (map_sum id (\<lambda>_. ()) outcome, w') \<and> tx w' = rx s"
    using assms(8,15) by (auto split: sum.splits option.splits)
next
  let ?t = "s\<lparr>rl_chan := Os_open, rx := m @ answer_body, tx := tx s @ b @ body, lk_conn := (lk_conn s)\<lparr>rx := []\<rparr>\<rparr>"
  note run = client_http_proxy_up[OF assms(1,2,4,5,15,17), unfolded assms(19)]
  show "\<exists>t. client_http_proxy (sv_ack sv) cc (sv_response sv) True (Inr s) None None req =
        (map_sum (\<lambda>e. ErrorCode (err_no e)) fst outcome, Some t) \<and>
      tx t = tx s @ rx w \<and> tx (lk_conn t) = tx (lk_conn s) @ answer_body"
  proof (cases outcome)
    case (Inl e)
    with assms(8) have f: "framed (sv_ack sv) Method_Command OPTION_ERROR (ack_from_error e) m" "answer_body = []"
      by simp_all
    have "read_message (sv_ack sv) (sv_response sv) ?t = (Inl (ErrorCode (err_no e)), ?t\<lparr>rx := []\<rparr>)"
      using read_message_err[OF assms(1) f(1), of ?t "[]" "sv_response sv"] f(2)
      by (simp add: ack_from_error_code)
    with Inl f(2) assms(11) show ?thesis by (simp add: run Let_def)
  next
    case (Inr p)
    with assms(8) obtain resp where p: "outcome = Inr (resp, answer_body, None)"
      "framed (sv_response sv) Method_Command OPTION_NONE resp m"
      by (cases p) (auto split: option.splits)
    have "read_message (sv_ack sv) (sv_response sv) ?t =
        (Inr (head_of Method_Command OPTION_NONE m, resp), ?t\<lparr>rx := answer_body\<rparr>)"
      using read_message_ok[OF assms(2) p(2) option_none_ok, of ?t answer_body "sv_ack sv"] by simp
    moreover have "copy_out (?t\<lparr>rx := answer_body\<rparr>) = (Inr (), ?t\<lparr>rx := [],
        lk_conn := (lk_conn s)\<lparr>rx := [], tx := tx (lk_conn s) @ answer_body\<rparr>\<rparr>)"
      using assms(16,18) by (simp add: copy_out_up)
    ultimately show ?thesis using p(1) assms(11) by (simp add: run Let_def)
  qed
qed

definition sample_request :: http_request where
  "sample_request = \<lparr>hq_method = Http_Post, hq_request_uri = ''http://h/'', hq_headers = []\<rparr>"

definition sample_proxy :: "unit services" where
  "sample_proxy = (sample_services sample_ack (table_codec []) (table_codec []))
     \<lparr>sv_response := table_codec [(\<lparr>hr_status_code = 200, hr_headers = []\<rparr>, [6])],
      sv_build := (\<lambda>_ _ _. Some ()),
      sv_perform := (\<lambda>_ body _. Inr \<lparr>rr_status = 200, rr_headers = [], rr_body = (rev body, None)\<rparr>)\<rparr>"

lemma sample_proxy_simps [simp]:
  "sv_ack sample_proxy = sample_ack" "sv_build sample_proxy m hs u = Some ()"
  "sv_response sample_proxy = table_codec [(\<lparr>hr_status_code = 200, hr_headers = []\<rparr>, [6])]"
  "sv_perform sample_proxy r body fin = Inr \<lparr>rr_status = 200, rr_headers = [], rr_body = (rev body, None)\<rparr>"
  by (simp_all add: sample_proxy_def)

theorem http_exchange_witness:
  "\<exists>t. client_http_proxy sample_ack (table_codec [(Command_HttpProxy sample_request, [9])])
      (table_codec [(\<lparr>hr_status_code = 200, hr_headers = []\<rparr>, [6])]) True
      (Inr (reply_link_of (ack_frame @ small_frame Method_Command OPTION_NONE 6 @ [2, 1]) [1, 2])) None None sample_request =
      (Inr \<lparr>hr_status_code = 200, hr_headers = []\<rparr>, Some t) \<and>
    tx t = small_frame Method_Command OPTION_NONE 9 @ [1, 2] \<and> tx (lk_conn t) = [2, 1]"
  using http_exchange[of sample_proxy "table_codec [(Command_HttpProxy sample_request, [9])]" sample_request
      "small_frame Method_Command OPTION_NONE 9" ack_frame "()" "[1, 2]"
      "Inr (\<lparr>hr_status_code = 200, hr_headers = []\<rparr>, [2, 1], None)" "small_frame Method_Command OPTION_NONE 6"
      "[2, 1]" sample_stops "world_of (small_frame Method_Command OPTION_NONE 9 @ [1, 2]) sample_fs"
      "reply_link_of (ack_frame @ small_frame Method_Command OPTION_NONE 6 @ [2, 1]) [1, 2]" sample_caller]
  by (simp add: sample_ack_facts sample_ack_framed single_codec_ok single_framed sample_stops_def
      client_request_def response_of_def)

end
