(* ===== verification/Crab_Api_Types.thy ===== *)
theory Crab_Api_Types
  imports Crab_App_Types Crab_Errors
begin

text \<open>
  \<^verbatim>\<open>src/src/app/workers/ctrl/types.rs\<close>: the answers of the HTTP interface, and how they become
  HTTP responses.

  A \<open>web_response\<close> is what a handler hands to the HTTP library: the status, the headers the
  code sets and the body, which is a value that is sent as JSON or bytes.  Of the library's
  types, the test of a status number and the header map are parameters (\<open>header_lib\<close>);
  \<open>header_laws\<close> is the documented behaviour of the map: \<open>insert\<close> replaces all values of a name.
\<close>

section \<open>The envelope\<close>

record 'd api_ret =
  ar_err_no :: u32
  ar_msg :: string
  ar_data :: "'d option"

definition ret_error :: "crab_error \<Rightarrow> 'd api_ret" where
  "ret_error e = \<lparr>ar_err_no = err_no e, ar_msg = display_error e, ar_data = None\<rparr>"

definition ret_from :: "'d \<Rightarrow> 'd api_ret" where
  "ret_from t = \<lparr>ar_err_no = NO_ERROR, ar_msg = ''success'', ar_data = Some t\<rparr>"

definition ret_from_result :: "crab_error + 'd \<Rightarrow> 'd api_ret" where
  "ret_from_result r = (case r of Inr val \<Rightarrow> ret_from val | Inl e \<Rightarrow> ret_error e)"

section \<open>Responses\<close>

datatype 'd web_body = Body_json "'d api_ret" | Body_bytes bytes

record ('d, 'hm) web_response =
  wr_status :: u16
  wr_headers :: 'hm
  wr_body :: "'d web_body"

definition ret_into_response :: "'hm \<Rightarrow> 'd api_ret \<Rightarrow> ('d, 'hm) web_response" where
  "ret_into_response no_headers r = \<lparr>wr_status = 200, wr_headers = no_headers, wr_body = Body_json r\<rparr>"

datatype stream_response = Stream_Error "unit api_ret" | Stream_File file_metadata bytes

definition stream_into_response :: "stream_response \<Rightarrow> (unit, headers) web_response" where
  "stream_into_response r =
    (case r of
       Stream_Error answer \<Rightarrow> ret_into_response [] answer
     | Stream_File metadata body \<Rightarrow>
         \<lparr>wr_status = 200,
          wr_headers = [(''content-type'', ''application/octet-stream''),
            (''content-length'', digits (unat (fm_filesize metadata)))],
          wr_body = Body_bytes body\<rparr>)"

datatype proxy_response = Proxy_Err u16 crab_error | Proxy_Ok http_response bytes

text \<open>
  The library: \<open>HeaderName::from_bytes\<close>, \<open>HeaderValue::from_str\<close>, the header map with
  \<open>insert\<close> and \<open>get_all\<close>, and whether \<open>StatusCode::from_u16\<close> accepts a number.
\<close>

record 'hm header_lib =
  hl_name :: "string \<Rightarrow> string option"
  hl_value :: "string \<Rightarrow> string option"
  hl_empty :: 'hm
  hl_insert :: "'hm \<Rightarrow> string \<Rightarrow> string \<Rightarrow> 'hm"
  hl_get_all :: "'hm \<Rightarrow> string \<Rightarrow> string list"
  hl_status :: "u16 \<Rightarrow> bool"

definition header_laws :: "'hm header_lib \<Rightarrow> bool" where
  "header_laws lib \<longleftrightarrow>
    (\<forall>n. hl_get_all lib (hl_empty lib) n = []) \<and>
    (\<forall>m n v k. hl_get_all lib (hl_insert lib m n v) k = (if k = n then [v] else hl_get_all lib m k))"

definition status_or_500 :: "'hm header_lib \<Rightarrow> u16 \<Rightarrow> u16" where
  "status_or_500 lib st = (if hl_status lib st then st else 500)"

fun response_headers :: "'hm header_lib \<Rightarrow> headers \<Rightarrow> 'hm \<Rightarrow> 'hm" where
  "response_headers lib [] m = m"
| "response_headers lib ((key, v) # hs) m =
    (case (hl_name lib key, hl_value lib v) of
       (Some name, Some val) \<Rightarrow> response_headers lib hs (hl_insert lib m name val)
     | _ \<Rightarrow> response_headers lib hs m)"

definition proxy_into_response :: "'hm header_lib \<Rightarrow> proxy_response \<Rightarrow> (unit, 'hm) web_response" where
  "proxy_into_response lib r =
    (case r of
       Proxy_Err status err \<Rightarrow>
         \<lparr>wr_status = status_or_500 lib status, wr_headers = hl_empty lib, wr_body = Body_json (ret_error err)\<rparr>
     | Proxy_Ok h body \<Rightarrow>
         \<lparr>wr_status = status_or_500 lib (hr_status_code h),
          wr_headers = response_headers lib (hr_headers h) (hl_empty lib), wr_body = Body_bytes body\<rparr>)"

section \<open>Lemmas\<close>

text \<open>The values under a name, in the order of the answer.\<close>

definition sent_values :: "'hm header_lib \<Rightarrow> headers \<Rightarrow> string \<Rightarrow> string list" where
  "sent_values lib hs n =
    List.map_filter (\<lambda>(k, v). if hl_name lib k = Some n then hl_value lib v else None) hs"

lemma sent_values_simps [simp]:
  "sent_values lib [] n = []"
  "sent_values lib ((k, v) # hs) n =
     (if hl_name lib k = Some n then (case hl_value lib v of None \<Rightarrow> [] | Some x \<Rightarrow> [x]) else []) @ sent_values lib hs n"
  by (simp_all add: sent_values_def List.map_filter_simps split: option.split)

lemma response_headers_last:
  assumes "header_laws lib"
  shows "hl_get_all lib (response_headers lib hs m) n =
    (if sent_values lib hs n = [] then hl_get_all lib m n else [last (sent_values lib hs n)])"
proof (induction hs arbitrary: m)
  case (Cons h hs)
  obtain k v where h: "h = (k, v)" by (cases h)
  have "hl_get_all lib (hl_insert lib m x y) n = (if n = x then [y] else hl_get_all lib m n)" for x y
    using assms by (simp add: header_laws_def)
  with Cons h show ?case by (cases "hl_name lib k"; cases "hl_value lib v") auto
qed simp

section \<open>Properties\<close>

text \<open>
  Of a header that the target of a proxied request sends more than once, only the last
  value reaches the client.  The response has the target's status if it is a status, else
  500, and the target's body; under every name it has at most one value, the last one the
  target sent that is a header value, so that of several cookies all but one are lost.
\<close>

lemma proxy_headers_overwritten:
  assumes "header_laws lib"
  shows "wr_status (proxy_into_response lib (Proxy_Ok h body)) = (if hl_status lib (hr_status_code h) then hr_status_code h else 500) \<and>
    wr_body (proxy_into_response lib (Proxy_Ok h body)) = Body_bytes body \<and>
    hl_get_all lib (wr_headers (proxy_into_response lib (Proxy_Ok h body))) n =
      (if sent_values lib (hr_headers h) n = [] then [] else [last (sent_values lib (hr_headers h) n)])"
  using response_headers_last[OF assms, of "hr_headers h" "hl_empty lib" n] assms
  by (simp add: proxy_into_response_def status_or_500_def header_laws_def)

definition sample_header_lib :: "(string \<Rightarrow> string list) header_lib" where
  "sample_header_lib = \<lparr>hl_name = Some, hl_value = Some, hl_empty = (\<lambda>_. []),
     hl_insert = (\<lambda>m n v. m(n := [v])), hl_get_all = (\<lambda>m. m), hl_status = (\<lambda>s. 100 \<le> s \<and> s < 1000)\<rparr>"

lemma sample_header_laws: "header_laws sample_header_lib"
  by (simp add: header_laws_def sample_header_lib_def)

lemma proxy_headers_overwritten_witness:
  "hl_get_all sample_header_lib (wr_headers (proxy_into_response sample_header_lib
      (Proxy_Ok \<lparr>hr_status_code = 200, hr_headers = [(''set-cookie'', ''a=1''), (''set-cookie'', ''b=2'')]\<rparr> [])))
    ''set-cookie'' = [''b=2'']"
  using proxy_headers_overwritten[OF sample_header_laws, of "\<lparr>hr_status_code = 200,
      hr_headers = [(''set-cookie'', ''a=1''), (''set-cookie'', ''b=2'')]\<rparr>" "[]" "''set-cookie''"]
  by (simp add: sample_header_lib_def)

end
