(* ===== verification/Crab_Api.thy ===== *)
theory Crab_Api
  imports Crab_Proxy Crab_Registry Crab_Runit Crab_Api_Types
begin

text \<open>
  \<^verbatim>\<open>src/src/app/workers/ctrl/ctrl.rs\<close> and \<^verbatim>\<open>src/src/app/workers/workers.rs\<close>: the HTTP
  interface, whose handlers look the node up in the table and call its handle.

  The HTTP server is a parameter: a handler gets the parameters it declares and yields the
  answer of \<open>Crab_Api_Types\<close>.  \<open>dial\<close> is the state of the nodes: for a handle, whether the node
  takes a task and the stream it opens for it.  The body of a request and the pipe that
  becomes the body of a response are the other end of the link.
\<close>

type_synonym 'h dial = "'h \<Rightarrow> bool \<times> (crab_error + stream)"

section \<open>Routes\<close>

datatype api_handler =
  Api_info | Api_ping | Api_remove | Api_read | Api_write | Api_list | Api_proxy

text \<open>Method (\<open>None\<close>: any), path pattern and handler.\<close>

definition ctrl_routers :: "(string option \<times> string \<times> api_handler) list" where
  "ctrl_routers =
    [(Some ''GET'', ''/{node_id}'', Api_info),
     (Some ''GET'', ''/{node_id}/ping'', Api_ping),
     (Some ''DELETE'', ''/{node_id}/dir'', Api_remove),
     (Some ''GET'', ''/{node_id}/file'', Api_read),
     (Some ''POST'', ''/{node_id}/file'', Api_write),
     (Some ''GET'', ''/{node_id}/dir'', Api_list),
     (None, ''/{node_id}/proxy'', Api_proxy),
     (None, ''/{node_id}/proxy/{*target_path}'', Api_proxy)]"

definition ctrl_tag :: string where "ctrl_tag = ''ctrl''"

definition nest_routers ::
  "(string \<times> (string option \<times> string \<times> 'x) list) list \<Rightarrow> (string option \<times> string \<times> 'x) list" where
  "nest_routers ws = concat (map (\<lambda>(tag, rs). map (\<lambda>(m, path, x). (m, ''/'' @ tag @ path, x)) rs) ws)"

section \<open>The simple handlers\<close>

definition node_info :: "'h manager \<Rightarrow> string \<Rightarrow> handshake api_ret" where
  "node_info m node_id =
    (case manager_get m node_id of
       None \<Rightarrow> ret_error (ErrorCode NODE_ALREADY_EXIT)
     | Some (_, info) \<Rightarrow> ret_from info)"

definition node_ping ::
  "ack_message codec \<Rightarrow> command codec \<Rightarrow> 'h dial \<Rightarrow> 'h manager \<Rightarrow> string \<Rightarrow> unit api_ret" where
  "node_ping ac cc dial m node_id =
    (case manager_get m node_id of
       None \<Rightarrow> ret_error (ErrorCode NODE_ALREADY_EXIT)
     | Some (h, _) \<Rightarrow> (case dial h of (queued, opened) \<Rightarrow> ret_from_result (client_ping ac cc queued opened)))"

definition node_remove_dir ::
  "ack_message codec \<Rightarrow> command codec \<Rightarrow> 'h dial \<Rightarrow> 'h manager \<Rightarrow> string \<Rightarrow> string \<Rightarrow> bool \<Rightarrow> unit api_ret" where
  "node_remove_dir ac cc dial m node_id path dir =
    (case manager_get m node_id of
       None \<Rightarrow> ret_error (ErrorCode NODE_ALREADY_EXIT)
     | Some (h, _) \<Rightarrow>
         (case dial h of (queued, opened) \<Rightarrow> ret_from_result (client_delete ac cc queued opened path dir)))"

definition node_list_dir ::
  "ack_message codec \<Rightarrow> command codec \<Rightarrow> dir_entry list codec \<Rightarrow> 'h dial \<Rightarrow> 'h manager \<Rightarrow> string \<Rightarrow> string
    \<Rightarrow> dir_entry list api_ret" where
  "node_list_dir ac cc dc dial m node_id path =
    (case manager_get m node_id of
       None \<Rightarrow> ret_error (ErrorCode NODE_ALREADY_EXIT)
     | Some (h, _) \<Rightarrow>
         (case dial h of
            (queued, opened) \<Rightarrow>
              (case client_read_dir ac cc dc queued opened path of
                 Inr entries \<Rightarrow> ret_from entries
               | Inl err \<Rightarrow> ret_error err)))"

section \<open>Reading a file\<close>

definition BUF_SIZE :: nat where "BUF_SIZE = 1024 * 16"

definition text_bytes :: "string \<Rightarrow> bytes" where
  "text_bytes t = map (\<lambda>c. word_of_nat (of_char c)) t"

text \<open>The executor: the second acknowledgement, then everything into the pipe.\<close>

definition download_executor :: "ack_message codec \<Rightarrow> token \<Rightarrow> ('y, unit) lprog" where
  "download_executor ac tok s =
    (case read_ack ac s of
       (Inl err, t) \<Rightarrow>
         (Inl err, t\<lparr>lk_conn := snd (copy_to_stream
            (take BUF_SIZE (text_bytes (''read ack error '' @ display_error err))) (lk_conn t))\<rparr>)
     | (Inr _, t) \<Rightarrow> copy_out t)"

text \<open>The call to the node, with the executor it is given: the metadata, and the stream as the task has left it.\<close>

definition download_call ::
  "ack_message codec \<Rightarrow> command codec \<Rightarrow> file_metadata codec \<Rightarrow> bool \<Rightarrow> crab_error + stream \<Rightarrow> bool \<Rightarrow> stream
    \<Rightarrow> string \<Rightarrow> (crab_error + file_metadata) \<times> link option" where
  "download_call ac cc mc queued opened taken pipe path =
    two_stage_call ac cc mc queued (map_sum id (link_with pipe) opened) None
      (Command_ReadFile \<lparr>rf_path = path\<rparr>) (\<lambda>_. hand_over taken (download_executor ac))"

definition read_node_file ::
  "ack_message codec \<Rightarrow> command codec \<Rightarrow> file_metadata codec \<Rightarrow> 'h dial \<Rightarrow> bool \<Rightarrow> stream
    \<Rightarrow> 'h manager \<Rightarrow> string \<Rightarrow> string \<Rightarrow> stream_response" where
  "read_node_file ac cc mc dial taken pipe m node_id path =
    (case manager_get m node_id of
       None \<Rightarrow> Stream_Error (ret_error (ErrorCode NODE_ALREADY_EXIT))
     | Some (h, _) \<Rightarrow>
         (case dial h of
            (queued, opened) \<Rightarrow>
              (case download_call ac cc mc queued opened taken pipe path of
                 (Inl e, _) \<Rightarrow> Stream_Error (ret_error e)
               | (Inr metadata, t) \<Rightarrow>
                   if taken
                   then Stream_File metadata (case t of None \<Rightarrow> [] | Some s \<Rightarrow> tx (lk_conn s))
                   else Stream_Error (ret_error (ErrorCode CANCELED_ERROR)))))"

section \<open>Writing a file\<close>

text \<open>\<open>up_finished\<close>: the writer of the stream has been shut down.\<close>

record upload = "unit reply_link" +
  up_finished :: bool

definition upload_with :: "stream \<Rightarrow> stream \<Rightarrow> upload" where
  "upload_with conn s = reply_link.extend (reply_link_with conn s) (upload.fields False)"

definition upload_executor :: "ack_message codec \<Rightarrow> token \<Rightarrow> (crab_error, 'y upload_scheme, unit) prog" where
  "upload_executor ac tok s =
    (case tok of
       Some n \<Rightarrow> (Inl (ErrorCode CANCELED_ERROR), copy_in_part n s)
     | None \<Rightarrow>
         (case copy_in s of
            (r, t) \<Rightarrow>
              (let t' = t\<lparr>up_finished := True\<rparr> in
               case r of
                 Inr _ \<Rightarrow> read_ack ac t'
               | Inl e \<Rightarrow> (Inl e, t'))))"

text \<open>The result is the answer and the stream as the task has left it.\<close>

definition node_write_file ::
  "ack_message codec \<Rightarrow> command codec \<Rightarrow> 'h dial \<Rightarrow> bool \<Rightarrow> token \<Rightarrow> stream
    \<Rightarrow> 'h manager \<Rightarrow> string \<Rightarrow> write_file \<Rightarrow> unit api_ret \<times> upload option" where
  "node_write_file ac cc dial taken tok body m node_id param =
    (case manager_get m node_id of
       None \<Rightarrow> (ret_error (ErrorCode NODE_ALREADY_EXIT), None)
     | Some (h, _) \<Rightarrow>
         (case dial h of
            (queued, opened) \<Rightarrow>
              (case two_stage_call ac cc ac queued (map_sum id (upload_with body) opened) tok
                      (Command_WriteFile param)
                      (\<lambda>_. hand_over taken (\<lambda>tk. with_chan (executor_wrapper_execute (upload_executor ac) tk))) of
                 (Inl err, t) \<Rightarrow> (ret_error err, t)
               | (Inr _, t) \<Rightarrow>
                   (if \<not> taken then ret_error (ErrorCode CANCELED_ERROR)
                    else
                      (case Option.bind t (\<lambda>u. oneshot_recv (oneshot_close (rl_chan u))) of
                         Some r \<Rightarrow> ret_from_result r
                       | None \<Rightarrow> ret_error (ErrorCode CANCELED_ERROR)), t))))"

section \<open>The HTTP proxy\<close>

definition HEADER_X_TARGET_HOST :: string where "HEADER_X_TARGET_HOST = ''x-target-host''"
definition HEADER_HOST :: string where "HEADER_HOST = ''host''"

text \<open>
  The URL library: parsing, joining with a relative reference, setting the query and
  printing; errors are the text they print.
\<close>

record 'u url_lib =
  ul_parse :: "string \<Rightarrow> ext_error + 'u"
  ul_join :: "'u \<Rightarrow> string \<Rightarrow> ext_error + 'u"
  ul_set_query :: "'u \<Rightarrow> string \<Rightarrow> 'u"
  ul_to_string :: "'u \<Rightarrow> string"

text \<open>A request: header names are in lower case, a value that is not text is \<open>None\<close>.\<close>

record web_request =
  wq_method :: string
  wq_headers :: "(string \<times> string option) list"
  wq_query :: "string option"

definition target_url :: "'u url_lib \<Rightarrow> string \<Rightarrow> string option \<Rightarrow> ext_error + 'u" where
  "target_url ul target target_path =
    (case ul_parse ul target of
       Inl e \<Rightarrow> Inl e
     | Inr url \<Rightarrow> (case target_path of None \<Rightarrow> Inr url | Some path \<Rightarrow> ul_join ul url path))"

definition forwarded_headers :: "(string \<times> string option) list \<Rightarrow> headers" where
  "forwarded_headers hs =
    map (\<lambda>(k, v). (k, case v of None \<Rightarrow> [] | Some t \<Rightarrow> t))
      (List.filter (\<lambda>(h, _). h \<notin> set [HEADER_X_TARGET_HOST, HEADER_HOST]) hs)"

definition proxy_request ::
  "'u url_lib \<Rightarrow> string option \<Rightarrow> web_request \<Rightarrow> (u16 \<times> crab_error) + http_request" where
  "proxy_request ul target_path req =
    (case Option.bind (map_of (wq_headers req) HEADER_X_TARGET_HOST) id of
       None \<Rightarrow> Inl (400, ErrorCode BAD_PARAMETER)
     | Some target \<Rightarrow>
         (case target_url ul target target_path of
            Inl e \<Rightarrow> Inl (400, ErrorCodeWithMessage 400 e)
          | Inr url0 \<Rightarrow>
              (let url = (case wq_query req of None \<Rightarrow> url0 | Some q \<Rightarrow> ul_set_query ul url0 q) in
               case http_method_try_from (wq_method req) of
                 Inl _ \<Rightarrow> Inl (400, ErrorCode UNSUPPORTED_ERROR)
               | Inr me \<Rightarrow>
                   Inr \<lparr>hq_method = me, hq_request_uri = ul_to_string ul url,
                        hq_headers = forwarded_headers (wq_headers req)\<rparr>)))"

definition http_proxy ::
  "ack_message codec \<Rightarrow> command codec \<Rightarrow> http_response codec \<Rightarrow> 'u url_lib \<Rightarrow> 'h dial \<Rightarrow> stream
    \<Rightarrow> 'h manager \<Rightarrow> string \<Rightarrow> string option \<Rightarrow> web_request \<Rightarrow> proxy_response" where
  "http_proxy ac cc rc ul dial body m node_id target_path req =
    (case proxy_request ul target_path req of
       Inl (status, err) \<Rightarrow> Proxy_Err status err
     | Inr http_req \<Rightarrow>
         (case manager_get m node_id of
            None \<Rightarrow> Proxy_Err 502 (ErrorCode NODE_ALREADY_EXIT)
          | Some (h, _) \<Rightarrow>
              (case dial h of
                 (queued, opened) \<Rightarrow>
                   (case client_http_proxy ac cc rc queued (map_sum id (reply_link_with body) opened) None None http_req of
                      (Inr resp, t) \<Rightarrow> Proxy_Ok resp (case t of None \<Rightarrow> [] | Some s \<Rightarrow> tx (lk_conn s))
                    | (Inl err, _) \<Rightarrow> Proxy_Err 502 err))))"

section \<open>The workers\<close>

text \<open>\<open>CtrlWorker\<close> has nothing to run; \<open>HttpWorker\<close> binds and serves until it is shut down.\<close>

definition ctrl_serve :: "crab_error + unit" where "ctrl_serve = Inr ()"

definition http_worker_serve :: "ext_error option \<Rightarrow> ext_error option \<Rightarrow> crab_error + unit" where
  "http_worker_serve bind served =
    (case bind of
       Some e \<Rightarrow> Inl (IO e)
     | None \<Rightarrow> (case served of Some e \<Rightarrow> Inl (IO e) | None \<Rightarrow> Inr ()))"

text \<open>
  \<open>BaseApiWorker\<close>: the tags and routers of its workers are nested in one application; the
  workers and the HTTP worker run together, \<open>before\<close> and \<open>after\<close> are the results of those
  that end before and after the HTTP worker.
\<close>

definition base_api_serve ::
  "join_result list \<Rightarrow> join_result list \<Rightarrow> ext_error option \<Rightarrow> ext_error option \<Rightarrow> bool \<times> (crab_error + unit)" where
  "base_api_serve before after bind served =
    vec_serve (before @ [Inr (http_worker_serve bind served)] @ after)"

section \<open>Lemmas\<close>

lemma forwarded_headers_values:
  assumes "k \<noteq> HEADER_X_TARGET_HOST" "k \<noteq> HEADER_HOST"
  shows "map snd (List.filter (\<lambda>(n, _). n = k) (forwarded_headers hs)) =
    map (\<lambda>(_, v). case v of None \<Rightarrow> [] | Some t \<Rightarrow> t) (List.filter (\<lambda>(n, _). n = k) hs)"
  using assms by (induction hs) (auto simp: forwarded_headers_def)

lemma proxy_request_Inr:
  "proxy_request ul target_path req = Inr q \<longleftrightarrow>
    (\<exists>host url me. map_of (wq_headers req) HEADER_X_TARGET_HOST = Some (Some host) \<and>
       target_url ul host target_path = Inr url \<and> http_method_try_from (wq_method req) = Inr me \<and>
       q = \<lparr>hq_method = me,
            hq_request_uri = ul_to_string ul (case wq_query req of None \<Rightarrow> url | Some qs \<Rightarrow> ul_set_query ul url qs),
            hq_headers = forwarded_headers (wq_headers req)\<rparr>)"
  by (auto simp: proxy_request_def Let_def bind_eq_Some_conv split: option.splits sum.splits)

lemma proxy_request_Inl: "proxy_request ul target_path req = Inl (status, err) \<Longrightarrow> status = 400"
  by (auto simp: proxy_request_def Let_def split: option.splits sum.splits)

section \<open>Properties\<close>

text \<open>
  C30: the HTTP proxy forwards exactly the requests it may.  A request goes to the node if and
  only if it names a target host, the host with the path is a URL and the method is
  supported; otherwise the answer has the status 400 whatever the node.  A forwarded request
  has the method and the query of the original and all its headers with their values in
  order, but neither \<open>host\<close> nor \<open>x-target-host\<close>; from then on every failure has the status
  502, an unknown node one.
\<close>

theorem proxy_gate:
  assumes "http_proxy ac cc rc ul dial body m node_id target_path req = reply"
  shows "case proxy_request ul target_path req of
      Inl (status, e) \<Rightarrow> reply = Proxy_Err 400 e \<and>
        \<not> (\<exists>host url me. map_of (wq_headers req) HEADER_X_TARGET_HOST = Some (Some host) \<and>
             target_url ul host target_path = Inr url \<and> http_method_try_from (wq_method req) = Inr me)
    | Inr q \<Rightarrow>
        (\<exists>host url. map_of (wq_headers req) HEADER_X_TARGET_HOST = Some (Some host) \<and>
           target_url ul host target_path = Inr url \<and>
           hq_request_uri q = ul_to_string ul (case wq_query req of None \<Rightarrow> url | Some qs \<Rightarrow> ul_set_query ul url qs)) \<and>
        http_method_try_from (wq_method req) = Inr (hq_method q) \<and>
        HEADER_X_TARGET_HOST \<notin> fst ` set (hq_headers q) \<and> HEADER_HOST \<notin> fst ` set (hq_headers q) \<and>
        (\<forall>k. k \<noteq> HEADER_X_TARGET_HOST \<and> k \<noteq> HEADER_HOST \<longrightarrow>
           map snd (List.filter (\<lambda>(n, _). n = k) (hq_headers q)) =
           map (\<lambda>(_, v). case v of None \<Rightarrow> [] | Some t \<Rightarrow> t) (List.filter (\<lambda>(n, _). n = k) (wq_headers req))) \<and>
        (\<forall>status e. reply = Proxy_Err status e \<longrightarrow> status = 502) \<and>
        (manager_get m node_id = None \<longrightarrow> reply = Proxy_Err 502 (ErrorCode NODE_ALREADY_EXIT))"
proof (cases "proxy_request ul target_path req")
  case (Inl p)
  then obtain e where p: "proxy_request ul target_path req = Inl (400, e)"
    by (cases p) (auto dest: proxy_request_Inl)
  moreover have "\<nexists>q. proxy_request ul target_path req = Inr q" using Inl by simp
  ultimately show ?thesis using assms unfolding proxy_request_Inr by (auto simp: http_proxy_def)
next
  case (Inr q)
  then obtain host url where q: "map_of (wq_headers req) HEADER_X_TARGET_HOST = Some (Some host)"
    "target_url ul host target_path = Inr url" "http_method_try_from (wq_method req) = Inr (hq_method q)"
    "hq_request_uri q = ul_to_string ul (case wq_query req of None \<Rightarrow> url | Some qs \<Rightarrow> ul_set_query ul url qs)"
    "hq_headers q = forwarded_headers (wq_headers req)"
    by (auto simp: proxy_request_Inr)
  have "\<forall>status e. reply = Proxy_Err status e \<longrightarrow> status = 502"
    using assms Inr by (auto simp: http_proxy_def split: option.splits prod.splits sum.splits)
  moreover have "manager_get m node_id = None \<longrightarrow> reply = Proxy_Err 502 (ErrorCode NODE_ALREADY_EXIT)"
    using assms Inr by (auto simp: http_proxy_def)
  moreover have "HEADER_X_TARGET_HOST \<notin> fst ` set (hq_headers q)" "HEADER_HOST \<notin> fst ` set (hq_headers q)"
    unfolding q(5) by (auto simp: forwarded_headers_def)
  moreover have "\<forall>k. k \<noteq> HEADER_X_TARGET_HOST \<and> k \<noteq> HEADER_HOST \<longrightarrow>
      map snd (List.filter (\<lambda>(n, _). n = k) (hq_headers q)) =
      map (\<lambda>(_, v). case v of None \<Rightarrow> [] | Some t \<Rightarrow> t) (List.filter (\<lambda>(n, _). n = k) (wq_headers req))"
    unfolding q(5) by (blast intro: forwarded_headers_values)
  ultimately show ?thesis unfolding Inr sum.case using q(1-4) by blast
qed

definition sample_url_lib :: "string url_lib" where
  "sample_url_lib = \<lparr>ul_parse = Inr, ul_join = (\<lambda>u p. Inr (u @ p)), ul_set_query = (\<lambda>u q. u @ ''?'' @ q),
     ul_to_string = (\<lambda>u. u)\<rparr>"

definition sample_web_request :: web_request where
  "sample_web_request = \<lparr>wq_method = ''GET'',
     wq_headers = [(''host'', Some ''me''), (''x-target-host'', Some ''http://h/''), (''accept'', Some ''a'')],
     wq_query = Some ''q=1''\<rparr>"

theorem proxy_gate_witness:
  "proxy_request sample_url_lib (Some ''p'') sample_web_request =
      Inr \<lparr>hq_method = Http_Get, hq_request_uri = ''http://h/p?q=1'', hq_headers = [(''accept'', ''a'')]\<rparr> \<and>
    http_proxy sample_ack (table_codec []) (table_codec []) sample_url_lib (\<lambda>_. (True, Inr (stream_of []))) (stream_of [])
      (manager_new :: nat manager) ''a'' (Some ''p'') sample_web_request = Proxy_Err 502 (ErrorCode NODE_ALREADY_EXIT)"
proof -
  have q: "proxy_request sample_url_lib (Some ''p'') sample_web_request =
      Inr \<lparr>hq_method = Http_Get, hq_request_uri = ''http://h/p?q=1'', hq_headers = [(''accept'', ''a'')]\<rparr>"
    by (simp add: proxy_request_def sample_web_request_def sample_url_lib_def target_url_def forwarded_headers_def
        http_method_try_from_def HEADER_X_TARGET_HOST_def HEADER_HOST_def)
  from proxy_gate[OF refl, of sample_ack "table_codec []" "table_codec []" sample_url_lib
      "\<lambda>_. (True, Inr (stream_of []))" "stream_of []" "manager_new :: nat manager" "''a''" "Some ''p''"
      sample_web_request, unfolded q sum.case]
  have "http_proxy sample_ack (table_codec []) (table_codec []) sample_url_lib (\<lambda>_. (True, Inr (stream_of []))) (stream_of [])
      (manager_new :: nat manager) ''a'' (Some ''p'') sample_web_request = Proxy_Err 502 (ErrorCode NODE_ALREADY_EXIT)"
    using mgr.get_new by (elim conjE) (erule mp)
  with q show ?thesis by (rule conjI)
qed

end
