(* ===== verification/Crab_Service.thy ===== *)
theory Crab_Service
  imports Crab_Fleet Crab_Api
begin

text \<open>
  The program as its HTTP clients see it: the handlers of
  \<^verbatim>\<open>src/src/app/workers/ctrl/ctrl.rs\<close> on the table that the endpoint of
  \<^verbatim>\<open>src/src/crab/endpoint.rs\<close> keeps, and the command they cause on the node.
\<close>

section \<open>What a request finds\<close>

text \<open>The connection a node id stands for.\<close>

definition live_as :: "fleet \<Rightarrow> string \<Rightarrow> nat \<Rightarrow> handshake \<Rightarrow> bool" where
  "live_as s k i info \<longleftrightarrow> (\<exists>meta. entered (ft_stage s i) = Some (meta, info) \<and> nm_node_id meta = k)"

lemma table_exact:
  assumes "fleet_reach local_id host ids_apart s"
  shows "manager_get (ft_table s) k = Some (i, info) \<longleftrightarrow> live_as s k i info"
  using fleet_entry[OF assms] fleet_reach_found[OF assms] unfolding live_as_def entered_found_def by blast



section \<open>Properties\<close>


lemma sample_live_as: "\<exists>s. fleet_reach ''b'' sample_host ids_apart s \<and> live_as s ''a'' 0 sample_info"
proof -
  obtain s where s: "fleet_reach ''b'' sample_host ids_apart s" "one_admitted s" using sample_apart by blast
  then have "ft_stage s 0 = St_admitted (sample_meta True) sample_info" by (simp add: one_admitted_def)
  then have "live_as s ''a'' 0 sample_info" by (simp add: live_as_def sample_meta_def)
  with s(1) show ?thesis by blast
qed


text \<open>
  C17: a directory is listed over HTTP as it is on the node.  A request about a live connection
  whose stream stays up is answered with exactly the entries the node found, in their order, or
  with the number of the error the node met, and the node's files are as they were.
\<close>

theorem api_listing:
  assumes "fleet_reach local_id host ids_apart s" "live_as s k i info"
    and "codec_ok (sv_ack sv)" "codec_ok (sv_entries sv)" "codec_ok cc"
    and "framed cc Method_Command OPTION_NONE (Command_ListDir p) b"
    and "framed (sv_ack sv) Method_Command OPTION_NONE ack_success a"
    and "list_dir (sv_drives sv) p (w_fs w) = (outcome, f)"
    and "case outcome of
           Inr es \<Rightarrow> framed (sv_entries sv) Method_Command OPTION_NONE es d
         | Inl e \<Rightarrow> framed (sv_ack sv) Method_Command (OPTION_NONE OR OPTION_ERROR) (ack_from_error e) d"
    and "rx w = b" "tx w = []" "tx_cap w = None"
    and "dial i = (True, Inr c)" "tx_cap c = None" "rx c = tx (snd (serve_stream sv cc st meta w))"
  shows "w_fs (snd (serve_stream sv cc st meta w)) = w_fs w \<and>
    node_list_dir (sv_ack sv) cc (sv_entries sv) dial (ft_table s) k p =
      ret_from_result (map_sum (\<lambda>e. ErrorCode (err_no e)) id outcome)"
proof -
  from read_dir_exact[OF assms(3-9) _ assms(11,12), of "[]" st meta] assms(10) obtain w' where
    "serve_stream sv cc st meta w = (Inr (), w')" "w_fs w' = w_fs w"
    "\<forall>s. tx_cap s = None \<and> rx s = tx w' \<longrightarrow>
       client_read_dir (sv_ack sv) cc (sv_entries sv) True (Inr (s :: stream)) p =
         map_sum (\<lambda>e. ErrorCode (err_no e)) id outcome"
    by auto
  moreover have "manager_get (ft_table s) k = Some (i, info)"
    using table_exact[OF assms(1)] assms(2) by blast
  ultimately show ?thesis
    using assms(13-15) by (auto simp: node_list_dir_def ret_from_result_def split: sum.splits)
qed

theorem api_listing_witness:
  "\<exists>s c. fleet_reach ''b'' sample_host ids_apart s \<and>
    node_list_dir sample_ack (table_codec [(Command_ListDir ''/b'', [9])])
      (table_codec [([\<lparr>de_name = ''a'', de_dir = False\<rparr>], [4])]) (\<lambda>_. (True, Inr c)) (ft_table s) ''a'' ''/b'' =
    ret_from [\<lparr>de_name = ''a'', de_dir = False\<rparr>]"
proof -
  let ?cc = "table_codec [(Command_ListDir ''/b'', [9])]"
  let ?ec = "table_codec [([\<lparr>de_name = ''a'', de_dir = False\<rparr>], [4])]"
  let ?sv = "sample_services sample_ack (table_codec []) ?ec"
  let ?w = "world_of (small_frame Method_Command OPTION_NONE 9) sample_fs"
  let ?c = "stream_of (tx (snd (serve_stream ?sv ?cc sample_stops sample_caller ?w)))"
  obtain s where s: "fleet_reach ''b'' sample_host ids_apart s" "live_as s ''a'' 0 sample_info"
    using sample_live_as by blast
  have ls: "list_dir (sv_drives ?sv) ''/b'' (w_fs ?w) = (Inr [\<lparr>de_name = ''a'', de_dir = False\<rparr>], sample_fs)"
    by (simp add: list_dir_def read_dir_def sample_fs_def)
  have c: "tx_cap (stream_of bs) = None" "rx (stream_of bs) = bs" for bs
    by (simp_all add: stream_of_def)
  have "node_list_dir (sv_ack ?sv) ?cc (sv_entries ?sv) (\<lambda>_. (True, Inr ?c)) (ft_table s) ''a'' ''/b'' =
      ret_from_result (map_sum (\<lambda>e. ErrorCode (err_no e)) id (Inr [\<lparr>de_name = ''a'', de_dir = False\<rparr>]))"
    by (rule api_listing[where a = ack_frame and d = "small_frame Method_Command OPTION_NONE 4" and
        st = sample_stops and meta = sample_caller, OF s _ _ single_codec_ok single_framed _ ls, THEN conjunct2])
      (rule c | simp add: sample_ack_facts sample_ack_framed single_codec_ok single_framed)+
  with s(1) show ?thesis by (auto simp: ret_from_result_def)
qed

text \<open>
  C23: a deletion over HTTP is reported as done whatever became of it.  On a connection that stays
  up, the node that serves the
  command removes what it was asked to remove, or fails to, acknowledges the command and
  sends the outcome behind it; the interface has sent this command, reads the
  acknowledgement, leaves the outcome unread and answers success in either case.
\<close>

theorem api_delete_unchecked:
  fixes w :: "'z world_scheme" and c :: stream
  assumes "codec_ok (sv_ack sv)" "codec_ok cc"
    and "framed cc Method_Command OPTION_NONE (Command_Delete \<lparr>dc_path = p, dc_dir = dir\<rparr>) b"
    and "framed (sv_ack sv) Method_Command OPTION_NONE ack_success k"
    and "(if dir then remove_dir_all (components p) else remove_file (components p)) (w_fs w) = (outcome, f)"
    and "framed (sv_ack sv) Method_Command OPTION_NONE (ack_from_result outcome) d"
    and "tx w = []" "tx_cap w = None"
    and "manager_get m node_id = Some (h, info)" "dial h = (True, Inr c)" "tx c = []" "tx_cap c = None"
    and "async_job_execute (sv_ack sv) cc (Command_Delete \<lparr>dc_path = p, dc_dir = dir\<rparr>) (\<lambda>_. ret ()) None (c, Os_open) =
      (r, c', chan)"
    and "serve_stream sv cc st meta w = (r', w')"
    and "rx w = tx c'" "rx c = tx w'"
  shows "r' = Inr () \<and> w_fs w' = f \<and> tx w' = k @ d \<and>
    r = Inr () \<and> tx c' = b \<and> rx c' = d \<and> chan = Os_value (Inr ()) \<and>
    node_remove_dir (sv_ack sv) cc dial m node_id p dir = ret_from ()"
proof -
  note w = write_message_up[OF assms(3,12), unfolded assms(11) append_Nil]
  have silent: "tx t = tx s" if "read_ack (sv_ack sv) s = (x, t)" for s t :: stream and x
    using that by (auto simp: read_ack_def andthen_def dest!: read_message_tx split: prod.splits sum.splits)
  from assms(13) have "tx c' = b"
    by (auto simp: async_job_execute_def andthen_def attempt_def w dest!: silent split: prod.splits sum.splits)
  note sent = this
  with assms(15) have "rx w = b @ []" by simp
  from serve_delete[OF assms(1-6) this assms(7,8), of st meta] assms(14)
  have node: "r' = Inr ()" "w_fs w' = f" "tx w' = k @ d" by auto
  with assms(16) have "rx c = k @ d" by simp
  then have "read_ack (sv_ack sv) (c\<lparr>tx := b\<rparr>) = (Inr (), c\<lparr>rx := d, tx := b\<rparr>)"
    using read_ack_ok[OF assms(1,4) option_none_ok, of "c\<lparr>tx := b\<rparr>" d] by simp
  then have run: "async_job_execute (sv_ack sv) cc (Command_Delete \<lparr>dc_path = p, dc_dir = dir\<rparr>) (\<lambda>_. ret ()) None (c, Os_open) =
      (Inr (), c\<lparr>rx := d, tx := b\<rparr>, Os_value (Inr ()))"
    by (simp add: async_job_execute_def andthen_def attempt_def w)
  have "node_remove_dir (sv_ack sv) cc dial m node_id p dir = ret_from ()"
    by (simp add: node_remove_dir_def assms(9,10) client_delete_def handle_exec_def await_answer_def run ret_from_result_def)
  with node sent run assms(13) show ?thesis by auto
qed

theorem api_delete_unchecked_witness:
  "\<exists>w'. serve_stream (sample_services sample_ack3 (table_codec []) (table_codec []))
        (table_codec [(Command_Delete \<lparr>dc_path = ''/b'', dc_dir = False\<rparr>, [9])]) sample_stops sample_caller
        (world_of (small_frame Method_Command OPTION_NONE 9) sample_fs) = (Inr (), w') \<and> w_fs w' = sample_fs \<and>
    node_remove_dir sample_ack3 (table_codec [(Command_Delete \<lparr>dc_path = ''/b'', dc_dir = False\<rparr>, [9])])
      (\<lambda>_. (True, Inr (stream_of (tx w')))) sample_table ''a'' ''/b'' False = ret_from ()"
proof -
  let ?cc = "table_codec [(Command_Delete \<lparr>dc_path = ''/b'', dc_dir = False\<rparr>, [9])]"
  let ?sv = "sample_services sample_ack3 (table_codec []) (table_codec [])"
  let ?b = "small_frame Method_Command OPTION_NONE 9" and ?k = "small_frame Method_Command OPTION_NONE 0"
  let ?d = "small_frame Method_Command OPTION_NONE 3"
  let ?w = "world_of ?b sample_fs"
  let ?c = "stream_of (?k @ ?d)"
  have rm: "(if False then remove_dir_all (components ''/b'') else remove_file (components ''/b'')) (w_fs ?w) =
      (Inl (IO ''os error''), sample_fs)"
    by (simp add: remove_file_def fs_guard_def fs_fail_def stat_def sample_fs_def)
  have ac: "codec_ok (sv_ack ?sv)" "framed (sv_ack ?sv) Method_Command OPTION_NONE ack_success ?k"
    "framed (sv_ack ?sv) Method_Command OPTION_NONE (ack_from_result (Inl (IO ''os error''))) ?d"
    by (simp_all add: sample_ack3_facts)
  have w: "serve_stream ?sv ?cc sample_stops sample_caller ?w = (Inr (), ?w\<lparr>rx := [], w_fs := sample_fs, tx := ?k @ ?d\<rparr>)"
    by (rule serve_delete[OF ac(1) single_codec_ok single_framed ac(2) rm ac(3)]) simp_all
  have up: "tx ?c = []" "tx_cap ?c = None" "rx ?c = ?k @ ?d" by (simp_all add: stream_of_def)
  have "write_message ?cc Method_Command OPTION_NONE (Command_Delete \<lparr>dc_path = ''/b'', dc_dir = False\<rparr>) ?c =
      (Inr (), ?c\<lparr>tx := ?b\<rparr>)"
    using write_message_up[OF single_framed up(2)] up(1) by simp
  moreover have "read_ack sample_ack3 (?c\<lparr>tx := ?b\<rparr>) = (Inr (), ?c\<lparr>rx := ?d, tx := ?b\<rparr>)"
    using read_ack_ok[OF sample_ack3_facts(1) sample_ack3_facts(2)[of Method_Command OPTION_NONE] option_none_ok, of "?c\<lparr>tx := ?b\<rparr>" ?d] up(3) by simp
  ultimately have c: "async_job_execute (sv_ack ?sv) ?cc (Command_Delete \<lparr>dc_path = ''/b'', dc_dir = False\<rparr>) (\<lambda>_. ret ()) None
      (?c, Os_open) = (Inr (), ?c\<lparr>rx := ?d, tx := ?b\<rparr>, Os_value (Inr ()))"
    by (simp add: async_job_execute_def andthen_def attempt_def)
  have "manager_get sample_table ''a'' = Some (7, handshake_new sample_host ''a'')" by (simp add: mgr.get_ins)
  from api_delete_unchecked[OF ac(1) single_codec_ok single_framed ac(2) rm ac(3) _ _ this _ up(1,2) c w,
      where dial = "\<lambda>_. (True, Inr ?c)"] up(3) w
  show ?thesis by (intro exI[of _ "?w\<lparr>rx := [], w_fs := sample_fs, tx := ?k @ ?d\<rparr>"]) simp
qed

end
