(* ===== verification/Crab_Meet.thy ===== *)
theory Crab_Meet
  imports Crab_Service
begin

text \<open>
  Two nodes of the program meet: the handshake of \<^verbatim>\<open>src/src/crab/proto/hook_wrapper.rs\<close> under the
  application's protocol (\<^verbatim>\<open>src/src/app/protocol/proto.rs\<close>) on both ends, the connection tasks of
  \<^verbatim>\<open>src/src/crab/endpoint.rs\<close> that enter the peer in the table, and what the HTTP interface
  of each then knows of the other.
\<close>

text \<open>The task of a connection as the endpoint runs it: the side decides which handshake it is.\<close>

definition admit ::
  "ack_message codec \<Rightarrow> handshake codec \<Rightarrow> string \<Rightarrow> host_info \<Rightarrow> bool \<Rightarrow> wait \<Rightarrow> socket_addr
    \<Rightarrow> crab_error + 'z stream_scheme \<Rightarrow> 'h \<Rightarrow> unit oneshot option \<Rightarrow> 'h manager
    \<Rightarrow> (crab_error + node_metadata \<times> node) \<times> unit oneshot option \<times> 'h manager" where
  "admit ac hc local_id host as_client w addr opened h notify m =
    connection_task (Inr ()) w
      (endpoint_handshake as_client
        (fst (hook_handshake_as_client ac hc (app_protocol local_id host m) addr opened))
        (fst (hook_handshake ac hc (app_protocol local_id host m) addr opened))) h notify m"

lemma admitted_entry:
  "connection_task (Inr ()) Wt_ready (Inr (meta, info)) h notify m =
    (Inr (meta, node_new), notify, manager_insert m (nm_node_id meta) h info)"
  by (simp add: connection_defs)

lemma info_after_insert:
  "node_info (manager_insert m k h info) k' = (if k' = k then ret_from info else node_info m k')"
  by (simp add: node_info_def manager_get_insert)

lemma info_after_exit:
  "node_info (snd (node_task served meta notify m)) k =
    (if k = nm_node_id meta then ret_error (ErrorCode NODE_ALREADY_EXIT) else node_info m k)"
  by (simp add: node_info_def node_task_def app_on_node_exited_def mgr.get_del)

lemma handshake_id [simp]: "hs_device_id (handshake_new host k) = k"
  by (simp add: handshake_new_def)

text \<open>Who is in the table is turned away, and the table stays as it is.\<close>

lemma known_refused:
  assumes "codec_ok hc" "framed hc Method_Handshake 0 (handshake_new host_c id_c) b" "manager_exists m id_c" "rx s = b"
  shows "(\<exists>e. fst (admit ac hc local_id host False w addr (Inr s) h notify m) = Inl e) \<and>
    snd (snd (admit ac hc local_id host False w addr (Inr s) h notify m)) = m"
proof -
  have ok: "(0 :: u8) AND OPTION_ERROR \<noteq> OPTION_ERROR" by (simp add: OPTION_ERROR_def)
  have "\<exists>e. fst (hook_handshake ac hc (app_protocol local_id host m) addr (Inr s)) = Inl e"
    using assms(3)
    by (auto simp: hook_handshake_def with_stream_def handshake_session_def andthen_def app_on_handshake_def
        read_message_ok[OF assms(1,2) ok, where rest = "[]"] assms(4) split: prod.splits sum.splits)
  then show ?thesis
    by (cases w) (auto simp: admit_def endpoint_handshake_def connection_defs)
qed

text \<open>
  The connecting side writes its handshake before it reads anything, whatever it then reads.
\<close>

lemma client_speaks_first:
  assumes "hook_handshake_as_client ac hc p addr (Inr c) = (x, Some c')" "p_make_handshake p = Inr m"
    and "framed hc Method_Handshake 0 m b" "tx_cap c = None"
  shows "tx c' = tx c @ b"
  using assms(1,2,4)
  by (auto simp: hook_handshake_as_client_def with_stream_def client_session_def andthen_def
      write_message_up[OF assms(3)] dest!: read_message_tx split: prod.splits sum.splits)

section \<open>Properties\<close>

text \<open>
  C10: two nodes that meet know each other.  Take the two ends of a stream that stays up: what the
  handshake of each side reads is what the handshake of the other writes, and nothing else is
  assumed of it.  If the accepting side does not have the peer in its table, then the
  connecting side has written its own handshake and the accepting side its own; both
  connection tasks succeed with complementary roles;
  from then on the HTTP interface of each answers a request about the other with the other's
  handshake, and requests about every third node as before; a second connection under the same
  id is refused by the accepting side and changes nothing; and once the node is over, the
  interface says so, of this node and of no other.
\<close>

theorem nodes_meet:
  assumes "codec_ok hc" "framed hc Method_Handshake 0 (handshake_new host_c id_c) b1"
    and "framed hc Method_Handshake 0 (handshake_new host_s id_s) b2"
    and "\<not> manager_exists ms id_c"
    and "tx_cap c = None" "tx_cap s = None" "tx c = []" "tx s = []"
    and "hook_handshake_as_client ac hc (app_protocol id_c host_c mc) sa (Inr c) = (xc, Some c')"
    and "hook_handshake ac hc (app_protocol id_s host_s ms) ca (Inr s) = (xs, Some s')"
    and "rx s = tx c'" "rx c = tx s'"
    and "admit ac hc id_s host_s False Wt_ready ca (Inr s) hs ns ms = (rs, ns', ms')"
    and "admit ac hc id_c host_c True Wt_ready sa (Inr c) h nc mc = (rc, nc', mc')"
  shows "tx c' = b1 \<and> tx s' = b2 \<and> rx c' = [] \<and> rx s' = [] \<and>
    rs = Inr (\<lparr>nm_node_id = id_c, nm_remote_addr = ca, nm_as_client = True\<rparr>, node_new) \<and>
    rc = Inr (\<lparr>nm_node_id = id_s, nm_remote_addr = sa, nm_as_client = False\<rparr>, node_new) \<and>
    (\<forall>k. node_info ms' k = (if k = id_c then ret_from (handshake_new host_c id_c) else node_info ms k)) \<and>
    (\<forall>k. node_info mc' k = (if k = id_s then ret_from (handshake_new host_s id_s) else node_info mc k)) \<and>
    (\<forall>served k. node_info (snd (node_task served \<lparr>nm_node_id = id_c, nm_remote_addr = ca, nm_as_client = True\<rparr> ns' ms')) k =
      (if k = id_c then ret_error (ErrorCode NODE_ALREADY_EXIT) else node_info ms k)) \<and>
    (\<forall>w addr s2 h2 n2. rx s2 = b1 \<longrightarrow>
      (\<exists>e. fst (admit ac hc id_s host_s False w addr (Inr (s2 :: stream)) h2 n2 ms') = Inl e) \<and>
      snd (snd (admit ac hc id_s host_s False w addr (Inr s2) h2 n2 ms')) = ms')"
proof -
  have take: "p_on_handshake (app_protocol id_s host_s ms)
      \<lparr>nm_node_id = p_node_id (app_protocol id_s host_s ms) (handshake_new host_c id_c), nm_remote_addr = ca, nm_as_client = True\<rparr>
      (handshake_new host_c id_c) = Inr (handshake_new host_s id_s)"
    and make: "p_make_handshake (app_protocol id_c host_c mc) = Inr (handshake_new host_c id_c)"
    using assms(4) by (simp_all add: app_on_handshake_def app_make_handshake_def)
  have ok: "(0 :: u8) AND OPTION_ERROR \<noteq> OPTION_ERROR" by (simp add: OPTION_ERROR_def)
  have c': "tx c' = b1" using client_speaks_first[OF assms(9) make assms(2,5)] assms(7) by simp
  with assms(11) have s: "rx s = b1 @ []" by simp
  from assms(10) handshake_session_ok[OF assms(1,2) ok take assms(3) s assms(6)] assms(8)
  have s': "tx s' = b2" "rx s' = []" by (auto simp: hook_handshake_def with_stream_def)
  with assms(12) have c: "rx c = b2 @ []" by simp
  from handshake_agreement[OF assms(1-3) make take c assms(5) s assms(6), of ac sa]
  have out: "hook_handshake_as_client ac hc (app_protocol id_c host_c mc) sa (Inr c) =
      (Inr (\<lparr>nm_node_id = id_s, nm_remote_addr = sa, nm_as_client = False\<rparr>, handshake_new host_s id_s),
       Some (c\<lparr>rx := [], tx := tx c @ b1\<rparr>))"
    "fst (hook_handshake ac hc (app_protocol id_s host_s ms) ca (Inr s)) =
      Inr (\<lparr>nm_node_id = id_c, nm_remote_addr = ca, nm_as_client = True\<rparr>, handshake_new host_c id_c)"
    by simp_all
  then have run: "rs = Inr (\<lparr>nm_node_id = id_c, nm_remote_addr = ca, nm_as_client = True\<rparr>, node_new)"
    "rc = Inr (\<lparr>nm_node_id = id_s, nm_remote_addr = sa, nm_as_client = False\<rparr>, node_new)"
    "ms' = manager_insert ms id_c hs (handshake_new host_c id_c)" "mc' = manager_insert mc id_s h (handshake_new host_s id_s)"
    using assms(13,14) by (simp_all add: admit_def endpoint_handshake_def admitted_entry)
  have "manager_exists ms' id_c" unfolding run(3) by (simp add: manager_exists_def manager_insert_def)
  then have "\<forall>w addr s2 h2 n2. rx s2 = b1 \<longrightarrow>
      (\<exists>e. fst (admit ac hc id_s host_s False w addr (Inr (s2 :: stream)) h2 n2 ms') = Inl e) \<and>
      snd (snd (admit ac hc id_s host_s False w addr (Inr s2) h2 n2 ms')) = ms'"
    by (intro allI impI) (rule known_refused[OF assms(1,2)])
  moreover have "rx c' = []" using assms(9) out(1) by auto
  ultimately show ?thesis
    by (intro conjI run(1,2) c' s') (simp_all add: run(3,4) info_after_insert info_after_exit)
qed

definition meet_codec :: "handshake codec" where
  "meet_codec = table_codec [(handshake_new sample_host ''a'', [1]), (handshake_new sample_host ''b'', [2])]"

lemma meet_codec_facts:
  "codec_ok meet_codec"
  "framed meet_codec Method_Handshake 0 (handshake_new sample_host ''a'') (small_frame Method_Handshake 0 1)"
  "framed meet_codec Method_Handshake 0 (handshake_new sample_host ''b'') (small_frame Method_Handshake 0 2)"
  unfolding meet_codec_def
  by (rule table_codec_ok, simp add: handshake_new_def) (rule small_framed, simp add: table_codec_def handshake_new_def)+

theorem nodes_meet_witness:
  "case admit sample_ack meet_codec ''b'' sample_host False Wt_ready sample_addr
      (Inr (stream_of (small_frame Method_Handshake 0 1))) (5 :: nat) None manager_new of
     (rs, _, ms') \<Rightarrow> rs = Inr (sample_meta True, node_new) \<and>
       node_info ms' ''a'' = ret_from (handshake_new sample_host ''a'') \<and>
       node_info ms' ''c'' = ret_error (ErrorCode NODE_ALREADY_EXIT)"
proof -
  obtain rs ns ms' where s: "admit sample_ack meet_codec ''b'' sample_host False Wt_ready sample_addr
      (Inr (stream_of (small_frame Method_Handshake 0 1))) (5 :: nat) None manager_new = (rs, ns, ms')"
    by (rule prod_cases3)
  obtain rc nc mc' where c: "admit sample_ack meet_codec ''a'' sample_host True Wt_ready sample_addr
      (Inr (stream_of (small_frame Method_Handshake 0 2))) (6 :: nat) None manager_new = (rc, nc, mc')"
    by (rule prod_cases3)
  let ?b1 = "small_frame Method_Handshake 0 1" and ?b2 = "small_frame Method_Handshake 0 2"
  have up: "tx_cap (stream_of bs) = None" "tx (stream_of bs) = []" for bs by (simp_all add: stream_of_def)
  have new: "\<not> manager_exists (manager_new :: nat manager) k" for k by (simp add: mgr.has_new)
  have run: "hook_handshake_as_client sample_ack meet_codec (app_protocol ''a'' sample_host (manager_new :: nat manager)) sample_addr
        (Inr (stream_of ?b2)) = (Inr (\<lparr>nm_node_id = ''b'', nm_remote_addr = sample_addr, nm_as_client = False\<rparr>,
          handshake_new sample_host ''b''), Some ((stream_of ?b2)\<lparr>rx := [], tx := ?b1\<rparr>)) \<and>
      hook_handshake sample_ack meet_codec (app_protocol ''b'' sample_host (manager_new :: nat manager)) sample_addr
        (Inr (stream_of ?b1)) = (Inr (\<lparr>nm_node_id = ''a'', nm_remote_addr = sample_addr, nm_as_client = True\<rparr>,
          handshake_new sample_host ''a''), Some ((stream_of ?b1)\<lparr>rx := [], tx := ?b2\<rparr>))"
    using handshake_agreement[OF meet_codec_facts, of "app_protocol ''a'' sample_host (manager_new :: nat manager)"
        "app_protocol ''b'' sample_host (manager_new :: nat manager)" sample_addr "stream_of ?b2" "[]" "stream_of ?b1" "[]"
        sample_ack sample_addr] new up
    by (simp add: app_on_handshake_def app_make_handshake_def stream_of_def)
  have meets: "rx (stream_of ?b1) = tx ((stream_of ?b2)\<lparr>rx := [], tx := ?b1\<rparr>)"
    "rx (stream_of ?b2) = tx ((stream_of ?b1)\<lparr>rx := [], tx := ?b2\<rparr>)" by (simp_all add: stream_of_def)
  note met = nodes_meet[OF meet_codec_facts new up(1,1,2,2) run[THEN conjunct1] run[THEN conjunct2] meets s c]
  have "rs = Inr (sample_meta True, node_new)"
    using met[THEN conjunct2, THEN conjunct2, THEN conjunct2, THEN conjunct2, THEN conjunct1] by (simp add: sample_meta_def)
  moreover have "node_info ms' k = (if k = ''a'' then ret_from (handshake_new sample_host ''a'')
      else node_info (manager_new :: nat manager) k)" for k
    using met[THEN conjunct2, THEN conjunct2, THEN conjunct2, THEN conjunct2, THEN conjunct2, THEN conjunct2, THEN conjunct1] by blast
  ultimately show ?thesis using s by (simp add: node_info_def mgr.get_new)
qed

end
