(* ===== verification/Crab_Datagrams.thy ===== *)
theory Crab_Datagrams
  imports Crab_Packet
begin

text \<open>
  The boundaries of the datagrams that \<^verbatim>\<open>src/src/app/protocol/forwarder/udp.rs\<close> and
  \<^verbatim>\<open>udp_util.rs\<close> write to a stream.  The specification is \<open>split_packets\<close>: to take a length
  field, as \<open>read_packet\<close> reads it, and that many bytes, over and over.
\<close>

function split_packets :: "bytes \<Rightarrow> bytes list" where
  "split_packets bs =
    (case of_be16 bs of
       None \<Rightarrow> []
     | Some (flag, r) \<Rightarrow>
         (let n = unat (flag AND PACKET_LEN_MASK) in
          if n \<le> length r then take n r # split_packets (drop n r) else []))"
  by pat_completeness auto
termination
  by (relation "measure length") (auto dest: be16.dec_length)

declare split_packets.simps [simp del]

lemma len_mask_mod: "unat (word_of_nat n AND PACKET_LEN_MASK :: u16) = n mod 2 ^ 15"
proof -
  have "(word_of_nat n AND PACKET_LEN_MASK :: u16) = take_bit 15 (word_of_nat n)"
    by (simp add: PACKET_LEN_MASK_def OVER_PACKET_TAG_def take_bit_eq_mask mask_eq_exp_minus_1)
  then have "unat (word_of_nat n AND PACKET_LEN_MASK :: u16) = take_bit 15 (n mod 2 ^ 16)"
    by (simp only: unsigned_take_bit_eq unat_of_nat) simp
  then show ?thesis by (simp add: take_bit_eq_mod mod_mod_cancel)
qed

lemma split_packets_step:
  "split_packets (be16 (word_of_nat n) @ r) =
    (if n mod 2 ^ 15 \<le> length r then take (n mod 2 ^ 15) r # split_packets (drop (n mod 2 ^ 15) r) else [])"
  by (subst split_packets.simps) (simp add: wire_simps len_mask_mod Let_def)

lemma split_packets_Nil [simp]: "split_packets [] = []"
  by (simp add: split_packets.simps)

text \<open>What is written for a datagram after the length field.\<close>

definition datagram_body :: "bytes \<Rightarrow> socket_addr \<Rightarrow> bytes" where
  "datagram_body buf a = write_packet_header (packet_of_addr a) @ buf"

lemma packet_bytes_body: "packet_bytes buf a = be16 (word_of_nat (length (datagram_body buf a))) @ datagram_body buf a"
  by (simp add: packet_bytes_def datagram_body_def Let_def)

lemma split_packet:
  assumes "length (datagram_body buf a) < 2 ^ 15"
  shows "split_packets (packet_bytes buf a @ rest) = datagram_body buf a # split_packets rest"
  unfolding packet_bytes_body append_assoc split_packets_step using assms by simp

lemma split_overlong:
  assumes "2 ^ 15 \<le> length (datagram_body buf a)"
  shows "split_packets (packet_bytes buf a) \<noteq> [datagram_body buf a]"
proof
  let ?d = "datagram_body buf a"
  assume "split_packets (packet_bytes buf a) = [?d]"
  then have "take (length ?d mod 2 ^ 15) ?d = ?d"
    using split_packets_step[of "length ?d" ?d] by (simp add: packet_bytes_body split: if_splits)
  then have "length ?d \<le> length ?d mod 2 ^ 15" by (metis length_take min.cobounded2)
  moreover have "length ?d mod 2 ^ 15 < 2 ^ 15" by simp
  ultimately show False using assms by linarith
qed

lemma body_bound:
  assumes "wf_addr a"
  shows "length (datagram_body (take UDP_FORWARD_MTU d) a) \<le> UDP_FORWARD_MTU + 21"
  using packet_header_length[OF assms] by (auto simp: datagram_body_def)

lemma split_written:
  "list_all (\<lambda>(a, _). wf_addr a) ds \<Longrightarrow>
    split_packets (concat (map (\<lambda>(a, d). packet_bytes (take UDP_FORWARD_MTU d) a) ds)) =
      map (\<lambda>(a, d). datagram_body (take UDP_FORWARD_MTU d) a) ds"
proof (induction ds)
  case (Cons x ds)
  obtain a d where x: "x = (a, d)" by (cases x)
  with Cons.prems body_bound[of a d] have "length (datagram_body (take UDP_FORWARD_MTU d) a) < 2 ^ 15"
    by (simp add: UDP_FORWARD_MTU_def)
  from split_packet[OF this] Cons x show ?case by simp
qed simp

section \<open>Properties\<close>

text \<open>
  C39: the boundaries of datagrams survive the tunnel.  Of the datagrams a socket delivers, the relay
  writes each as one packet with its header and at most the MTU of its bytes, so that a reader
  that follows the length fields gets exactly these packets, in their order, none of which is longer than
  the MTU and 21 bytes of header.  The length field can do this for every packet of less than
  32768 bytes and for no longer one, whose field would name fewer bytes than follow.
\<close>

theorem datagrams_delimited:
  assumes "udp_copy_back lookup (map Inr ds) s = (r, s')" "tx_cap s = None" "list_all (\<lambda>(a, _). wf_addr a) ds"
  shows "r = None \<and>
    (\<exists>out. tx s' = tx s @ out \<and> list_all (\<lambda>p. length p \<le> UDP_FORWARD_MTU + 21) (split_packets out) \<and>
      split_packets out = map (\<lambda>(a, d). write_packet_header (packet_of_addr a) @ take UDP_FORWARD_MTU d) ds) \<and>
    (split_packets (packet_bytes buf addr) = [write_packet_header (packet_of_addr addr) @ buf] \<longleftrightarrow>
      length (write_packet_header (packet_of_addr addr)) + length buf < 2 ^ 15)"
proof (intro conjI)
  note run = udp_copy_back_up[OF assms(2), of lookup ds, unfolded assms(1)]
  from run show "r = None" by simp
  let ?out = "concat (map (\<lambda>(a, d). packet_bytes (take UDP_FORWARD_MTU d) a) ds)"
  have "tx s' = tx s @ ?out" using run by simp
  moreover have "list_all (\<lambda>p. length p \<le> UDP_FORWARD_MTU + 21) (split_packets ?out)"
    using assms(3) body_bound unfolding split_written[OF assms(3)] by (auto simp: list_all_iff)
  moreover have "split_packets ?out = map (\<lambda>(a, d). write_packet_header (packet_of_addr a) @ take UDP_FORWARD_MTU d) ds"
    unfolding split_written[OF assms(3)] datagram_body_def ..
  ultimately show "\<exists>out. tx s' = tx s @ out \<and> list_all (\<lambda>p. length p \<le> UDP_FORWARD_MTU + 21) (split_packets out) \<and>
      split_packets out = map (\<lambda>(a, d). write_packet_header (packet_of_addr a) @ take UDP_FORWARD_MTU d) ds" by blast
  show "split_packets (packet_bytes buf addr) = [write_packet_header (packet_of_addr addr) @ buf] \<longleftrightarrow>
      length (write_packet_header (packet_of_addr addr)) + length buf < 2 ^ 15"
    using split_packet[of buf addr "[]"] split_overlong[of buf addr]
    unfolding datagram_body_def[symmetric] length_append[symmetric] by (cases "length (datagram_body buf addr) < 2 ^ 15") auto
qed

theorem datagrams_delimited_witness:
  "\<exists>r s' out. udp_copy_back (\<lambda>_ _. Inr []) (map Inr [(SocketAddrV4 [10, 0, 0, 1] 53, [7]), (SocketAddrV4 [10, 0, 0, 2] 53, [8, 9])])
      (stream_of []) = (r, s') \<and> tx s' = out \<and>
    split_packets out =
      [write_packet_header (packet_of_addr (SocketAddrV4 [10, 0, 0, 1] 53)) @ [7],
       write_packet_header (packet_of_addr (SocketAddrV4 [10, 0, 0, 2] 53)) @ [8, 9]]"
proof -
  let ?ds = "[(SocketAddrV4 [10, 0, 0, 1] 53, [7 :: u8]), (SocketAddrV4 [10, 0, 0, 2] 53, [8, 9])]"
  obtain r s' where run: "udp_copy_back (\<lambda>_ _. Inr []) (map Inr ?ds) (stream_of []) = (r, s')"
    by (cases "udp_copy_back (\<lambda>_ _. Inr []) (map Inr ?ds) (stream_of [])")
  have "tx_cap (stream_of []) = None" "tx (stream_of []) = []" by (simp_all add: stream_of_def)
  with datagrams_delimited[OF run] show ?thesis
    unfolding run by (auto simp: UDP_FORWARD_MTU_def)
qed

end
