(* ===== verification/Crab_Tls.thy ===== *)
theory Crab_Tls
  imports Crab_Errors
begin

text \<open>
  \<^verbatim>\<open>src/src/crab/utils/crypto.rs\<close>: the TLS configuration, the certificates and keys it names,
  and the configurations of the two sides of a connection that are built from them.

  The libraries are the record \<open>tls_lib\<close>: the certificates of the system, opening a file, the
  items of a PEM file (each may be unreadable), its private key, whether a certificate can be
  added to a store of roots, and the checks of rustls on the verifier of clients and on a
  chain with its key.  A store of roots is the list of the certificates added to it.
\<close>

section \<open>The configuration\<close>

record tls_config =
  tc_use_system_ca :: bool
  tc_ca_path :: "string option"
  tc_priv_key :: string
  tc_cert :: string
  tc_verify_client :: bool

definition DEFAULT_PRIV_KEY :: string where "DEFAULT_PRIV_KEY = ''private.key''"
definition DEFAULT_CERT :: string where "DEFAULT_CERT = ''cert.pem''"
definition DEFAULT_CONFIG_FILENAME :: string where "DEFAULT_CONFIG_FILENAME = ''config.toml''"

definition default_tls :: tls_config where
  "default_tls = \<lparr>tc_use_system_ca = True, tc_ca_path = None, tc_priv_key = DEFAULT_PRIV_KEY,
     tc_cert = DEFAULT_CERT, tc_verify_client = False\<rparr>"

definition load_config_file ::
  "(string \<Rightarrow> ext_error + string) \<Rightarrow> (string \<Rightarrow> ext_error + tls_config) \<Rightarrow> string \<Rightarrow> tls_config" where
  "load_config_file read_to_string from_toml filename =
    (case read_to_string filename of
       Inr content \<Rightarrow> (case from_toml content of Inr cfg \<Rightarrow> cfg | Inl _ \<Rightarrow> default_tls)
     | Inl _ \<Rightarrow> default_tls)"

definition load_default_config_file ::
  "(string \<Rightarrow> ext_error + string) \<Rightarrow> (string \<Rightarrow> ext_error + tls_config) \<Rightarrow> tls_config" where
  "load_default_config_file read_to_string from_toml =
    load_config_file read_to_string from_toml DEFAULT_CONFIG_FILENAME"

section \<open>Certificates and keys\<close>

record ('f, 'cert, 'key) tls_lib =
  tl_native :: "'cert list"
  tl_open :: "string \<Rightarrow> ext_error + 'f"
  tl_certs :: "'f \<Rightarrow> (ext_error + 'cert) list"
  tl_key :: "'f \<Rightarrow> ext_error + 'key option"
  tl_add :: "'cert \<Rightarrow> ext_error option"
  tl_verifier :: "'cert list \<Rightarrow> ext_error option"
  tl_match :: "'cert list \<Rightarrow> 'key \<Rightarrow> ext_error option"

text \<open>\<open>try_for_each\<close> stops at the first failure.\<close>

fun add_roots :: "('f, 'cert, 'key) tls_lib \<Rightarrow> 'cert list \<Rightarrow> 'cert list \<Rightarrow> crab_error + 'cert list" where
  "add_roots lib [] root_ca = Inr root_ca"
| "add_roots lib (cert # certs) root_ca =
    (case tl_add lib cert of
       Some e \<Rightarrow> Inl (TLS e)
     | None \<Rightarrow> add_roots lib certs (root_ca @ [cert]))"

fun add_pem_roots ::
  "('f, 'cert, 'key) tls_lib \<Rightarrow> (ext_error + 'cert) list \<Rightarrow> 'cert list \<Rightarrow> crab_error + 'cert list" where
  "add_pem_roots lib [] root_ca = Inr root_ca"
| "add_pem_roots lib (item # pem_items) root_ca =
    (case item of
       Inl e \<Rightarrow> Inl (IO e)
     | Inr cert \<Rightarrow>
         (case tl_add lib cert of
            Some e \<Rightarrow> Inl (TLS e)
          | None \<Rightarrow> add_pem_roots lib pem_items (root_ca @ [cert])))"

definition load_root_cert :: "('f, 'cert, 'key) tls_lib \<Rightarrow> tls_config \<Rightarrow> crab_error + 'cert list" where
  "load_root_cert lib cfg =
    (case (if tc_use_system_ca cfg then add_roots lib (tl_native lib) [] else Inr []) of
       Inl e \<Rightarrow> Inl e
     | Inr root_ca \<Rightarrow>
         (case tc_ca_path cfg of
            None \<Rightarrow> Inr root_ca
          | Some ca_path \<Rightarrow>
              (case tl_open lib ca_path of
                 Inl e \<Rightarrow> Inl (IO e)
               | Inr file \<Rightarrow> add_pem_roots lib (tl_certs lib file) root_ca)))"

fun collect_certs :: "(ext_error + 'cert) list \<Rightarrow> crab_error + 'cert list" where
  "collect_certs [] = Inr []"
| "collect_certs (Inl e # _) = Inl (IO e)"
| "collect_certs (Inr cert # pem_items) = map_sum id (\<lambda>certs. cert # certs) (collect_certs pem_items)"

definition load_cert :: "('f, 'cert, 'key) tls_lib \<Rightarrow> tls_config \<Rightarrow> crab_error + 'cert list" where
  "load_cert lib cfg =
    (case tl_open lib (tc_cert cfg) of
       Inl e \<Rightarrow> Inl (IO e)
     | Inr file \<Rightarrow> collect_certs (tl_certs lib file))"

definition load_priv_key :: "('f, 'cert, 'key) tls_lib \<Rightarrow> tls_config \<Rightarrow> crab_error + 'key" where
  "load_priv_key lib cfg =
    (case tl_open lib (tc_priv_key cfg) of
       Inl e \<Rightarrow> Inl (IO e)
     | Inr file \<Rightarrow>
         (case tl_key lib file of
            Inl e \<Rightarrow> Inl (IO e)
          | Inr None \<Rightarrow> Inl (ErrorCode KEY_NOT_FOUND)
          | Inr (Some key) \<Rightarrow> Inr key))"

section \<open>The two sides of a connection\<close>

text \<open>\<open>sc_client_roots\<close>: the roots client certificates are verified with, \<open>None\<close> without client authentication.\<close>

record ('cert, 'key) server_config =
  sc_client_roots :: "'cert list option"
  sc_chain :: "'cert list"
  sc_key :: 'key

record ('cert, 'key) client_config =
  cc_roots :: "'cert list"
  cc_auth :: "('cert list \<times> 'key) option"

text \<open>The chain is loaded before the key; rustls then checks the two against each other.\<close>

definition load_identity :: "('f, 'cert, 'key) tls_lib \<Rightarrow> tls_config \<Rightarrow> crab_error + 'cert list \<times> 'key" where
  "load_identity lib cfg =
    (case load_cert lib cfg of
       Inl e \<Rightarrow> Inl e
     | Inr chain \<Rightarrow>
         (case load_priv_key lib cfg of
            Inl e \<Rightarrow> Inl e
          | Inr key \<Rightarrow> (case tl_match lib chain key of Some e \<Rightarrow> Inl (TLS e) | None \<Rightarrow> Inr (chain, key))))"

definition build_server_config ::
  "('f, 'cert, 'key) tls_lib \<Rightarrow> tls_config \<Rightarrow> crab_error + ('cert, 'key) server_config" where
  "build_server_config lib cfg =
    (case (if tc_verify_client cfg
           then (case load_root_cert lib cfg of
                   Inl e \<Rightarrow> Inl e
                 | Inr root_ca \<Rightarrow>
                     (case tl_verifier lib root_ca of Some e \<Rightarrow> Inl (TLSVerifier e) | None \<Rightarrow> Inr (Some root_ca)))
           else Inr None) of
       Inl e \<Rightarrow> Inl e
     | Inr auth \<Rightarrow>
         (case load_identity lib cfg of
            Inl e \<Rightarrow> Inl e
          | Inr (chain, key) \<Rightarrow> Inr \<lparr>sc_client_roots = auth, sc_chain = chain, sc_key = key\<rparr>))"

definition build_client_config ::
  "('f, 'cert, 'key) tls_lib \<Rightarrow> tls_config \<Rightarrow> crab_error + ('cert, 'key) client_config" where
  "build_client_config lib cfg =
    (case load_root_cert lib cfg of
       Inl e \<Rightarrow> Inl e
     | Inr root_ca \<Rightarrow>
         if tc_verify_client cfg
         then (case load_identity lib cfg of
                 Inl e \<Rightarrow> Inl e
               | Inr auth \<Rightarrow> Inr \<lparr>cc_roots = root_ca, cc_auth = Some auth\<rparr>)
         else Inr \<lparr>cc_roots = root_ca, cc_auth = None\<rparr>)"

section \<open>Lemmas\<close>

lemma try_Inr:
  "(case x of Inl e \<Rightarrow> Inl (g e) | Inr a \<Rightarrow> f a) = Inr r \<longleftrightarrow> (\<exists>a. x = Inr a \<and> f a = Inr r)"
  "(case err of Some e \<Rightarrow> Inl (g e) | None \<Rightarrow> y) = Inr r \<longleftrightarrow> err = None \<and> y = Inr r"
  by (auto split: sum.split option.split)

lemma add_roots_Inr:
  "add_roots lib certs root_ca = Inr r \<longleftrightarrow> list_all (\<lambda>c. tl_add lib c = None) certs \<and> r = root_ca @ certs"
  by (induction certs arbitrary: root_ca) (auto simp: try_Inr)

lemma add_pem_roots_Inr:
  "add_pem_roots lib pem_items root_ca = Inr r \<longleftrightarrow>
    (\<exists>certs. pem_items = map Inr certs \<and> list_all (\<lambda>c. tl_add lib c = None) certs \<and> r = root_ca @ certs)"
  by (induction pem_items arbitrary: root_ca) (auto simp: try_Inr Cons_eq_map_conv)

lemma map_sum_Inr: "map_sum id f x = Inr y \<longleftrightarrow> (\<exists>a. x = Inr a \<and> y = f a)"
  by (cases x) auto

lemma collect_certs_Inr: "collect_certs pem_items = Inr certs \<longleftrightarrow> pem_items = map Inr certs"
  by (induction pem_items arbitrary: certs rule: collect_certs.induct)
    (auto simp: map_sum_Inr Cons_eq_map_conv)

text \<open>The roots a configuration names: those of the system, then those of its file.\<close>

definition named_roots :: "('f, 'cert, 'key) tls_lib \<Rightarrow> tls_config \<Rightarrow> 'cert list \<Rightarrow> bool" where
  "named_roots lib cfg roots \<longleftrightarrow>
    (\<exists>extra. roots = (if tc_use_system_ca cfg then tl_native lib else []) @ extra \<and>
       list_all (\<lambda>c. tl_add lib c = None) roots \<and>
       (case tc_ca_path cfg of
          None \<Rightarrow> extra = []
        | Some p \<Rightarrow> (\<exists>file. tl_open lib p = Inr file \<and> tl_certs lib file = map Inr extra)))"

lemma load_root_cert_Inr: "load_root_cert lib cfg = Inr roots \<longleftrightarrow> named_roots lib cfg roots"
  by (cases "tc_ca_path cfg"; cases "tc_use_system_ca cfg")
    (auto simp: load_root_cert_def named_roots_def try_Inr add_roots_Inr add_pem_roots_Inr)

text \<open>The chain and the key a configuration names.\<close>

definition named_identity :: "('f, 'cert, 'key) tls_lib \<Rightarrow> tls_config \<Rightarrow> 'cert list \<times> 'key \<Rightarrow> bool" where
  "named_identity lib cfg = (\<lambda>(chain, key).
    (\<exists>file. tl_open lib (tc_cert cfg) = Inr file \<and> tl_certs lib file = map Inr chain) \<and>
    (\<exists>file. tl_open lib (tc_priv_key cfg) = Inr file \<and> tl_key lib file = Inr (Some key)) \<and>
    tl_match lib chain key = None)"

lemma load_identity_Inr: "load_identity lib cfg = Inr i \<longleftrightarrow> named_identity lib cfg i"
  by (cases i) (auto simp: load_identity_def load_cert_def load_priv_key_def named_identity_def try_Inr
      collect_certs_Inr split: option.split_asm)

section \<open>Properties\<close>

text \<open>
  C32: the two sides of a connection trust and show exactly what the configuration names.  A
  server asks for client certificates exactly if \<open>verify_client\<close> is set, and verifies them
  with the certificates of the system, if they are to be used, and all certificates of the
  configured file, in this order; a client verifies every server with the same roots and
  shows a certificate exactly if \<open>verify_client\<close> is set.  What is shown is the complete chain
  of the certificate file with the key of the key file.  A configuration is built only if
  every one of these certificates can be read and added.
\<close>

theorem tls_configs_exact:
  "(build_server_config lib cfg = Inr sc \<longleftrightarrow>
      named_identity lib cfg (sc_chain sc, sc_key sc) \<and>
      (case sc_client_roots sc of
         None \<Rightarrow> \<not> tc_verify_client cfg
       | Some roots \<Rightarrow> tc_verify_client cfg \<and> named_roots lib cfg roots \<and> tl_verifier lib roots = None)) \<and>
   (build_client_config lib cfg = Inr cc \<longleftrightarrow>
      named_roots lib cfg (cc_roots cc) \<and>
      (case cc_auth cc of
         None \<Rightarrow> \<not> tc_verify_client cfg
       | Some shown \<Rightarrow> tc_verify_client cfg \<and> named_identity lib cfg shown))"
  by (cases sc; cases cc; cases "tc_verify_client cfg")
    (auto simp: build_server_config_def build_client_config_def try_Inr load_root_cert_Inr load_identity_Inr
      split: option.split)

end
