(* ===== verification/Crab_Listener.thy ===== *)
theory Crab_Listener
  imports Crab_Dispatch Crab_Registry Crab_Runit
begin

text \<open>
  \<^verbatim>\<open>src/src/app/protocol/forwarder/tcp_worker.rs\<close>: the call \<open>tcp_forward\<close> of a handle and the
  server of a forwarding rule, which accepts connections and hands each to a worker.

  A server has a channel whose receiver is served by a task of its own (\<open>pool\<close>: the queued
  workers and the receiving loop of \<open>Crab_Runit\<close>) and the accept loop before it.  Its steps
  are events: the token, the accept loop and the pool noticing it, a connection with the
  table as it is then, the pool taking a worker.  The senders live as long as the server,
  so the channel does not end by itself.  \<open>sr_passed\<close> is history: every worker the accept
  loop handed on.  The locale \<open>accept_loop\<close> is what the accept loops promise; it is
  interpreted here and for the SOCKS5 server in \<open>Crab_Socks\<close>.
\<close>

section \<open>The call\<close>

definition client_tcp_forward ::
  "ack_message codec \<Rightarrow> command codec \<Rightarrow> socket_addr codec \<Rightarrow> bool \<Rightarrow> crab_error + 'y link_scheme
    \<Rightarrow> bool \<Rightarrow> (nat \<times> nat) option \<Rightarrow> tcp_forward_params
    \<Rightarrow> (crab_error + unit) \<times> 'y link_scheme option" where
  "client_tcp_forward ac cc sc queued opened taken cutoff param =
    (case two_stage_call ac cc sc queued opened None (Command_TcpForward param)
            (\<lambda>_. hand_over taken (relay_executor cutoff)) of
       (Inl e, t) \<Rightarrow> (Inl e, t)
     | (Inr addr, t) \<Rightarrow> (if taken then Inr () else Inl (ErrorCode CANCELED_ERROR), t))"

section \<open>Pools of workers\<close>

record 'w pool =
  po_queue :: "'w list"
  po_loop :: "'w loop_state"

definition pool_init :: "'w pool" where
  "pool_init = \<lparr>po_queue = [], po_loop = loop_init\<rparr>"

text \<open>\<open>send\<close> fails once the receiver is dropped; a full channel only delays it.\<close>

definition pool_send :: "'w \<Rightarrow> 'w pool \<Rightarrow> bool \<times> 'w pool" where
  "pool_send w p =
    (if ls_open (po_loop p) then (True, p\<lparr>po_queue := po_queue p @ [w]\<rparr>) else (False, p))"

definition pool_take :: "'w pool \<Rightarrow> 'w pool" where
  "pool_take p =
    (case po_queue p of
       [] \<Rightarrow> p
     | w # ws \<Rightarrow>
         if ls_open (po_loop p)
         then \<lparr>po_queue = ws, po_loop = receiver_step (po_loop p) (Le_recv (Some w))\<rparr> else p)"

text \<open>On cancellation the loop drops the receiver, and with it what is queued.\<close>

definition pool_cancel :: "'w pool \<Rightarrow> 'w pool" where
  "pool_cancel p = \<lparr>po_queue = [], po_loop = receiver_step (po_loop p) Le_cancel\<rparr>"

definition pool_join :: "nat \<Rightarrow> 'w pool \<Rightarrow> 'w pool" where
  "pool_join i p = p\<lparr>po_loop := receiver_step (po_loop p) (Le_join i)\<rparr>"

section \<open>Servers\<close>

record 'w server =
  sr_token :: bool
  sr_open :: bool
  sr_passed :: "'w list"
  sr_pool :: "'w pool"

datatype ('h, 'c) server_event =
    Sv_token
  | Sv_cancelled
  | Sv_failed ext_error
  | Sv_conn "'h manager" 'c
  | Sv_take
  | Sv_pool_cancelled
  | Sv_join nat

definition server_init :: "'w server" where
  "server_init = \<lparr>sr_token = False, sr_open = True, sr_passed = [], sr_pool = pool_init\<rparr>"

definition pass_on :: "'w \<Rightarrow> ('w, 'z) server_scheme \<Rightarrow> bool \<times> ('w, 'z) server_scheme" where
  "pass_on w s =
    (case pool_send w (sr_pool s) of
       (True, p) \<Rightarrow> (True, s\<lparr>sr_pool := p, sr_passed := sr_passed s @ [w]\<rparr>)
     | (False, p) \<Rightarrow> (False, s\<lparr>sr_pool := p\<rparr>))"

text \<open>The steps that are not the accept loop's.\<close>

fun pool_event :: "('w, 'z) server_scheme \<Rightarrow> ('h, 'c) server_event \<Rightarrow> ('w, 'z) server_scheme" where
  "pool_event s Sv_token = s\<lparr>sr_token := True\<rparr>"
| "pool_event s Sv_take = s\<lparr>sr_pool := pool_take (sr_pool s)\<rparr>"
| "pool_event s Sv_pool_cancelled = (if sr_token s then s\<lparr>sr_pool := pool_cancel (sr_pool s)\<rparr> else s)"
| "pool_event s (Sv_join i) = s\<lparr>sr_pool := pool_join i (sr_pool s)\<rparr>"
| "pool_event s _ = s"

section \<open>The server of a forwarding rule\<close>

record tcp_forward_option =
  fo_listen :: socket_addr
  fo_target :: string
  fo_params :: tcp_forward_params

text \<open>
  A worker is a connection with the handle of the target and the parameters.  \<open>tune\<close> is the
  setting of the keepalive options on the connection: the error, if it fails.
\<close>

record ('h, 'c) forward_worker =
  fw_handle :: 'h
  fw_params :: tcp_forward_params
  fw_conn :: 'c

definition forwarder_step ::
  "tcp_forward_option \<Rightarrow> (keepalive \<Rightarrow> 'c \<Rightarrow> ext_error option)
    \<Rightarrow> ('h, 'c) forward_worker server \<Rightarrow> ('h, 'c) server_event \<Rightarrow> ('h, 'c) forward_worker server" where
  "forwarder_step opt tune s e =
    (case e of
       Sv_cancelled \<Rightarrow> if sr_open s \<and> sr_token s then s\<lparr>sr_open := False\<rparr> else s
     | Sv_failed _ \<Rightarrow> s
     | Sv_conn m conn \<Rightarrow>
         if \<not> sr_open s then s
         else
           (case manager_get m (fo_target opt) of
              None \<Rightarrow> s
            | Some (h, _) \<Rightarrow>
                (case tune (keepalive_of (fo_params opt)) conn of
                   Some _ \<Rightarrow> s
                 | None \<Rightarrow>
                     (case pass_on \<lparr>fw_handle = h, fw_params = fo_params opt, fw_conn = conn\<rparr> s of
                        (True, s') \<Rightarrow> s'
                      | (False, s') \<Rightarrow> s'\<lparr>sr_open := False\<rparr>)))
     | _ \<Rightarrow> pool_event s e)"

text \<open>The result of the server: that of the task of its pool, once the accept loop is left.\<close>

definition forwarder_result :: "'w server \<Rightarrow> (crab_error + unit) option" where
  "forwarder_result s = (if sr_open s then None else loop_result (po_loop (sr_pool s)))"

definition forwarder_run ::
  "tcp_forward_option \<Rightarrow> (keepalive \<Rightarrow> 'c \<Rightarrow> ext_error option) \<Rightarrow> ('h, 'c) server_event list
    \<Rightarrow> ('h, 'c) forward_worker server" where
  "forwarder_run opt tune es = fold (\<lambda>e s. forwarder_step opt tune s e) es server_init"

text \<open>\<open>serve\<close>: binding comes first; \<open>es\<close> is what happens then.\<close>

definition forwarder_serve ::
  "(socket_addr \<Rightarrow> ext_error option) \<Rightarrow> tcp_forward_option \<Rightarrow> (keepalive \<Rightarrow> 'c \<Rightarrow> ext_error option)
    \<Rightarrow> ('h, 'c) server_event list \<Rightarrow> (crab_error + unit) option" where
  "forwarder_serve bind opt tune es =
    (case bind (fo_listen opt) of
       Some e \<Rightarrow> Some (Inl (IO e))
     | None \<Rightarrow> forwarder_result (forwarder_run opt tune es))"

text \<open>What a worker of the pool does: \<open>dial\<close> is the state of the node behind the handle.\<close>

definition forward_worker_serve ::
  "ack_message codec \<Rightarrow> command codec \<Rightarrow> socket_addr codec
    \<Rightarrow> ('h \<Rightarrow> bool \<times> (crab_error + stream)) \<Rightarrow> bool \<Rightarrow> (nat \<times> nat) option
    \<Rightarrow> ('h, stream) forward_worker \<Rightarrow> (crab_error + unit) \<times> link option" where
  "forward_worker_serve ac cc sc dial taken cutoff w =
    (case dial (fw_handle w) of
       (queued, opened) \<Rightarrow>
         client_tcp_forward ac cc sc queued
           (map_sum id (link_with (fw_conn w)) opened) taken cutoff (fw_params w))"

section \<open>The contract of the accept loops\<close>

text \<open>
  What was handed on and what became of it: while the pool takes workers, each of them has
  been started or is queued, in order; a cancelled pool has dropped those that were queued.
\<close>

definition balanced :: "'w list \<Rightarrow> 'w pool \<Rightarrow> bool" where
  "balanced ws p \<longleftrightarrow>
    (\<exists>rest. ws = ls_spawned (po_loop p) @ po_queue p @ rest \<and> (ls_open (po_loop p) \<longrightarrow> rest = []))"

lemma receiver_closed_spawned:
  "\<not> ls_open l \<Longrightarrow> ls_spawned (receiver_step l e) = ls_spawned l \<and> \<not> ls_open (receiver_step l e)"
  using receiver.spawned_closed receiver.open_mono by blast

lemma balanced_init: "balanced [] pool_init"
  by (simp add: balanced_def pool_init_def loop_init_def)

lemma balanced_send:
  "balanced ws p \<Longrightarrow> pool_send w p = (True, p') \<Longrightarrow> balanced (ws @ [w]) p'"
  by (auto simp: balanced_def pool_send_def split: if_splits)

lemma balanced_take: "balanced ws p \<Longrightarrow> balanced ws (pool_take p)"
  by (auto simp: balanced_def pool_take_def split: list.split)

lemma balanced_cancel: "balanced ws p \<Longrightarrow> balanced ws (pool_cancel p)"
  by (auto simp: balanced_def pool_cancel_def)

lemma balanced_join: "balanced ws p \<Longrightarrow> balanced ws (pool_join i p)"
  by (auto simp: balanced_def pool_join_def)

lemmas balanced_intros = balanced_send balanced_take balanced_cancel balanced_join

lemma pool_open_simps [simp]:
  "ls_open (po_loop (pool_take p)) = ls_open (po_loop p)"
  "ls_open (po_loop (pool_join i p)) = ls_open (po_loop p)"
  "\<not> ls_open (po_loop (pool_cancel p))"
  by (auto simp: pool_take_def pool_join_def pool_cancel_def split: list.split)

locale accept_loop =
  fixes step :: "'s \<Rightarrow> 'e \<Rightarrow> 's"
    and accepting :: "'s \<Rightarrow> bool"
    and passed :: "'s \<Rightarrow> 'w list"
    and pool :: "'s \<Rightarrow> 'w pool"
    and offers :: "'e \<Rightarrow> 'w option"
  assumes accepting_pool: "accepting s \<Longrightarrow> ls_open (po_loop (pool s))"
    and accepting_mono: "accepting (step s e) \<Longrightarrow> accepting s"
    and passed_open: "accepting s \<Longrightarrow> passed (step s e) = passed s @ (case offers e of None \<Rightarrow> [] | Some w \<Rightarrow> [w])"
    and passed_closed: "\<not> accepting s \<Longrightarrow> passed (step s e) = passed s"
    and balanced_step: "balanced (passed s) (pool s) \<Longrightarrow> balanced (passed (step s e)) (pool (step s e))"
begin

definition run :: "'s \<Rightarrow> 'e list \<Rightarrow> 's" where
  "run s es = fold (\<lambda>e s. step s e) es s"

lemma run_simps [simp]:
  "run s [] = s" "run s (e # es) = run (step s e) es" "run s (es @ fs) = run (run s es) fs"
  by (simp_all add: run_def)

lemma stays_closed: "\<not> accepting s \<Longrightarrow> \<not> accepting (run s es) \<and> passed (run s es) = passed s"
proof (induction es arbitrary: s)
  case (Cons e es)
  then have "\<not> accepting (step s e)" using accepting_mono by blast
  with Cons show ?case by (simp add: passed_closed)
qed simp

lemma passed_run:
  "accepting (run s es) \<Longrightarrow> passed (run s es) = passed s @ List.map_filter offers es"
proof (induction es arbitrary: s)
  case (Cons e es)
  from Cons.prems have "accepting s"
    using stays_closed[of s "e # es"] by auto
  with Cons show ?case by (simp add: passed_open List.map_filter_simps split: option.split)
qed (simp add: List.map_filter_simps)

lemma passed_prefix: "\<exists>n. passed (run s es) = passed s @ List.map_filter offers (take n es)"
proof (induction es arbitrary: s)
  case (Cons e es)
  show ?case
  proof (cases "accepting s")
    case True
    from Cons.IH[of "step s e"] obtain n where
      "passed (run (step s e) es) = passed (step s e) @ List.map_filter offers (take n es)" by blast
    with True show ?thesis
      by (intro exI[of _ "Suc n"]) (simp add: passed_open List.map_filter_simps split: option.split)
  next
    case False
    with stays_closed[of s "e # es"] show ?thesis
      by (intro exI[of _ 0]) (simp add: List.map_filter_simps)
  qed
qed (simp add: List.map_filter_simps)

lemma balanced_run:
  "balanced (passed s) (pool s) \<Longrightarrow> balanced (passed (run s es)) (pool (run s es))"
  by (induction es arbitrary: s) (auto dest: balanced_step)

lemma started_or_queued:
  assumes "balanced (passed s) (pool s)" "accepting (run s es)"
  shows "ls_spawned (po_loop (pool (run s es))) @ po_queue (pool (run s es)) =
    passed s @ List.map_filter offers es"
  using balanced_run[OF assms(1), of es] passed_run[OF assms(2)] accepting_pool[OF assms(2)]
  by (simp add: balanced_def)

end

definition server_accepting :: "('w, 'z) server_scheme \<Rightarrow> bool" where
  "server_accepting s \<longleftrightarrow> sr_open s \<and> ls_open (po_loop (sr_pool s))"

text \<open>The worker a connection should become.\<close>

definition forward_offer ::
  "tcp_forward_option \<Rightarrow> (keepalive \<Rightarrow> 'c \<Rightarrow> ext_error option) \<Rightarrow> ('h, 'c) server_event
    \<Rightarrow> ('h, 'c) forward_worker option" where
  "forward_offer opt tune e =
    (case e of
       Sv_conn m conn \<Rightarrow>
         (if tune (keepalive_of (fo_params opt)) conn = None
          then map_option (\<lambda>(h, _). \<lparr>fw_handle = h, fw_params = fo_params opt, fw_conn = conn\<rparr>)
            (manager_get m (fo_target opt)) else None)
     | _ \<Rightarrow> None)"

lemma pass_on_keeps:
  assumes "pass_on w s = (b, s')"
  shows "b = ls_open (po_loop (sr_pool s))" "sr_open s' = sr_open s" "sr_token s' = sr_token s"
    "ls_open (po_loop (sr_pool s')) = ls_open (po_loop (sr_pool s))"
    "sr_passed s' = sr_passed s @ (if b then [w] else [])"
    "balanced (sr_passed s) (sr_pool s) \<Longrightarrow> balanced (sr_passed s') (sr_pool s')"
  using assms by (auto simp: pass_on_def pool_send_def balanced_def split: if_splits)

lemma pool_event_keeps:
  "sr_open (pool_event s e) = sr_open s" "sr_passed (pool_event s e) = sr_passed s"
  "balanced ws (sr_pool s) \<Longrightarrow> balanced ws (sr_pool (pool_event s e))"
  "ls_open (po_loop (sr_pool (pool_event s e))) \<Longrightarrow> ls_open (po_loop (sr_pool s))"
  by (cases e; auto simp: balanced_intros split: if_splits)+

lemma forwarder_step_conn:
  "forwarder_step opt tune s (Sv_conn m c) =
    (case forward_offer opt tune (Sv_conn m c) of
       None \<Rightarrow> s
     | Some w \<Rightarrow>
         if sr_open s then (case pass_on w s of (True, s') \<Rightarrow> s' | (False, s') \<Rightarrow> s'\<lparr>sr_open := False\<rparr>) else s)"
  by (cases "manager_get m (fo_target opt)"; cases "tune (keepalive_of (fo_params opt)) c")
    (simp_all add: forwarder_step_def forward_offer_def split: prod.split)

lemma forwarder_step_other:
  "\<forall>m c. e \<noteq> Sv_conn m c \<Longrightarrow> forward_offer opt tune e = None \<and>
     sr_passed (forwarder_step opt tune s e) = sr_passed s \<and>
     (server_accepting (forwarder_step opt tune s e) \<longrightarrow> server_accepting s) \<and>
     (balanced (sr_passed s) (sr_pool s) \<longrightarrow>
        balanced (sr_passed (forwarder_step opt tune s e)) (sr_pool (forwarder_step opt tune s e)))"
  using pool_event_keeps(1,2,4)[where s = s and e = e]
    pool_event_keeps(3)[where s = s and e = e and ws = "sr_passed s"]
  by (cases e) (auto simp: forwarder_step_def forward_offer_def server_accepting_def)

interpretation forwarder: accept_loop "forwarder_step opt tune" server_accepting sr_passed sr_pool
    "forward_offer opt tune"
  for opt :: tcp_forward_option and tune :: "keepalive \<Rightarrow> 'c \<Rightarrow> ext_error option"
proof unfold_locales
  fix s :: "('h, 'c) forward_worker server" and e :: "('h, 'c) server_event"
  let ?t = "forwarder_step opt tune s e" and ?o = "forward_offer opt tune e"
  show "server_accepting s \<Longrightarrow> ls_open (po_loop (sr_pool s))" by (simp add: server_accepting_def)
  have laws: "(server_accepting ?t \<longrightarrow> server_accepting s) \<and>
      (server_accepting s \<longrightarrow> sr_passed ?t = sr_passed s @ (case ?o of None \<Rightarrow> [] | Some w \<Rightarrow> [w])) \<and>
      (\<not> server_accepting s \<longrightarrow> sr_passed ?t = sr_passed s) \<and>
      (balanced (sr_passed s) (sr_pool s) \<longrightarrow> balanced (sr_passed ?t) (sr_pool ?t))"
  proof (cases "\<exists>m c w. e = Sv_conn m c \<and> ?o = Some w \<and> sr_open s")
    case True
    then obtain m c w where e: "e = Sv_conn m c" "?o = Some w" "sr_open s" by blast
    obtain b s' where p: "pass_on w s = (b, s')" by (cases "pass_on w s")
    with e have "?t = (if b then s' else s'\<lparr>sr_open := False\<rparr>)" by (simp add: forwarder_step_conn)
    with e pass_on_keeps[OF p] show ?thesis by (cases b) (auto simp: server_accepting_def)
  next
    case False
    then show ?thesis
    proof (cases "\<exists>m c. e = Sv_conn m c")
      case True
      with False show ?thesis by (auto simp: forwarder_step_conn server_accepting_def split: option.split)
    next
      case False
      then show ?thesis using forwarder_step_other[of e opt tune s] by auto
    qed
  qed
  then show "server_accepting ?t \<Longrightarrow> server_accepting s"
    "server_accepting s \<Longrightarrow> sr_passed ?t = sr_passed s @ (case ?o of None \<Rightarrow> [] | Some w \<Rightarrow> [w])"
    "\<not> server_accepting s \<Longrightarrow> sr_passed ?t = sr_passed s"
    "balanced (sr_passed s) (sr_pool s) \<Longrightarrow> balanced (sr_passed ?t) (sr_pool ?t)"
    by blast+
qed

section \<open>Runs\<close>

lemma server_init_facts:
  "server_accepting server_init" "sr_passed server_init = []" "\<not> sr_token server_init"
  "balanced (sr_passed server_init) (sr_pool server_init)"
  by (simp_all add: server_accepting_def server_init_def balanced_init)
    (simp_all add: pool_init_def loop_init_def)

lemma forwarder_run_run: "forwarder_run opt tune es = forwarder.run opt tune server_init es"
  by (simp add: forwarder_run_def forwarder.run_def)

lemma forwarder_run_append:
  "forwarder_run opt tune (es @ fs) = fold (\<lambda>e s. forwarder_step opt tune s e) fs (forwarder_run opt tune es)"
  by (simp add: forwarder_run_def)

text \<open>Nothing but the token ends the accept loop.\<close>

lemma forwarder_step_alive:
  assumes "server_accepting s" "\<not> sr_token s" "e \<noteq> Sv_token"
  shows "server_accepting (forwarder_step opt tune s e) \<and> \<not> sr_token (forwarder_step opt tune s e)"
proof (cases "\<exists>m c. e = Sv_conn m c")
  case True
  then obtain m c where e: "e = Sv_conn m c" by blast
  show ?thesis
  proof (cases "forward_offer opt tune e")
    case (Some w)
    obtain b s' where p: "pass_on w s = (b, s')" by (cases "pass_on w s")
    with pass_on_keeps[OF p] Some e assms show ?thesis
      by (auto simp: forwarder_step_conn server_accepting_def)
  qed (use e assms in \<open>simp add: forwarder_step_conn\<close>)
next
  case False
  with assms show ?thesis by (cases e) (auto simp: forwarder_step_def server_accepting_def)
qed

lemma forwarder_alive:
  "Sv_token \<notin> set es \<Longrightarrow> server_accepting (forwarder_run opt tune es) \<and> \<not> sr_token (forwarder_run opt tune es)"
proof (induction es rule: rev_induct)
  case Nil
  show ?case by (simp add: forwarder_run_def server_init_facts)
next
  case (snoc e es)
  then show ?case
    using forwarder_step_alive[of "forwarder_run opt tune es" e opt tune] by (simp add: forwarder_run_append eq_commute)
qed

lemma forwarder_token:
  "Sv_token \<in> set es \<Longrightarrow> sr_token (fold (\<lambda>e s. forwarder_step opt tune s e) es s)"
proof (induction es arbitrary: s rule: rev_induct)
  case (snoc e es)
  let ?s = "fold (\<lambda>e s. forwarder_step opt tune s e) es s"
  have keep: "sr_token ?s \<Longrightarrow> sr_token (forwarder_step opt tune ?s e)"
  proof (cases "\<exists>m c. e = Sv_conn m c")
    case True
    then obtain m c where e: "e = Sv_conn m c" by blast
    moreover assume "sr_token ?s"
    ultimately show ?thesis
      by (auto simp: forwarder_step_conn dest: pass_on_keeps(3) split: option.split prod.splits bool.splits)
  next
    case False
    moreover assume "sr_token ?s"
    ultimately show ?thesis by (cases e) (auto simp: forwarder_step_def)
  qed
  show ?case
  proof (cases "e = Sv_token")
    case True
    then show ?thesis by (simp add: forwarder_step_def)
  next
    case False
    with snoc keep show ?thesis by simp
  qed
qed simp

lemma forwarder_joins:
  "fold (\<lambda>e s. forwarder_step opt tune s e) (replicate n (Sv_join 0)) s =
     s\<lparr>sr_pool := (sr_pool s)\<lparr>po_loop :=
       fold (\<lambda>e l. receiver_step l e) (replicate n (Le_join 0)) (po_loop (sr_pool s))\<rparr>\<rparr>"
  by (induction n arbitrary: s) (simp_all add: forwarder_step_def pool_join_def)

lemma pool_drains:
  assumes "\<not> ls_open l"
  shows "loop_result (fold (\<lambda>e l. receiver_step l e) (replicate (length (ls_running l)) (Le_join 0)) l) = Some (Inr ())"
  using receiver.joins_drain[of l] assms by (simp add: loop_result_def)

lemma forwarder_ends:
  assumes "Sv_token \<in> set es"
  shows "\<exists>n. forwarder_result (forwarder_run opt tune
    (es @ Sv_cancelled # Sv_pool_cancelled # replicate n (Sv_join 0))) = Some (Inr ())"
proof -
  let ?s = "forwarder_run opt tune es"
  let ?t = "forwarder_step opt tune (forwarder_step opt tune ?s Sv_cancelled) Sv_pool_cancelled"
  have "sr_token ?s" unfolding forwarder_run_def by (rule forwarder_token[OF assms])
  then have t: "\<not> sr_open ?t" "\<not> ls_open (po_loop (sr_pool ?t))" by (auto simp: forwarder_step_def)
  let ?n = "length (ls_running (po_loop (sr_pool ?t)))"
  have "forwarder_run opt tune (es @ Sv_cancelled # Sv_pool_cancelled # replicate ?n (Sv_join 0)) =
      fold (\<lambda>e s. forwarder_step opt tune s e) (replicate ?n (Sv_join 0)) ?t"
    by (simp only: forwarder_run_append fold.simps comp_apply id_apply)
  then have "forwarder_result (forwarder_run opt tune
      (es @ Sv_cancelled # Sv_pool_cancelled # replicate ?n (Sv_join 0))) = Some (Inr ())"
    using pool_drains[OF t(2)] t(1) unfolding forwarder_joins by (simp add: forwarder_result_def)
  then show ?thesis by blast
qed

section \<open>Properties\<close>

text \<open>
  C21: the server of a forwarding rule serves exactly the connections it should.  Until the
  token is cancelled it never ends and never stops accepting, whatever accept errors occur;
  the workers it has started and those it has queued are, in order and each once, one for
  every connection that arrived while the target was in the table and whose options could
  be set, with the handle the table had at that time; the others are dropped.  Later on no
  other worker is started, and once the token is cancelled and the running workers are over
  the server returns with success.
\<close>

theorem forwarding_rule_exact:
  assumes "Sv_token \<notin> set es" "Sv_token \<in> set fs"
  shows
    "forwarder_result (forwarder_run opt tune es) = None \<and>
     ls_spawned (po_loop (sr_pool (forwarder_run opt tune es))) @ po_queue (sr_pool (forwarder_run opt tune es)) =
       List.map_filter (forward_offer opt tune) es \<and>
     (\<exists>n rest. List.map_filter (forward_offer opt tune) (take n (es @ fs)) =
        ls_spawned (po_loop (sr_pool (forwarder_run opt tune (es @ fs)))) @ rest) \<and>
     (\<exists>n. forwarder_result (forwarder_run opt tune
        ((es @ fs) @ Sv_cancelled # Sv_pool_cancelled # replicate n (Sv_join 0))) = Some (Inr ()))"
proof (intro conjI)
  have acc: "server_accepting (forwarder_run opt tune es)" using forwarder_alive[OF assms(1)] by blast
  then show "forwarder_result (forwarder_run opt tune es) = None"
    by (simp add: forwarder_result_def server_accepting_def)
  show "ls_spawned (po_loop (sr_pool (forwarder_run opt tune es))) @ po_queue (sr_pool (forwarder_run opt tune es)) =
      List.map_filter (forward_offer opt tune) es"
    using forwarder.started_or_queued[OF server_init_facts(4), of opt tune es] acc
    by (simp add: forwarder_run_run server_init_facts(2))
  obtain n where "sr_passed (forwarder.run opt tune server_init (es @ fs)) =
      sr_passed server_init @ List.map_filter (forward_offer opt tune) (take n (es @ fs))"
    using forwarder.passed_prefix by blast
  then have "sr_passed (forwarder_run opt tune (es @ fs)) = List.map_filter (forward_offer opt tune) (take n (es @ fs))"
    by (simp only: forwarder_run_run server_init_facts(2) append_Nil)
  moreover have "balanced (sr_passed (forwarder_run opt tune (es @ fs))) (sr_pool (forwarder_run opt tune (es @ fs)))"
    using forwarder.balanced_run[OF server_init_facts(4), of opt tune "es @ fs"] unfolding forwarder_run_run .
  ultimately show "\<exists>n rest. List.map_filter (forward_offer opt tune) (take n (es @ fs)) =
      ls_spawned (po_loop (sr_pool (forwarder_run opt tune (es @ fs)))) @ rest"
    unfolding balanced_def by metis
  show "\<exists>n. forwarder_result (forwarder_run opt tune
      ((es @ fs) @ Sv_cancelled # Sv_pool_cancelled # replicate n (Sv_join 0))) = Some (Inr ())"
    by (rule forwarder_ends) (use assms(2) in simp)
qed

definition sample_rule :: tcp_forward_option where
  "sample_rule = \<lparr>fo_listen = sample_addr, fo_target = ''a'',
     fo_params = \<lparr>tf_target_address = SocketAddress sample_addr, tf_connect_timeout = 5,
       tf_keepalive_timeout = 60, tf_keepalive_interval = 15, tf_keepalive_retries = 3\<rparr>\<rparr>"

theorem forwarding_rule_exact_witness:
  "ls_spawned (po_loop (sr_pool (forwarder_run sample_rule (\<lambda>_ _. None)
      [Sv_conn manager_new (1 :: nat), Sv_failed ''emfile'', Sv_conn sample_table 2, Sv_take])))
     @ po_queue (sr_pool (forwarder_run sample_rule (\<lambda>_ _. None)
      [Sv_conn manager_new (1 :: nat), Sv_failed ''emfile'', Sv_conn sample_table 2, Sv_take])) =
   [\<lparr>fw_handle = 7, fw_params = fo_params sample_rule, fw_conn = 2\<rparr>]"
  using forwarding_rule_exact[of "[Sv_conn manager_new (1 :: nat), Sv_failed ''emfile'', Sv_conn sample_table 2, Sv_take]"
      "[Sv_token]" sample_rule "\<lambda>_ _. None"]
  by (simp add: List.map_filter_simps forward_offer_def mgr.get_ins mgr.get_new sample_rule_def)

text \<open>
  C12: a forwarded connection behaves like a direct one.  If the node can connect to the
  target, then after the exchange of the two stages the caller's call succeeds, the target
  has received exactly the bytes of the local connection and the local connection exactly
  the bytes of the target, in order; what each side of the tunnel wrote is what the other
  has read.
\<close>

theorem tcp_tunnel:
  fixes s :: "'y link_scheme" and w :: "'z world_scheme"
  assumes "codec_ok (sv_ack sv)" "codec_ok (sv_addr sv)" "codec_ok cc"
    and "framed cc Method_Command OPTION_NONE (Command_TcpForward param) b"
    and "framed (sv_ack sv) Method_Command OPTION_NONE ack_success k"
    and "framed (sv_addr sv) Method_Command OPTION_NONE addr m"
    and "tcp_connect (sv_lookup sv) (sv_net sv) param = Inr (target, addr)" "tx_cap target = None" "st_relay st = None"
    and "rx w = b @ k @ rx (lk_conn s)" "tx w = []" "tx_cap w = None"
    and "rx s = k @ m @ rx target" "tx_cap s = None" "tx_cap (lk_conn s) = None"
  shows
    "(\<exists>t. client_tcp_forward (sv_ack sv) cc (sv_addr sv) True (Inr s) True None param = (Inr (), Some t) \<and>
        tx t = tx s @ rx w \<and> tx (lk_conn t) = tx (lk_conn s) @ rx target) \<and>
     (\<exists>w'. serve_stream sv cc st meta w = (Inr (), w') \<and> tx w' = rx s) \<and>
     (\<exists>w'. tcp_forward_handle (sv_ack sv) (sv_addr sv) (sv_lookup sv) (sv_net sv) None param
          (head_of Method_Command OPTION_NONE b) (w\<lparr>rx := k @ rx (lk_conn s)\<rparr>) =
        (Inr (), w', Some (target\<lparr>rx := [], tx := tx target @ rx (lk_conn s)\<rparr>)))"
proof (intro conjI)
  let ?s = "s\<lparr>rx := rx target, tx := tx s @ b @ k\<rparr>"
  have "two_stage_call (sv_ack sv) cc (sv_addr sv) True (Inr s) None (Command_TcpForward param)
      (\<lambda>_. hand_over True (relay_executor None)) = (Inr addr, Some (snd (relay_executor None None ?s)))"
    using two_stage_call_run[OF assms(1,2,4,5,6) option_none_ok assms(13,14),
        of "\<lambda>_. hand_over True (relay_executor None)" True "relay_executor None" None] by simp
  then show "\<exists>t. client_tcp_forward (sv_ack sv) cc (sv_addr sv) True (Inr s) True None param = (Inr (), Some t) \<and>
      tx t = tx s @ rx w \<and> tx (lk_conn t) = tx (lk_conn s) @ rx target"
    using assms(10,14,15) by (simp add: client_tcp_forward_def relay_executor_up)
  let ?h = "head_of Method_Command OPTION_NONE b" and ?up = "rx (lk_conn s)"
  let ?w = "w\<lparr>rx := k @ ?up\<rparr>"
  have a: "write_message (sv_ack sv) Method_Command OPTION_NONE ack_success ?w = (Inr (), ?w\<lparr>tx := k\<rparr>)"
    using assms(11,12) by (simp add: write_message_up[OF assms(5)])
  have "write_message (sv_addr sv) Method_Command OPTION_NONE addr (?w\<lparr>tx := k\<rparr>) = (Inr (), ?w\<lparr>tx := k @ m\<rparr>)"
    using assms(12) by (simp add: write_message_up[OF assms(6)])
  moreover have "read_ack (sv_ack sv) (?w\<lparr>tx := k @ m\<rparr>) = (Inr (), ?w\<lparr>rx := ?up, tx := k @ m\<rparr>)"
    using read_ack_ok[OF assms(1,5) option_none_ok, of "?w\<lparr>tx := k @ m\<rparr>" ?up] by simp
  ultimately have run: "tcp_forward_handle (sv_ack sv) (sv_addr sv) (sv_lookup sv) (sv_net sv) None param ?h ?w =
      (Inr (), w\<lparr>rx := [], tx := k @ m @ rx target\<rparr>, Some (target\<lparr>rx := [], tx := tx target @ ?up\<rparr>))"
    using assms(7,8,12) by (simp add: tcp_forward_handle_def a andthen_def tcp_forward_up)
  then show "\<exists>w'. tcp_forward_handle (sv_ack sv) (sv_addr sv) (sv_lookup sv) (sv_net sv) None param ?h ?w =
      (Inr (), w', Some (target\<lparr>rx := [], tx := tx target @ ?up\<rparr>))" by blast
  have "serve_stream sv cc st meta w = (Inr (), w\<lparr>rx := [], tx := k @ m @ rx target\<rparr>)"
    using run assms(9) by (simp add: serve_stream_command[OF assms(3,4,10)] command_handle_def)
  then show "\<exists>w'. serve_stream sv cc st meta w = (Inr (), w') \<and> tx w' = rx s"
    using assms(13) by simp
qed

definition sample_tunnel :: "unit services" where
  "sample_tunnel = (sample_services sample_ack (table_codec []) (table_codec []))
     \<lparr>sv_addr := table_codec [(sample_addr, [8])],
      sv_net := \<lparr>tn_connect = (\<lambda>_ _. Connect_ok (stream_of [3, 4])), tn_keepalive = (\<lambda>_. None), tn_nodelay = None,
        tn_local = Inr sample_addr\<rparr>\<rparr>"

theorem tcp_tunnel_witness:
  "\<exists>t. client_tcp_forward sample_ack (table_codec [(Command_TcpForward (fo_params sample_rule), [9])])
      (table_codec [(sample_addr, [8])]) True
      (Inr (link_of (ack_frame @ small_frame Method_Command OPTION_NONE 8 @ [3, 4]) [1, 2])) True None
      (fo_params sample_rule) = (Inr (), Some t) \<and>
    tx t = small_frame Method_Command OPTION_NONE 9 @ ack_frame @ [1, 2] \<and> tx (lk_conn t) = [3, 4]"
  using tcp_tunnel[of sample_tunnel "table_codec [(Command_TcpForward (fo_params sample_rule), [9])]"
      "fo_params sample_rule" "small_frame Method_Command OPTION_NONE 9" ack_frame sample_addr
      "small_frame Method_Command OPTION_NONE 8" "stream_of [3, 4]" sample_stops
      "world_of (small_frame Method_Command OPTION_NONE 9 @ ack_frame @ [1, 2]) sample_fs"
      "link_of (ack_frame @ small_frame Method_Command OPTION_NONE 8 @ [3, 4]) [1, 2]" sample_caller]
  by (simp add: sample_tunnel_def sample_ack_facts sample_ack_framed single_codec_ok single_framed sample_stops_def
      tcp_connect_def resolve_def sample_rule_def)

end
