(* ===== verification/Crab_Socks.thy ===== *)
theory Crab_Socks
  imports Crab_Listener
begin

text \<open>
  \<^verbatim>\<open>src/src/app/protocol/socks5\<close>: the SOCKS5 proxy.  A client negotiates and sends its command
  (\<open>Handshake\<close>, \<^verbatim>\<open>server.rs\<close>), which becomes a session (\<^verbatim>\<open>session.rs\<close>) on the handle of the
  target node.

  The protocol library is a parameter: what authentication and waiting for the command
  yield.  What a session does to its client is a \<open>socks_conn\<close>: the replies it has sent, the
  error of the next reply, if it fails, and the connection as the data then travels on it.
  In a reply \<open>None\<close> is the library's \<open>Address::unspecified()\<close>.
\<close>

section \<open>Configuration and addresses\<close>

datatype auth_config = Auth_NoAuth | Auth_Password string string

definition default_auth :: auth_config where
  "default_auth = Auth_NoAuth"

record socks_config =
  so_listen :: socket_addr
  so_target :: string
  so_auth :: auth_config

text \<open>The credentials the server asks for, as bytes.\<close>

definition socks_credentials :: "auth_config \<Rightarrow> (bytes \<times> bytes) option" where
  "socks_credentials auth =
    (case auth of
       Auth_NoAuth \<Rightarrow> None
     | Auth_Password username password \<Rightarrow>
         Some (map (\<lambda>c. word_of_nat (of_char c)) username, map (\<lambda>c. word_of_nat (of_char c)) password))"

datatype socks_addr = Socks_SocketAddress socket_addr | Socks_DomainAddress bytes u16

definition address_try_from :: "socks_addr \<Rightarrow> crab_error + address" where
  "address_try_from addr =
    (case addr of
       Socks_SocketAddress a \<Rightarrow> Inr (SocketAddress a)
     | Socks_DomainAddress host port \<Rightarrow>
         (case string_from_utf8 host of
            Some h \<Rightarrow> Inr (DomainAddress h port)
          | None \<Rightarrow> Inl (ErrorCode BAD_PARAMETER)))"

section \<open>The client's connection\<close>

datatype socks_reply =
    Reply_Succeeded
  | Reply_NetworkUnreachable
  | Reply_CommandNotSupported
  | Reply_AddressTypeNotSupported

record socks_conn =
  sc_replies :: "(socks_reply \<times> socks_addr option) list"
  sc_reply_err :: "ext_error option"
  sc_data :: stream

definition socks_answer ::
  "socks_reply \<Rightarrow> socks_addr option \<Rightarrow> socks_conn \<Rightarrow> (ext_error + unit) \<times> socks_conn" where
  "socks_answer r a c =
    (case sc_reply_err c of
       Some e \<Rightarrow> (Inl e, c)
     | None \<Rightarrow> (Inr (), c\<lparr>sc_replies := sc_replies c @ [(r, a)]\<rparr>))"

section \<open>Sessions\<close>

definition DEFAULT_TIMEOUT :: u8 where "DEFAULT_TIMEOUT = 10"
definition DEFAULT_KEEPALIVE_TIMEOUT :: u8 where "DEFAULT_KEEPALIVE_TIMEOUT = 60"
definition DEFAULT_KEEPALIVE_RETRY :: u8 where "DEFAULT_KEEPALIVE_RETRY = 15"
definition DEFAULT_KEEPALIVE_RETRY_INTERVAL :: u8 where "DEFAULT_KEEPALIVE_RETRY_INTERVAL = 3"

definition socks_params :: "address \<Rightarrow> tcp_forward_params" where
  "socks_params target_address =
    \<lparr>tf_target_address = target_address, tf_connect_timeout = DEFAULT_TIMEOUT,
     tf_keepalive_timeout = DEFAULT_KEEPALIVE_TIMEOUT,
     tf_keepalive_interval = DEFAULT_KEEPALIVE_RETRY_INTERVAL,
     tf_keepalive_retries = DEFAULT_KEEPALIVE_RETRY\<rparr>"

text \<open>
  The executor is handed over only after the reply has been sent; if the reply fails the
  function returns and the channel to the task is dropped.
\<close>

definition after_reply ::
  "(ext_error + unit) \<Rightarrow> bool \<Rightarrow> ('z, 'r) executor \<Rightarrow> (crab_error + ('z, 'r) executor) option" where
  "after_reply replied taken executor =
    (case replied of Inl _ \<Rightarrow> None | Inr _ \<Rightarrow> hand_over taken executor)"

definition tcp_session_serve ::
  "ack_message codec \<Rightarrow> command codec \<Rightarrow> socket_addr codec \<Rightarrow> bool \<Rightarrow> crab_error + stream
    \<Rightarrow> bool \<Rightarrow> (nat \<times> nat) option \<Rightarrow> socks_addr \<Rightarrow> socks_conn
    \<Rightarrow> (crab_error + unit) \<times> socks_conn \<times> link option" where
  "tcp_session_serve ac cc sc queued opened taken cutoff address c =
    (case address_try_from address of
       Inl e \<Rightarrow> (Inl e, snd (socks_answer Reply_AddressTypeNotSupported None c), None)
     | Inr target \<Rightarrow>
         (let success = (\<lambda>addr. socks_answer Reply_Succeeded (Some (Socks_SocketAddress addr)) c) in
          case two_stage_call ac cc sc queued (map_sum id (link_with (sc_data c)) opened) None
                 (Command_TcpForward (socks_params target))
                 (\<lambda>addr. after_reply (fst (success addr)) taken (relay_executor cutoff)) of
            (Inl e, t) \<Rightarrow> (Inl e, c, t)
          | (Inr addr, t) \<Rightarrow>
              (case success addr of
                 (Inl err, c') \<Rightarrow>
                   (Inl (ErrorCodeWithMessage BAD_STATUS_ERROR (''socks5 proxy forward tcp reply error '' @ err)), c', t)
               | (Inr _, c') \<Rightarrow> (if taken then Inr () else Inl (ErrorCode CANCELED_ERROR), c', t))))"

text \<open>
  The socket of an association: bound to the loopback address and connected to the peer of
  the client's TCP connection.
\<close>

record udp_net =
  un_peer :: "ext_error + socket_addr"
  un_bind :: "socket_addr \<Rightarrow> ext_error option"
  un_connect :: "socket_addr \<Rightarrow> ext_error option"
  un_local :: "ext_error + socket_addr"

definition v4_localhost :: socket_addr where
  "v4_localhost = SocketAddrV4 [127, 0, 0, 1] 0"

text \<open>The result is the local address and the address the socket is connected to.\<close>

definition udp_session_prepare :: "udp_net \<Rightarrow> crab_error + socket_addr \<times> socket_addr" where
  "udp_session_prepare net =
    (case un_peer net of
       Inl e \<Rightarrow> Inl (IO e)
     | Inr peer_addr \<Rightarrow>
         (case un_bind net v4_localhost of
            Some e \<Rightarrow> Inl (IO e)
          | None \<Rightarrow>
              (case un_connect net peer_addr of
                 Some e \<Rightarrow> Inl (IO e)
               | None \<Rightarrow> (case un_local net of Inl e \<Rightarrow> Inl (IO e) | Inr a \<Rightarrow> Inr (a, peer_addr)))))"

text \<open>Which branch of the select in the executor of an association wins.\<close>

datatype udp_race = Ur_cancelled | Ur_closed | Ur_copied

definition udp_session_executor :: "udp_race \<Rightarrow> ('z, unit) sprog \<Rightarrow> ('z, unit) executor" where
  "udp_session_executor race relay tok =
    (case race of
       Ur_cancelled \<Rightarrow> throw (ErrorCode CANCELED_ERROR)
     | Ur_closed \<Rightarrow> throw (ErrorCode CANCELED_ERROR)
     | Ur_copied \<Rightarrow> relay)"

definition udp_session_serve ::
  "ack_message codec \<Rightarrow> command codec \<Rightarrow> socket_addr codec \<Rightarrow> bool \<Rightarrow> crab_error + 'z stream_scheme
    \<Rightarrow> bool \<Rightarrow> udp_net \<Rightarrow> udp_race \<Rightarrow> ('z, unit) sprog \<Rightarrow> socks_conn
    \<Rightarrow> (crab_error + unit) \<times> socks_conn \<times> 'z stream_scheme option" where
  "udp_session_serve ac cc sc queued opened taken net race relay c =
    (case udp_session_prepare net of
       Inl err \<Rightarrow> (Inl err, c, None)
     | Inr (local_addr, _) \<Rightarrow>
         (let success = socks_answer Reply_Succeeded (Some (Socks_SocketAddress local_addr)) c in
          case two_stage_call ac cc sc queued opened None (Command_UdpForward None)
                 (\<lambda>_. after_reply (fst success) taken (udp_session_executor race relay)) of
            (Inl err, t) \<Rightarrow> (Inl err, snd (socks_answer Reply_NetworkUnreachable None c), t)
          | (Inr _, t) \<Rightarrow>
              (case success of
                 (Inl err, c') \<Rightarrow> (Inl (ErrorCodeWithMessage NETWORK_ERROR err), c', t)
               | (Inr _, c') \<Rightarrow> (if taken then Inr () else Inl (ErrorCode CANCELED_ERROR), c', t))))"

section \<open>The handshake\<close>

datatype 'h session = Session_Tcp 'h socks_conn socks_addr | Session_Udp 'h socks_conn

datatype socks_command = Socks_associate | Socks_connect socks_addr | Socks_bind

text \<open>
  \<open>serve\<close> of a handshake: the result, the client's connection and the session it sends on
  \<open>sender\<close>; \<open>cancelled\<close> is the token winning against the authentication, \<open>up\<close> whether the
  receiver of the sessions is still there.
\<close>

definition handshake_serve ::
  "'h \<Rightarrow> bool \<Rightarrow> ext_error + unit \<Rightarrow> ext_error + socks_command \<Rightarrow> bool \<Rightarrow> socks_conn
    \<Rightarrow> (crab_error + unit) \<times> socks_conn \<times> 'h session option" where
  "handshake_serve h cancelled auth cmd up c =
    (if cancelled then (Inl (ErrorCode CANCELED_ERROR), c, None)
     else
       (case auth of
          Inl _ \<Rightarrow> (Inr (), c, None)
        | Inr _ \<Rightarrow>
            (case cmd of
               Inl _ \<Rightarrow> (Inr (), c, None)
             | Inr Socks_bind \<Rightarrow>
                 (Inl (ErrorCode UNSUPPORTED_ERROR), snd (socks_answer Reply_CommandNotSupported None c), None)
             | Inr Socks_associate \<Rightarrow>
                 if up then (Inr (), c, Some (Session_Udp h c)) else (Inl (ErrorCode CANCELED_ERROR), c, None)
             | Inr (Socks_connect address) \<Rightarrow>
                 if up then (Inr (), c, Some (Session_Tcp h c address)) else (Inl (ErrorCode CANCELED_ERROR), c, None))))"

text \<open>
  A session is served according to its kind.  \<open>dial\<close> is the node of the handle; the executors
  and the stream stay with the task, so the result is that of \<open>serve\<close> and the client's connection.
\<close>

definition session_serve ::
  "ack_message codec \<Rightarrow> command codec \<Rightarrow> socket_addr codec \<Rightarrow> ('h \<Rightarrow> bool \<times> (crab_error + stream))
    \<Rightarrow> bool \<Rightarrow> (nat \<times> nat) option \<Rightarrow> udp_net \<Rightarrow> udp_race \<Rightarrow> (unit, unit) sprog \<Rightarrow> 'h session
    \<Rightarrow> (crab_error + unit) \<times> socks_conn" where
  "session_serve ac cc sc dial taken cutoff net race relay sess =
    (case sess of
       Session_Tcp h c address \<Rightarrow>
         (case dial h of (queued, opened) \<Rightarrow>
            case tcp_session_serve ac cc sc queued opened taken cutoff address c of (r, c', _) \<Rightarrow> (r, c'))
     | Session_Udp h c \<Rightarrow>
         (case dial h of (queued, opened) \<Rightarrow>
            case udp_session_serve ac cc sc queued opened taken net race relay c of (r, c', _) \<Rightarrow> (r, c')))"

section \<open>The server\<close>

text \<open>
  A handshake is a connection with the handle of the target; the sessions have a pool of
  their own, into which the running handshakes send.
\<close>

record ('h, 'c) socks_handshake =
  hk_handle :: 'h
  hk_stream :: 'c

record ('w, 's) socks_server = "'w server" +
  ss_sessions :: "'s pool"

datatype ('h, 'c, 's) socks_event =
    Sk_server "('h, 'c) server_event"
  | Sk_session 's
  | Sk_take
  | Sk_pool_cancelled
  | Sk_join nat

definition socks_accept ::
  "string \<Rightarrow> (('h, 'c) socks_handshake, 'z) server_scheme \<Rightarrow> ('h, 'c) server_event
    \<Rightarrow> (('h, 'c) socks_handshake, 'z) server_scheme" where
  "socks_accept target s e =
    (case e of
       Sv_cancelled \<Rightarrow> if sr_open s \<and> sr_token s then s\<lparr>sr_open := False\<rparr> else s
     | Sv_failed _ \<Rightarrow> s\<lparr>sr_open := False\<rparr>
     | Sv_conn m conn \<Rightarrow>
         if \<not> sr_open s then s
         else
           (case manager_get m target of
              None \<Rightarrow> s
            | Some (h, _) \<Rightarrow> snd (pass_on \<lparr>hk_handle = h, hk_stream = conn\<rparr> s))
     | _ \<Rightarrow> pool_event s e)"

fun socks_step ::
  "string \<Rightarrow> (('h, 'c) socks_handshake, 's) socks_server \<Rightarrow> ('h, 'c, 's) socks_event
    \<Rightarrow> (('h, 'c) socks_handshake, 's) socks_server" where
  "socks_step target s (Sk_server e) = socks_accept target s e"
| "socks_step target s (Sk_session x) = s\<lparr>ss_sessions := snd (pool_send x (ss_sessions s))\<rparr>"
| "socks_step target s Sk_take = s\<lparr>ss_sessions := pool_take (ss_sessions s)\<rparr>"
| "socks_step target s Sk_pool_cancelled =
     (if sr_token s then s\<lparr>ss_sessions := pool_cancel (ss_sessions s)\<rparr> else s)"
| "socks_step target s (Sk_join i) = s\<lparr>ss_sessions := pool_join i (ss_sessions s)\<rparr>"

definition socks_init :: "('w, 's) socks_server" where
  "socks_init = server.extend server_init (socks_server.fields pool_init)"

definition socks_run ::
  "string \<Rightarrow> ('h, 'c, 's) socks_event list \<Rightarrow> (('h, 'c) socks_handshake, 's) socks_server" where
  "socks_run target es = fold (\<lambda>e s. socks_step target s e) es socks_init"

text \<open>\<open>try_join!\<close> of the two tasks, both of which end with \<open>Ok\<close>.\<close>

definition socks_result :: "('w, 's) socks_server \<Rightarrow> (crab_error + unit) option" where
  "socks_result s =
    (if sr_open s then None
     else if loop_result (po_loop (sr_pool s)) = None \<or> loop_result (po_loop (ss_sessions s)) = None then None
     else Some (Inr ()))"

definition socks_serve ::
  "(socket_addr \<Rightarrow> ext_error option) \<Rightarrow> socks_config \<Rightarrow> ('h, 'c, 's) socks_event list
    \<Rightarrow> (crab_error + unit) option" where
  "socks_serve bind cfg es =
    (case bind (so_listen cfg) of
       Some e \<Rightarrow> Some (Inl (IO e))
     | None \<Rightarrow> socks_result (socks_run (so_target cfg) es))"

section \<open>The accept loop\<close>

definition accept_offer :: "string \<Rightarrow> ('h, 'c) server_event \<Rightarrow> ('h, 'c) socks_handshake option" where
  "accept_offer target e =
    (case e of
       Sv_conn m conn \<Rightarrow> map_option (\<lambda>(h, _). \<lparr>hk_handle = h, hk_stream = conn\<rparr>) (manager_get m target)
     | _ \<Rightarrow> None)"

definition socks_offer :: "string \<Rightarrow> ('h, 'c, 's) socks_event \<Rightarrow> ('h, 'c) socks_handshake option" where
  "socks_offer target e = (case e of Sk_server f \<Rightarrow> accept_offer target f | _ \<Rightarrow> None)"

lemma socks_offer_server [simp]: "socks_offer target (Sk_server f) = accept_offer target f"
  by (simp add: socks_offer_def)

lemma socks_accept_conn:
  "socks_accept target s (Sv_conn m c) =
    (case accept_offer target (Sv_conn m c) of
       None \<Rightarrow> s
     | Some w \<Rightarrow> if sr_open s then snd (pass_on w s) else s)"
  by (cases "manager_get m target") (auto simp: socks_accept_def accept_offer_def)

lemma socks_step_other:
  assumes "\<forall>m c. e \<noteq> Sk_server (Sv_conn m c)"
  shows "socks_offer target e = None \<and> sr_passed (socks_step target s e) = sr_passed s \<and>
    (sr_open (socks_step target s e) \<longrightarrow> sr_open s) \<and>
    (ls_open (po_loop (sr_pool (socks_step target s e))) \<longrightarrow> ls_open (po_loop (sr_pool s))) \<and>
    (balanced (sr_passed s) (sr_pool s) \<longrightarrow> balanced (sr_passed s) (sr_pool (socks_step target s e)))"
proof (cases e)
  case (Sk_server f)
  with assms show ?thesis
    using pool_event_keeps(1,2,4)[where s = s and e = f]
      pool_event_keeps(3)[where s = s and e = f and ws = "sr_passed s"]
    by (cases f) (auto simp: socks_accept_def accept_offer_def)
qed (auto simp: socks_offer_def)

interpretation socks: accept_loop
    "socks_step target :: (('h, 'c) socks_handshake, 's) socks_server \<Rightarrow> ('h, 'c, 's) socks_event \<Rightarrow> _"
    server_accepting sr_passed sr_pool "socks_offer target"
  for target :: string
proof unfold_locales
  fix s :: "(('h, 'c) socks_handshake, 's) socks_server" and e :: "('h, 'c, 's) socks_event"
  let ?t = "socks_step target s e" and ?o = "socks_offer target e"
  show "server_accepting s \<Longrightarrow> ls_open (po_loop (sr_pool s))" by (simp add: server_accepting_def)
  have laws: "(server_accepting ?t \<longrightarrow> server_accepting s) \<and>
      (server_accepting s \<longrightarrow> sr_passed ?t = sr_passed s @ (case ?o of None \<Rightarrow> [] | Some w \<Rightarrow> [w])) \<and>
      (\<not> server_accepting s \<longrightarrow> sr_passed ?t = sr_passed s) \<and>
      (balanced (sr_passed s) (sr_pool s) \<longrightarrow> balanced (sr_passed ?t) (sr_pool ?t))"
  proof (cases "\<exists>m c. e = Sk_server (Sv_conn m c)")
    case True
    then obtain m c where e: "e = Sk_server (Sv_conn m c)" by blast
    show ?thesis
    proof (cases "\<exists>w. ?o = Some w \<and> sr_open s")
      case True
      then obtain w where w: "?o = Some w" "sr_open s" by blast
      obtain b s' where p: "pass_on w s = (b, s')" by (cases "pass_on w s")
      with e w have "?t = s'" by (simp add: socks_accept_conn)
      with e w pass_on_keeps[OF p] show ?thesis by (auto simp: server_accepting_def)
    next
      case False
      with e show ?thesis by (auto simp: socks_accept_conn server_accepting_def split: option.split)
    qed
  next
    case False
    then show ?thesis
      using socks_step_other[of e target s] by (auto simp: server_accepting_def)
  qed
  then show "server_accepting ?t \<Longrightarrow> server_accepting s"
    "server_accepting s \<Longrightarrow> sr_passed ?t = sr_passed s @ (case ?o of None \<Rightarrow> [] | Some w \<Rightarrow> [w])"
    "\<not> server_accepting s \<Longrightarrow> sr_passed ?t = sr_passed s"
    "balanced (sr_passed s) (sr_pool s) \<Longrightarrow> balanced (sr_passed ?t) (sr_pool ?t)"
    by blast+
qed

section \<open>Runs\<close>

lemma socks_init_facts:
  "server_accepting socks_init" "sr_passed socks_init = []" "\<not> sr_token socks_init"
  "balanced (sr_passed socks_init) (sr_pool socks_init)" "ls_open (po_loop (ss_sessions socks_init))"
  using server_init_facts
  by (simp_all add: socks_init_def server.defs socks_server.defs server_accepting_def server_init_def
      pool_init_def loop_init_def balanced_def)

lemma socks_run_run: "socks_run target es = socks.run target socks_init es"
  by (simp add: socks_run_def socks.run_def)

lemma socks_run_append:
  "socks_run target (es @ fs) = fold (\<lambda>e s. socks_step target s e) fs (socks_run target es)"
  by (simp add: socks_run_def)

text \<open>Without the token both pools stay, and the accept loop ends only at an accept error.\<close>

definition pools_up :: "('w, 's) socks_server \<Rightarrow> bool" where
  "pools_up s \<longleftrightarrow> \<not> sr_token s \<and> ls_open (po_loop (sr_pool s)) \<and> ls_open (po_loop (ss_sessions s))"

lemma pool_send_open: "ls_open (po_loop p) \<Longrightarrow> ls_open (po_loop (snd (pool_send x p)))"
  by (simp add: pool_send_def)

lemma socks_step_up:
  assumes "pools_up s" "e \<noteq> Sk_server Sv_token"
  shows "pools_up (socks_step target s e) \<and>
    (sr_open s \<longrightarrow> sr_open (socks_step target s e) \<or> (\<exists>t. e = Sk_server (Sv_failed t)))"
proof (cases e)
  case (Sk_server f)
  show ?thesis
  proof (cases "\<exists>m c. f = Sv_conn m c")
    case True
    then obtain m c where f: "f = Sv_conn m c" by blast
    show ?thesis
    proof (cases "manager_get m target")
      case (Some hi)
      obtain h i where hi: "hi = (h, i)" by (cases hi)
      have "ls_open (po_loop (sr_pool s))" using assms(1) by (simp add: pools_up_def)
      then obtain p where "pool_send \<lparr>hk_handle = h, hk_stream = c\<rparr> (sr_pool s) = (True, p)" "ls_open (po_loop p)"
        by (simp add: pool_send_def)
      with Some hi f Sk_server assms(1) show ?thesis
        by (simp add: socks_accept_def pass_on_def pools_up_def)
    qed (use f Sk_server assms(1) in \<open>simp add: socks_accept_def\<close>)
  next
    case False
    with Sk_server assms show ?thesis by (cases f) (auto simp: socks_accept_def pools_up_def)
  qed
qed (use assms in \<open>auto simp: pools_up_def pool_send_open\<close>)

lemma socks_up:
  "Sk_server Sv_token \<notin> set es \<Longrightarrow> pools_up (socks_run target es) \<and>
     (sr_open (socks_run target es) \<or> (\<exists>t. Sk_server (Sv_failed t) \<in> set es))"
proof (induction es rule: rev_induct)
  case Nil
  show ?case
    using socks_init_facts by (auto simp: socks_run_def pools_up_def server_accepting_def)
next
  case (snoc e es)
  then have "pools_up (socks_run target es)" "e \<noteq> Sk_server Sv_token" by auto
  from socks_step_up[OF this, of target] snoc show ?case by (auto simp: socks_run_append)
qed

lemma socks_joins:
  "fold (\<lambda>e s. socks_step target s e) (replicate n (Sk_server (Sv_join 0))) s =
     s\<lparr>sr_pool := (sr_pool s)\<lparr>po_loop :=
       fold (\<lambda>e l. receiver_step l e) (replicate n (Le_join 0)) (po_loop (sr_pool s))\<rparr>\<rparr>"
  "fold (\<lambda>e s. socks_step target s e) (replicate n (Sk_join 0)) s =
     s\<lparr>ss_sessions := (ss_sessions s)\<lparr>po_loop :=
       fold (\<lambda>e l. receiver_step l e) (replicate n (Le_join 0)) (po_loop (ss_sessions s))\<rparr>\<rparr>"
  by (induction n arbitrary: s) (simp_all add: socks_accept_def pool_join_def)

lemma socks_ends:
  assumes "\<not> sr_open (socks_run target es)"
  shows "\<exists>n k. socks_result (socks_run target (es @ [Sk_server Sv_token, Sk_server Sv_pool_cancelled, Sk_pool_cancelled] @
    replicate n (Sk_server (Sv_join 0)) @ replicate k (Sk_join 0))) = Some (Inr ())"
proof -
  let ?s = "fold (\<lambda>e s. socks_step target s e) [Sk_server Sv_token, Sk_server Sv_pool_cancelled, Sk_pool_cancelled]
      (socks_run target es)"
  let ?n = "length (ls_running (po_loop (sr_pool ?s)))" and ?k = "length (ls_running (po_loop (ss_sessions ?s)))"
  have t: "\<not> sr_open ?s" "\<not> ls_open (po_loop (sr_pool ?s))" "\<not> ls_open (po_loop (ss_sessions ?s))"
    using assms by (auto simp: socks_accept_def)
  have "socks_run target (es @ [Sk_server Sv_token, Sk_server Sv_pool_cancelled, Sk_pool_cancelled] @
      replicate ?n (Sk_server (Sv_join 0)) @ replicate ?k (Sk_join 0)) =
      fold (\<lambda>e s. socks_step target s e) (replicate ?k (Sk_join 0))
        (fold (\<lambda>e s. socks_step target s e) (replicate ?n (Sk_server (Sv_join 0))) ?s)"
    by (simp only: socks_run_append fold_append comp_apply)
  then have "socks_result (socks_run target (es @ [Sk_server Sv_token, Sk_server Sv_pool_cancelled, Sk_pool_cancelled] @
      replicate ?n (Sk_server (Sv_join 0)) @ replicate ?k (Sk_join 0))) = Some (Inr ())"
    using pool_drains[OF t(2)] pool_drains[OF t(3)] t(1) unfolding socks_joins
    by (simp add: socks_result_def)
  then show ?thesis by blast
qed

section \<open>Sessions and calls\<close>

text \<open>An address of the client is taken over unchanged or refused.\<close>

lemma socks_answer_replies:
  "sc_replies (snd (socks_answer r a c)) = sc_replies c \<or> sc_replies (snd (socks_answer r a c)) = sc_replies c @ [(r, a)]"
  by (auto simp: socks_answer_def split: option.split)

text \<open>
  A client is replied to at most once, by the handshake or by the session it leads to; a session
  that ends well has told its client that it succeeded.
\<close>

lemma session_replies:
  fixes sess :: "'h session"
  assumes "handshake_serve h cancelled auth cmd up c = (r, c1, Some sess)"
    and "session_serve ac cc sc dial taken cutoff net race relay sess = (r', c2)" "sc_replies c = []"
  shows "sc_replies c1 = [] \<and> length (sc_replies c2) \<le> 1 \<and>
    (r' = Inr () \<longrightarrow> (\<exists>a. sc_replies c2 = [(Reply_Succeeded, Some a)]))"
proof -
  from assms(1,3) have c1: "sc_replies c1 = []" and s: "sess = Session_Udp h c \<or> (\<exists>a. sess = Session_Tcp h c a)"
    by (auto simp: handshake_serve_def split: if_splits sum.splits socks_command.splits)
  from s assms(2,3) show ?thesis
    unfolding session_serve_def tcp_session_serve_def udp_session_serve_def socks_answer_def Let_def
    by (intro conjI c1; elim disjE exE)
      (auto split: prod.splits sum.splits option.splits if_splits)
qed

lemma address_try_from_exact:
  "address_try_from a = Inr b \<longleftrightarrow>
     (\<exists>x. a = Socks_SocketAddress x \<and> b = SocketAddress x) \<or>
     (\<exists>d p. a = Socks_DomainAddress d p \<and> valid_utf8 d \<and> b = DomainAddress (map (\<lambda>x. char_of (unat x)) d) p)"
  by (cases a) (auto simp: address_try_from_def string_from_utf8_def)

lemma socks_answer_up: "sc_reply_err c = None \<Longrightarrow>
    socks_answer r a c = (Inr (), c\<lparr>sc_replies := sc_replies c @ [(r, a)]\<rparr>)"
  by (simp add: socks_answer_def)

section \<open>Properties\<close>

text \<open>
  C34: one failed accept silences a SOCKS5 server.  Until the first accept error it takes every
  connection that arrives while the target is in the table, in order; after it takes none,
  but it does not return either, as its tasks wait for senders it still holds: it goes on
  as a worker that looks healthy until the token is cancelled, and only then ends.
\<close>

theorem socks_accept_stall:
  assumes "Sk_server Sv_token \<notin> set es" "\<forall>t. Sk_server (Sv_failed t) \<notin> set es"
    and "Sk_server Sv_token \<notin> set fs"
  shows
    "sr_passed (socks_run target es) = List.map_filter (socks_offer target) es \<and>
     sr_passed (socks_run target (es @ Sk_server (Sv_failed t) # fs)) = List.map_filter (socks_offer target) es \<and>
     socks_result (socks_run target (es @ Sk_server (Sv_failed t) # fs)) = None \<and>
     (\<exists>n k. socks_result (socks_run target ((es @ Sk_server (Sv_failed t) # fs) @
        [Sk_server Sv_token, Sk_server Sv_pool_cancelled, Sk_pool_cancelled] @
        replicate n (Sk_server (Sv_join 0)) @ replicate k (Sk_join 0))) = Some (Inr ()))"
proof (intro conjI)
  have up: "server_accepting (socks_run target es)"
    using socks_up[OF assms(1), of target] assms(2) by (auto simp: server_accepting_def pools_up_def)
  then show passed: "sr_passed (socks_run target es) = List.map_filter (socks_offer target) es"
    using socks.passed_run[of target socks_init es] by (simp add: socks_run_run socks_init_facts(2))
  have failed: "socks_run target (es @ Sk_server (Sv_failed t) # fs) =
      socks.run target ((socks_run target es)\<lparr>sr_open := False\<rparr>) fs"
    by (simp add: socks_run_append socks.run_def socks_accept_def)
  have "\<not> server_accepting ((socks_run target es)\<lparr>sr_open := False\<rparr>)" by (simp add: server_accepting_def)
  note closed = socks.stays_closed[OF this, of target fs]
  then show "sr_passed (socks_run target (es @ Sk_server (Sv_failed t) # fs)) = List.map_filter (socks_offer target) es"
    by (simp add: failed passed)
  have fs: "pools_up (socks_run target (es @ Sk_server (Sv_failed t) # fs))"
    using socks_up[of "es @ Sk_server (Sv_failed t) # fs"] assms(1,3) by auto
  then show "socks_result (socks_run target (es @ Sk_server (Sv_failed t) # fs)) = None"
    by (simp add: socks_result_def loop_result_def pools_up_def)
  have "\<not> server_accepting (socks_run target (es @ Sk_server (Sv_failed t) # fs))"
    using closed by (simp add: failed)
  with fs have "\<not> sr_open (socks_run target (es @ Sk_server (Sv_failed t) # fs))"
    by (simp add: server_accepting_def pools_up_def)
  then show "\<exists>n k. socks_result (socks_run target ((es @ Sk_server (Sv_failed t) # fs) @
        [Sk_server Sv_token, Sk_server Sv_pool_cancelled, Sk_pool_cancelled] @
        replicate n (Sk_server (Sv_join 0)) @ replicate k (Sk_join 0))) = Some (Inr ())"
    by (rule socks_ends)
qed

theorem socks_accept_stall_witness:
  "sr_passed (socks_run ''a'' ([Sk_server (Sv_conn sample_table (1 :: nat))] @ Sk_server (Sv_failed ''emfile'') #
      [Sk_server (Sv_conn sample_table 2), Sk_session ()])) = [\<lparr>hk_handle = 7, hk_stream = 1\<rparr>] \<and>
   socks_result (socks_run ''a'' ([Sk_server (Sv_conn sample_table (1 :: nat))] @ Sk_server (Sv_failed ''emfile'') #
      [Sk_server (Sv_conn sample_table 2), Sk_session ()])) = None"
  using socks_accept_stall[of "[Sk_server (Sv_conn sample_table (1 :: nat))]"
      "[Sk_server (Sv_conn sample_table 2), Sk_session ()]" "''a''" "''emfile''"]
  by (simp add: List.map_filter_simps accept_offer_def mgr.get_ins)


text \<open>
  C26: a SOCKS5 connect is the forwarding call with a reply in between.  A session accepts
  exactly the addresses whose host is valid UTF-8 and asks for that very target; its result
  and what becomes of the stream and of the data connection are those of \<open>tcp_forward\<close> on the
  same stream, and the client is told \<open>Succeeded\<close> with the node's address exactly if the
  node established the connection, before any of its data is relayed, and nothing else.
\<close>

theorem socks_connect_equiv:
  assumes "sc_reply_err c = None"
  shows
    "(case address_try_from address of
        Inl e \<Rightarrow> \<exists>d p. address = Socks_DomainAddress d p \<and> \<not> valid_utf8 d
      | Inr (SocketAddress a) \<Rightarrow> address = Socks_SocketAddress a
      | Inr (DomainAddress h p) \<Rightarrow>
          \<exists>d. address = Socks_DomainAddress d p \<and> h = map (\<lambda>x. char_of (unat x)) d) \<and>
     tcp_session_serve ac cc sc queued opened taken cutoff address c =
      (case address_try_from address of
         Inl e \<Rightarrow> (Inl e, c\<lparr>sc_replies := sc_replies c @ [(Reply_AddressTypeNotSupported, None)]\<rparr>, None)
       | Inr target \<Rightarrow>
           (case client_tcp_forward ac cc sc queued (map_sum id (link_with (sc_data c)) opened) taken cutoff
                  (socks_params target) of
              (r, t) \<Rightarrow>
                (r,
                 (case handle_exec_ack ac cc sc queued (map_sum id (link_with (sc_data c)) opened) None
                        (Command_TcpForward (socks_params target)) (\<lambda>_. hand_over taken (relay_executor cutoff)) of
                    Inl _ \<Rightarrow> c
                  | Inr addr \<Rightarrow>
                      c\<lparr>sc_replies := sc_replies c @ [(Reply_Succeeded, Some (Socks_SocketAddress addr))]\<rparr>), t)))"
proof
  show "case address_try_from address of
        Inl e \<Rightarrow> \<exists>d p. address = Socks_DomainAddress d p \<and> \<not> valid_utf8 d
      | Inr (SocketAddress a) \<Rightarrow> address = Socks_SocketAddress a
      | Inr (DomainAddress h p) \<Rightarrow>
          \<exists>d. address = Socks_DomainAddress d p \<and> h = map (\<lambda>x. char_of (unat x)) d"
    by (cases address) (auto simp: address_try_from_def string_from_utf8_def)
  show "tcp_session_serve ac cc sc queued opened taken cutoff address c =
      (case address_try_from address of
         Inl e \<Rightarrow> (Inl e, c\<lparr>sc_replies := sc_replies c @ [(Reply_AddressTypeNotSupported, None)]\<rparr>, None)
       | Inr target \<Rightarrow>
           (case client_tcp_forward ac cc sc queued (map_sum id (link_with (sc_data c)) opened) taken cutoff
                  (socks_params target) of
              (r, t) \<Rightarrow>
                (r,
                 (case handle_exec_ack ac cc sc queued (map_sum id (link_with (sc_data c)) opened) None
                        (Command_TcpForward (socks_params target)) (\<lambda>_. hand_over taken (relay_executor cutoff)) of
                    Inl _ \<Rightarrow> c
                  | Inr addr \<Rightarrow>
                      c\<lparr>sc_replies := sc_replies c @ [(Reply_Succeeded, Some (Socks_SocketAddress addr))]\<rparr>), t)))"
    by (auto simp: tcp_session_serve_def client_tcp_forward_def two_stage_call_def socks_answer_up[OF assms]
        after_reply_def split: sum.split)
qed

definition sample_client :: "bytes \<Rightarrow> socks_conn" where
  "sample_client up = \<lparr>sc_replies = [], sc_reply_err = None, sc_data = stream_of up\<rparr>"

lemma sample_client_simps [simp]:
  "sc_replies (sample_client up) = []" "sc_reply_err (sample_client up) = None" "sc_data (sample_client up) = stream_of up"
  by (simp_all add: sample_client_def)

theorem socks_connect_equiv_witness:
  "fst (snd (tcp_session_serve sample_ack (table_codec [(Command_TcpForward (socks_params (SocketAddress sample_addr)), [9])])
      (table_codec [(sample_addr, [8])]) True
      (Inr (stream_of (ack_frame @ small_frame Method_Command OPTION_NONE 8 @ [3, 4]))) True None
      (Socks_SocketAddress sample_addr) (sample_client [1, 2]))) =
    (sample_client [1, 2])\<lparr>sc_replies := [(Reply_Succeeded, Some (Socks_SocketAddress sample_addr))]\<rparr>"
proof -
  let ?cc = "table_codec [(Command_TcpForward (socks_params (SocketAddress sample_addr)), [9])]"
  let ?s = "stream_of (ack_frame @ small_frame Method_Command OPTION_NONE 8 @ [3, 4])"
  have "fst (two_stage_call sample_ack ?cc (table_codec [(sample_addr, [8])]) True
      (Inr (link_with (stream_of [1, 2]) ?s)) None
      (Command_TcpForward (socks_params (SocketAddress sample_addr))) (\<lambda>_. hand_over True (relay_executor None))) = Inr sample_addr"
    by (subst two_stage_call_run[OF sample_ack_facts(1) single_codec_ok single_framed sample_ack_framed single_framed
        option_none_ok, where rest = "[3, 4]" and taken = True and executor = "relay_executor None"]) simp_all
  then have "handle_exec_ack sample_ack ?cc (table_codec [(sample_addr, [8])]) True
      (Inr (link_with (stream_of [1, 2]) ?s)) None
      (Command_TcpForward (socks_params (SocketAddress sample_addr))) (\<lambda>_. hand_over True (relay_executor None)) = Inr sample_addr"
    by (simp add: two_stage_call_def)
  then show ?thesis
    using socks_connect_equiv[of "sample_client [1, 2]" "Socks_SocketAddress sample_addr" sample_ack ?cc
        "table_codec [(sample_addr, [8])]" True "Inr ?s" True None]
    by (simp add: address_try_from_def split: prod.split)
qed

text \<open>
  C37: the two sessions treat a refusing node differently.  If the node cannot connect to the
  target it answers with its error and the session fails with that number, but the SOCKS5
  client of a connect gets no reply at all; if the node cannot bind a socket, the client of
  an association is told that the network is unreachable.
\<close>

theorem socks_refusal:
  fixes w :: "'z world_scheme" and s' :: "'y stream_scheme"
  assumes "codec_ok (sv_ack sv)" "codec_ok cc" "address_try_from address = Inr target" "sc_reply_err c = None"
    and "framed cc Method_Command OPTION_NONE (Command_TcpForward (socks_params target)) b"
    and "framed cc Method_Command OPTION_NONE (Command_UdpForward None) b'"
    and "framed (sv_ack sv) Method_Command OPTION_NONE ack_success k"
    and "tcp_connect (sv_lookup sv) (sv_net sv) (socks_params target) = Inl e"
    and "framed (sv_ack sv) Method_Command OPTION_ERROR (ack_from_error e) m"
    and "prepare_socket (sv_bind sv) None = Inl e'" "udp_session_prepare net = Inr prepared"
    and "framed (sv_ack sv) Method_Command OPTION_ERROR (ack_from_error e') m'"
    and "rx w = []" "tx w = []" "tx_cap w = None"
    and "rx s = k @ m" "tx_cap s = None" "rx s' = k @ m'" "tx_cap s' = None"
  shows
    "(\<exists>w'. serve_stream sv cc st meta (w\<lparr>rx := b\<rparr>) = (Inl e, w') \<and> tx w' = rx s) \<and>
     (\<exists>t. tcp_session_serve (sv_ack sv) cc (sv_addr sv) True (Inr s) taken cutoff address c =
        (Inl (ErrorCode (err_no e)), c, Some t)) \<and>
     (\<exists>w'. serve_stream sv cc st meta (w\<lparr>rx := b'\<rparr>) = (Inl e', w') \<and> tx w' = rx s') \<and>
     (\<exists>t. udp_session_serve (sv_ack sv) cc (sv_addr sv) True (Inr s') taken net race relay c =
        (Inl (ErrorCode (err_no e')), c\<lparr>sc_replies := sc_replies c @ [(Reply_NetworkUnreachable, None)]\<rparr>, Some t))"
proof (intro conjI)
  have empty: "w\<lparr>rx := []\<rparr> = w" using assms(13) by (cases w) simp
  have node: "serve_stream sv cc st meta (w\<lparr>rx := bs\<rparr>) =
      command_handle sv st cmd (head_of Method_Command OPTION_NONE bs) w"
    if "framed cc Method_Command OPTION_NONE cmd bs" for cmd bs
    using serve_stream_command[OF assms(2) that, of "w\<lparr>rx := bs\<rparr>" "[]"] by (simp add: empty)
  have ack: "write_message (sv_ack sv) Method_Command OPTION_NONE ack_success w = (Inr (), w\<lparr>tx := k\<rparr>)"
    using assms(14,15) by (simp add: write_message_up[OF assms(7)])
  have err: "write_error (sv_ack sv) Method_Command OPTION_NONE x (w\<lparr>tx := k\<rparr>) = (Inr (), w\<lparr>tx := k @ d\<rparr>)"
    if "framed (sv_ack sv) Method_Command OPTION_ERROR (ack_from_error x) d" for x d
    using assms(15) that by (simp add: write_error_up)
  show "\<exists>w'. serve_stream sv cc st meta (w\<lparr>rx := b\<rparr>) = (Inl e, w') \<and> tx w' = rx s"
    using assms(8,16) by (simp add: node[OF assms(5)] command_handle_def tcp_forward_handle_def ack err[OF assms(9)])
  show "\<exists>w'. serve_stream sv cc st meta (w\<lparr>rx := b'\<rparr>) = (Inl e', w') \<and> tx w' = rx s'"
    using assms(10,18)
    by (simp add: node[OF assms(6)] command_handle_def udp_forward_handle_def andthen_def ack err[OF assms(12)])
  have oe: "OPTION_ERROR AND OPTION_ERROR = OPTION_ERROR" by simp
  show "\<exists>t. tcp_session_serve (sv_ack sv) cc (sv_addr sv) True (Inr s) taken cutoff address c =
      (Inl (ErrorCode (err_no e)), c, Some t)"
    using assms(3,16,17)
    by (simp add: tcp_session_serve_def Let_def
        two_stage_call_refused[OF assms(1,5,7,9) oe, where rest = "[]"])
  show "\<exists>t. udp_session_serve (sv_ack sv) cc (sv_addr sv) True (Inr s') taken net race relay c =
      (Inl (ErrorCode (err_no e')), c\<lparr>sc_replies := sc_replies c @ [(Reply_NetworkUnreachable, None)]\<rparr>, Some t)"
    using assms(4,11,18,19)
    by (cases prepared) (simp add: udp_session_serve_def Let_def socks_answer_up
        two_stage_call_refused[OF assms(1,6,7,12) oe, where rest = "[]"])
qed

definition sample_ack_io :: "ack_message codec" where
  "sample_ack_io = table_codec [(ack_success, [0]), (ack_from_error (ErrorCode TIMEOUT_ERROR), [2]),
     (ack_from_error (IO ''denied''), [3])]"

lemma sample_ack_io_facts:
  "codec_ok sample_ack_io" "framed sample_ack_io me op ack_success (small_frame me op 0)"
  "framed sample_ack_io me op (ack_from_error (ErrorCode TIMEOUT_ERROR)) (small_frame me op 2)"
  "framed sample_ack_io me op (ack_from_error (IO ''denied'')) (small_frame me op 3)"
  unfolding sample_ack_io_def
  by (rule table_codec_ok, simp) (rule small_framed, simp add: table_codec_def ack_success_def error_codes)+

definition sample_refusing :: "unit services" where
  "sample_refusing = (sample_services sample_ack (table_codec []) (table_codec []))
     \<lparr>sv_net := \<lparr>tn_connect = (\<lambda>_ _. Connect_timeout), tn_keepalive = (\<lambda>_. None), tn_nodelay = None,
        tn_local = Inr sample_addr\<rparr>, sv_bind := (\<lambda>_. Inl ''denied''), sv_ack := sample_ack_io\<rparr>"

definition sample_udp_net :: udp_net where
  "sample_udp_net = \<lparr>un_peer = Inr (SocketAddrV4 [127, 0, 0, 1] 40000), un_bind = (\<lambda>_. None),
     un_connect = (\<lambda>_. None), un_local = Inr (SocketAddrV4 [127, 0, 0, 1] 50000)\<rparr>"

theorem socks_refusal_witness:
  "(\<exists>t. tcp_session_serve sample_ack_io
        (table_codec [(Command_TcpForward (socks_params (SocketAddress sample_addr)), [9]), (Command_UdpForward None, [10])])
        (table_codec []) True (Inr (stream_of (ack_frame @ small_frame Method_Command OPTION_ERROR 2))) True None
        (Socks_SocketAddress sample_addr) (sample_client []) = (Inl (ErrorCode TIMEOUT_ERROR), sample_client [], Some t)) \<and>
   (\<exists>t. udp_session_serve sample_ack_io
        (table_codec [(Command_TcpForward (socks_params (SocketAddress sample_addr)), [9]), (Command_UdpForward None, [10])])
        (table_codec []) True (Inr (stream_of (ack_frame @ small_frame Method_Command OPTION_ERROR 3))) True sample_udp_net
        Ur_copied (ret ()) (sample_client []) =
      (Inl (ErrorCode UNKNOWN_ERROR),
       (sample_client [])\<lparr>sc_replies := [(Reply_NetworkUnreachable, None)]\<rparr>, Some t))"
proof -
  let ?cc = "table_codec [(Command_TcpForward (socks_params (SocketAddress sample_addr)), [9]), (Command_UdpForward None, [10])]"
  have cc: "codec_ok ?cc" by (rule table_codec_ok) simp
  have f: "framed ?cc Method_Command OPTION_NONE (Command_TcpForward (socks_params (SocketAddress sample_addr)))
      (small_frame Method_Command OPTION_NONE 9)"
    "framed ?cc Method_Command OPTION_NONE (Command_UdpForward None) (small_frame Method_Command OPTION_NONE 10)"
    by (rule small_framed, simp add: table_codec_def)+
  have sv: "sv_ack sample_refusing = sample_ack_io" "sv_addr sample_refusing = table_codec []"
    by (simp_all add: sample_refusing_def sample_services_def)
  have net: "tcp_connect (sv_lookup sample_refusing) (sv_net sample_refusing) (socks_params (SocketAddress sample_addr)) =
      Inl (ErrorCode TIMEOUT_ERROR)" "prepare_socket (sv_bind sample_refusing) None = Inl (IO ''denied'')"
    by (simp_all add: sample_refusing_def tcp_connect_def resolve_def socks_params_def prepare_socket_def)
  have udp: "udp_session_prepare sample_udp_net = Inr (SocketAddrV4 [127, 0, 0, 1] 50000, SocketAddrV4 [127, 0, 0, 1] 40000)"
    by (simp add: udp_session_prepare_def sample_udp_net_def)
  have addr: "address_try_from (Socks_SocketAddress sample_addr) = Inr (SocketAddress sample_addr)"
    by (simp add: address_try_from_def)
  note run = socks_refusal[where sv = sample_refusing and cc = ?cc and w = "world_of [] sample_fs" and st = sample_stops
      and meta = sample_caller and taken = True and cutoff = None and race = Ur_copied and relay = "ret ()"
      and s = "stream_of (ack_frame @ small_frame Method_Command OPTION_ERROR 2)"
      and s' = "stream_of (ack_frame @ small_frame Method_Command OPTION_ERROR 3)", unfolded sv,
      OF sample_ack_io_facts(1) cc addr sample_client_simps(2) f sample_ack_io_facts(2) net(1) sample_ack_io_facts(3)
      net(2) udp sample_ack_io_facts(4)]
  show ?thesis using run[of "[]"] by simp
qed

text \<open>
  An association does not deliver to the destinations its client names.  The socket is
  connected to the peer of the control connection, so every datagram comes from there; each
  is sent on whole, as long as it fits the buffer, with its SOCKS5 header left in the
  payload, and addressed to the client itself, whatever destination that header names.
\<close>

lemma socks_udp_misaddressed:
  fixes s :: "'z stream_scheme"
  assumes "udp_session_prepare net = Inr (local_addr, peer)" "tx_cap s = None"
    and "list_all (\<lambda>d. length d \<le> UDP_FORWARD_MTU) ds"
  shows "un_peer net = Inr peer \<and>
    udp_session_executor Ur_copied (udp_relay lookup send (map (\<lambda>d. Inr (peer, d)) ds) fires) tok s =
      (Inl (if fires then ErrorCode CANCELED_ERROR else fst (udp_copy lookup send (replicate UDP_FORWARD_MTU 0) s)),
       s\<lparr>tx := tx s @ concat (map (\<lambda>d. packet_bytes d peer) ds), rx := (if fires then rx s else [])\<rparr>)"
proof
  show "un_peer net = Inr peer"
    using assms(1) by (auto simp: udp_session_prepare_def split: sum.splits option.splits)
  have "udp_copy_back lookup (map Inr (map (Pair peer) ds)) s =
      (None, s\<lparr>tx := tx s @ concat (map (\<lambda>(a, d). packet_bytes (take UDP_FORWARD_MTU d) a) (map (Pair peer) ds))\<rparr>)"
    by (rule udp_copy_back_up[OF assms(2)])
  moreover have "concat (map (\<lambda>(a, d). packet_bytes (take UDP_FORWARD_MTU d) a) (map (Pair peer) ds)) =
      concat (map (\<lambda>d. packet_bytes d peer) ds)"
    using assms(3) by (induction ds) simp_all
  ultimately show "udp_session_executor Ur_copied (udp_relay lookup send (map (\<lambda>d. Inr (peer, d)) ds) fires) tok s =
      (Inl (if fires then ErrorCode CANCELED_ERROR else fst (udp_copy lookup send (replicate UDP_FORWARD_MTU 0) s)),
       s\<lparr>tx := tx s @ concat (map (\<lambda>d. packet_bytes d peer) ds), rx := (if fires then rx s else [])\<rparr>)"
    by (simp add: udp_session_executor_def udp_relay_def comp_def)
qed

lemma socks_udp_misaddressed_witness:
  "udp_session_executor Ur_copied
      (udp_relay (\<lambda>_ _. Inr []) (\<lambda>_ _. Inr 0) (map (\<lambda>d. Inr (SocketAddrV4 [127, 0, 0, 1] 40000, d))
        [[0, 0, 0, 1, 8, 8, 8, 8, 0, 53, 42]]) True) None (stream_of []) =
     (Inl (ErrorCode CANCELED_ERROR),
      (stream_of [])\<lparr>tx := packet_bytes [0, 0, 0, 1, 8, 8, 8, 8, 0, 53, 42] (SocketAddrV4 [127, 0, 0, 1] 40000)\<rparr>)"
proof -
  have "udp_session_prepare sample_udp_net = Inr (SocketAddrV4 [127, 0, 0, 1] 50000, SocketAddrV4 [127, 0, 0, 1] 40000)"
    by (simp add: udp_session_prepare_def sample_udp_net_def)
  from socks_udp_misaddressed[OF this, of "stream_of []" "[[0, 0, 0, 1, 8, 8, 8, 8, 0, 53, 42]]" "\<lambda>_ _. Inr []"
      "\<lambda>_ _. Inr 0" True None]
  show ?thesis by (simp add: UDP_FORWARD_MTU_def stream_of_def)
qed

end
