(* ===== verification/Crab_Start.thy ===== *)
theory Crab_Start
  imports Crab_Tls Crab_Endpoint Crab_Api Crab_Socks
begin

text \<open>
  \<^verbatim>\<open>src/src/app/config.rs\<close>, \<^verbatim>\<open>src/src/app/provider.rs\<close>, \<^verbatim>\<open>src/src/main.rs\<close>, the set-up of the
  endpoint in \<^verbatim>\<open>src/src/crab/endpoint.rs\<close>, and the end of the program on a signal
  (\<^verbatim>\<open>src/src/crab/utils/runit.rs\<close>, \<^verbatim>\<open>runit/linux.rs\<close>, \<^verbatim>\<open>runit/win.rs\<close>).

  Reading a file, the TOML parser and QUIC are parameters.
\<close>

section \<open>The configuration\<close>

record endpoint_config =
  ec_bind_address :: socket_addr
  ec_listen :: bool
  ec_remote_addr :: "string list option"
  ec_options :: options

record app_config =
  cf_node_id :: string
  cf_http_api :: "socket_addr option"
  cf_endpoint :: endpoint_config
  cf_tls :: tls_config
  cf_tcp_forward :: "tcp_forward_option list option"
  cf_socks5_proxy :: "socks_config list option"

text \<open>A text that starts with \<open>@\<close> names the file that holds the configuration.\<close>

definition config_from_str ::
  "(string \<Rightarrow> ext_error + string) \<Rightarrow> (string \<Rightarrow> ext_error + app_config) \<Rightarrow> string \<Rightarrow> crab_error + app_config" where
  "config_from_str read_to_string from_toml s =
    (case s of
       CHR ''@'' # filename \<Rightarrow>
         (case read_to_string filename of
            Inl e \<Rightarrow> Inl (IO e)
          | Inr content \<Rightarrow>
              (case from_toml content of Inl _ \<Rightarrow> Inl (ErrorCode PARSE_ERROR) | Inr cfg \<Rightarrow> Inr cfg))
     | _ \<Rightarrow> (case from_toml s of Inl _ \<Rightarrow> Inl (ErrorCode PARSE_ERROR) | Inr cfg \<Rightarrow> Inr cfg))"

section \<open>The endpoint\<close>

text \<open>\<open>ql_server\<close>, \<open>ql_client\<close>: whether QUIC accepts a TLS configuration.\<close>

record ('cert, 'key) quic_lib =
  ql_server :: "('cert, 'key) server_config \<Rightarrow> ext_error option"
  ql_client :: "('cert, 'key) client_config \<Rightarrow> ext_error option"
  ql_bind :: "socket_addr \<Rightarrow> ext_error option"
  ql_local_addr :: "socket_addr \<Rightarrow> ext_error + socket_addr"

record ('cert, 'key) local_endpoint =
  le_cfg :: endpoint_config
  le_server :: "('cert, 'key) server_config"
  le_client :: "('cert, 'key) client_config"
  le_local_addr :: socket_addr

definition local_endpoint_new ::
  "('f, 'cert, 'key) tls_lib \<Rightarrow> ('cert, 'key) quic_lib \<Rightarrow> tls_config \<Rightarrow> endpoint_config
    \<Rightarrow> crab_error + ('cert, 'key) local_endpoint" where
  "local_endpoint_new lib ql tls cfg =
    (case build_server_config lib tls of
       Inl e \<Rightarrow> Inl e
     | Inr sc \<Rightarrow>
    (case ql_server ql sc of
       Some _ \<Rightarrow> Inl (ErrorCode CRYPTO_ERROR)
     | None \<Rightarrow>
    (case build_client_config lib tls of
       Inl e \<Rightarrow> Inl e
     | Inr cc \<Rightarrow>
    (case ql_client ql cc of
       Some _ \<Rightarrow> Inl (ErrorCode CRYPTO_ERROR)
     | None \<Rightarrow>
    (case ql_bind ql (ec_bind_address cfg) of
       Some e \<Rightarrow> Inl (IO e)
     | None \<Rightarrow>
    (case ql_local_addr ql (ec_bind_address cfg) of
       Inl e \<Rightarrow> Inl (IO e)
     | Inr local_addr \<Rightarrow>
         Inr \<lparr>le_cfg = cfg, le_server = sc, le_client = cc, le_local_addr = local_addr\<rparr>))))))"

section \<open>The services of the node\<close>

record ('cert, 'key) http_client =
  hc_tls :: "('cert, 'key) client_config"
  hc_connect_timeout :: nat

definition http_client_create ::
  "('f, 'cert, 'key) tls_lib \<Rightarrow> tls_config \<Rightarrow> crab_error + ('cert, 'key) http_client" where
  "http_client_create lib tls =
    (case build_client_config lib tls of
       Inl e \<Rightarrow> Inl e
     | Inr cc \<Rightarrow> Inr \<lparr>hc_tls = cc, hc_connect_timeout = 15\<rparr>)"

record ('h, 'cert, 'key) provider =
  pv_local_node_id :: string
  pv_tls :: tls_config
  pv_manager :: "'h manager"
  pv_http_client :: "('cert, 'key) http_client"

definition service_provider_new ::
  "('f, 'cert, 'key) tls_lib \<Rightarrow> string \<Rightarrow> tls_config \<Rightarrow> crab_error + ('h, 'cert, 'key) provider" where
  "service_provider_new lib node_id cfg =
    (case http_client_create lib cfg of
       Inl e \<Rightarrow> Inl e
     | Inr client \<Rightarrow>
         Inr \<lparr>pv_local_node_id = node_id, pv_tls = cfg, pv_manager = manager_new, pv_http_client = client\<rparr>)"

section \<open>The end on a signal\<close>

text \<open>
  \<open>wait_exit\<close>: registering the two signals may fail; otherwise it waits for one (on Windows also
  for the token), and then cancels the token.  The pair is its result, if it is over, and
  whether it cancels the token.
\<close>

definition wait_exit_linux ::
  "ext_error option \<Rightarrow> ext_error option \<Rightarrow> bool \<Rightarrow> (crab_error + unit) option \<times> bool" where
  "wait_exit_linux sig_int sig_term signalled =
    (case sig_int of
       Some e \<Rightarrow> (Some (Inl (IO e)), False)
     | None \<Rightarrow>
         (case sig_term of
            Some e \<Rightarrow> (Some (Inl (IO e)), False)
          | None \<Rightarrow> if signalled then (Some (Inr ()), True) else (None, False)))"

definition wait_exit_win ::
  "ext_error option \<Rightarrow> ext_error option \<Rightarrow> bool \<Rightarrow> bool \<Rightarrow> (crab_error + unit) option \<times> bool" where
  "wait_exit_win ctrl_c ctrl_close signalled cancelled =
    (case ctrl_c of
       Some e \<Rightarrow> (Some (Inl (IO e)), False)
     | None \<Rightarrow>
         (case ctrl_close of
            Some e \<Rightarrow> (Some (Inl (IO e)), False)
          | None \<Rightarrow> if signalled \<or> cancelled then (Some (Inr ()), True) else (None, False)))"

text \<open>\<open>WaitExitWorker\<close>: the worker runs with a token that \<open>wait_exit\<close> cancels; its result is the result.\<close>

definition wait_exit_serve :: "(bool \<Rightarrow> 'r) \<Rightarrow> (crab_error + unit) option \<times> bool \<Rightarrow> 'r" where
  "wait_exit_serve worker_serve waited = worker_serve (snd waited)"

section \<open>The workers of the program\<close>

datatype app_worker =
  Worker_api socket_addr | Worker_forward tcp_forward_option | Worker_socks socks_config
  | Worker_endpoint endpoint_config

record features =
  ft_api :: bool
  ft_tcp_forward :: bool
  ft_socks5 :: bool

definition app_workers :: "features \<Rightarrow> app_config \<Rightarrow> app_worker list" where
  "app_workers ft cfg =
    (if ft_api ft then (case cf_http_api cfg of Some addr \<Rightarrow> [Worker_api addr] | None \<Rightarrow> []) else []) @
    (if ft_tcp_forward ft
     then (case cf_tcp_forward cfg of Some rules \<Rightarrow> map Worker_forward rules | None \<Rightarrow> []) else []) @
    (if ft_socks5 ft
     then (case cf_socks5_proxy cfg of Some rules \<Rightarrow> map Worker_socks rules | None \<Rightarrow> []) else []) @
    [Worker_endpoint (cf_endpoint cfg)]"

text \<open>
  What happens to the workers while they run: the addresses that cannot be bound, the events
  of the servers, the end of the HTTP server and of the parts of the endpoint.
\<close>

record ('h, 'c, 's) activity =
  ay_bind :: "socket_addr \<Rightarrow> ext_error option"
  ay_tune :: "keepalive \<Rightarrow> 'c \<Rightarrow> ext_error option"
  ay_forward :: "tcp_forward_option \<Rightarrow> ('h, 'c) server_event list"
  ay_socks :: "socks_config \<Rightarrow> ('h, 'c, 's) socks_event list"
  ay_http :: "ext_error option"
  ay_parts :: "endpoint_part \<Rightarrow> join_result option"

definition run_once :: "'w \<Rightarrow> (crab_error + unit) option \<Rightarrow> (crab_error + unit) option" where
  "run_once w outcome = map_option (\<lambda>r. fst (once_runner_serve (\<lambda>_. r) (once_runner_new w))) outcome"

definition app_worker_serve :: "('h, 'c, 's) activity \<Rightarrow> app_worker \<Rightarrow> (crab_error + unit) option" where
  "app_worker_serve ay w =
    (case w of
       Worker_api addr \<Rightarrow> Some (snd (base_api_serve [Inr ctrl_serve] [] (ay_bind ay addr) (ay_http ay)))
     | Worker_forward opt \<Rightarrow> run_once opt (forwarder_serve (ay_bind ay) opt (ay_tune ay) (ay_forward ay opt))
     | Worker_socks cfg \<Rightarrow> run_once cfg (socks_serve (ay_bind ay) cfg (ay_socks ay cfg))
     | Worker_endpoint cfg \<Rightarrow> endpoint_serve (ec_listen cfg) (ec_remote_addr cfg \<noteq> None) (ay_parts ay))"

text \<open>
  The workers together: \<open>order n\<close> is the order in which the \<open>n\<close> workers finish.  The vector is
  served once all of them have finished.
\<close>

definition run_workers ::
  "(nat \<Rightarrow> nat list) \<Rightarrow> ('h, 'c, 's) activity \<Rightarrow> app_worker list \<Rightarrow> (crab_error + unit) option" where
  "run_workers order ay ws =
    (let outcomes = map (app_worker_serve ay) ws in
     if None \<in> set outcomes then None
     else Some (snd (vec_serve (map (\<lambda>i. Inr (the (outcomes ! i))) (order (length ws))))))"

section \<open>The program\<close>

definition DEFAULT_CONFIG_FILE :: string where "DEFAULT_CONFIG_FILE = ''@config.toml''"

datatype exit_code = EXIT_SUCCESS | EXIT_FAILURE

text \<open>\<open>activity c\<close> is what happens if the token is cancelled (\<open>c\<close>), or is not.\<close>

definition app_start ::
  "features \<Rightarrow> ('f, 'cert, 'key) tls_lib \<Rightarrow> ('cert, 'key) quic_lib \<Rightarrow> (nat \<Rightarrow> nat list)
    \<Rightarrow> (bool \<Rightarrow> ('h, 'c, 's) activity) \<Rightarrow> (crab_error + unit) option \<times> bool \<Rightarrow> app_config
    \<Rightarrow> (crab_error + unit) option" where
  "app_start ft lib ql order activity waited cfg =
    (case (service_provider_new lib (cf_node_id cfg) (cf_tls cfg) :: crab_error + ('h, 'cert, 'key) provider) of
       Inl e \<Rightarrow> Some (Inl e)
     | Inr pv \<Rightarrow>
         (case local_endpoint_new lib ql (pv_tls pv) (cf_endpoint cfg) of
            Inl e \<Rightarrow> Some (Inl e)
          | Inr _ \<Rightarrow>
              wait_exit_serve (\<lambda>cancelled. run_workers order (activity cancelled) (app_workers ft cfg)) waited))"

definition app_main ::
  "(string \<Rightarrow> ext_error + string) \<Rightarrow> (string \<Rightarrow> ext_error + app_config) \<Rightarrow> features
    \<Rightarrow> ('f, 'cert, 'key) tls_lib \<Rightarrow> ('cert, 'key) quic_lib \<Rightarrow> (nat \<Rightarrow> nat list)
    \<Rightarrow> (bool \<Rightarrow> ('h, 'c, 's) activity) \<Rightarrow> (crab_error + unit) option \<times> bool \<Rightarrow> exit_code option" where
  "app_main read_to_string from_toml ft lib ql order activity waited =
    (case config_from_str read_to_string from_toml DEFAULT_CONFIG_FILE of
       Inl _ \<Rightarrow> Some EXIT_FAILURE
     | Inr cfg \<Rightarrow>
         map_option (\<lambda>r. case r of Inl _ \<Rightarrow> EXIT_FAILURE | Inr _ \<Rightarrow> EXIT_SUCCESS)
           (app_start ft lib ql order activity waited cfg))"

section \<open>Lemmas\<close>

lemma vec_serve_Inr: "snd (vec_serve rs) = Inr () \<longleftrightarrow> (\<forall>r \<in> set rs. join_error r = None)"
proof -
  have "List.map_filter join_error rs = [] \<longleftrightarrow> (\<forall>r \<in> set rs. join_error r = None)"
    by (induction rs) (auto simp: List.map_filter_simps split: option.split)
  then show ?thesis
    by (auto simp: vec_serve_def vec_serve_loop_none split: list.split)
qed

lemma join_error_None: "join_error (Inr r) = None \<longleftrightarrow> r = Inr ()"
  by (cases r) auto

lemma run_workers_Inr:
  assumes "mset (order (length ws)) = mset [0..<length ws]"
  shows "run_workers order ay ws = Some (Inr ()) \<longleftrightarrow> (\<forall>w \<in> set ws. app_worker_serve ay w = Some (Inr ()))"
proof (cases "\<exists>w \<in> set ws. app_worker_serve ay w = None")
  case True
  then show ?thesis by (force simp: run_workers_def Let_def image_iff)
next
  case False
  then have "None \<notin> app_worker_serve ay ` set ws" by (auto simp: image_iff)
  moreover have "set (order (length ws)) = {0..<length ws}" using assms mset_eq_setD by fastforce
  moreover have "(\<forall>i \<in> {0..<length ws}. the (map (app_worker_serve ay) ws ! i) = Inr ()) \<longleftrightarrow>
      (\<forall>w \<in> set ws. the (app_worker_serve ay w) = Inr ())"
    by (auto simp: all_set_conv_all_nth)
  moreover have "(\<forall>w \<in> set ws. the (app_worker_serve ay w) = Inr ()) \<longleftrightarrow>
      (\<forall>w \<in> set ws. app_worker_serve ay w = Some (Inr ()))"
    using False by (metis option.collapse option.sel)
  ultimately show ?thesis
    by (simp add: run_workers_def Let_def vec_serve_Inr join_error_None)
qed

lemma exit_success: "(case r of Inl _ \<Rightarrow> EXIT_FAILURE | Inr _ \<Rightarrow> EXIT_SUCCESS) = EXIT_SUCCESS \<longleftrightarrow> r = Inr ()"
  by (cases r) auto

lemma provider_of_endpoint:
  "local_endpoint_new lib ql tls cfg = Inr ep \<Longrightarrow> \<exists>pv. service_provider_new lib node_id tls = Inr pv \<and> pv_tls pv = tls"
  by (auto simp: local_endpoint_new_def service_provider_new_def http_client_create_def try_Inr)

lemma provider_tls: "service_provider_new lib node_id tls = Inr pv \<Longrightarrow> pv_tls pv = tls"
  by (auto simp: service_provider_new_def try_Inr)

lemma app_start_Inr:
  fixes activity :: "bool \<Rightarrow> ('h, 'c, 's) activity"
    and lib :: "('f, 'cert, 'key) tls_lib"
  assumes "\<And>n. mset (order n) = mset [0..<n]"
  shows "app_start ft lib ql order activity waited cfg = Some (Inr ()) \<longleftrightarrow>
    (\<exists>ep. local_endpoint_new lib ql (cf_tls cfg) (cf_endpoint cfg) = Inr ep) \<and>
    (\<forall>w \<in> set (app_workers ft cfg). app_worker_serve (activity (snd waited)) w = Some (Inr ()))"
proof (cases "local_endpoint_new lib ql (cf_tls cfg) (cf_endpoint cfg)")
  case (Inl e)
  then show ?thesis by (auto simp: app_start_def dest: provider_tls split: sum.split)
next
  case (Inr ep)
  from provider_of_endpoint[OF this] obtain pv
    where "(service_provider_new lib (cf_node_id cfg) (cf_tls cfg) :: crab_error + ('h, 'cert, 'key) provider) = Inr pv"
      "pv_tls pv = cf_tls cfg" by blast
  with Inr run_workers_Inr[of order "app_workers ft cfg" "activity (snd waited)", OF assms]
  show ?thesis by (simp add: app_start_def wait_exit_serve_def)
qed

lemma run_once_outcome [simp]: "run_once w outcome = outcome"
  by (simp add: run_once_def once_runner_new_def once_runner_serve_def option.map_ident)

lemma bound_of_serve:
  "app_worker_serve ay (Worker_api a) = Some (Inr ()) \<Longrightarrow> ay_bind ay a = None"
  "app_worker_serve ay (Worker_forward opt) = Some (Inr ()) \<Longrightarrow> ay_bind ay (fo_listen opt) = None"
  "app_worker_serve ay (Worker_socks so) = Some (Inr ()) \<Longrightarrow> ay_bind ay (so_listen so) = None"
  by (auto simp: app_worker_serve_def base_api_serve_def vec_serve_def http_worker_serve_def ctrl_serve_def
      forwarder_serve_def socks_serve_def split: option.splits)

section \<open>Properties\<close>

text \<open>
  C31: the exit code tells whether everything went well.  The program ends with success if and
  only if \<open>config.toml\<close> can be read and parsed, the TLS and QUIC configurations of both sides
  can be built and the endpoint's address bound, and every configured worker has ended without
  an error, in whatever order they end; in particular every listening address of the HTTP
  interface, the forwarding rules and the SOCKS5 proxies has been bound, one that is taken
  ends the whole node.
\<close>

theorem program_exit:
  assumes "\<And>n. mset (order n) = mset [0..<n]"
  shows "app_main read_to_string from_toml ft lib ql order activity waited = Some EXIT_SUCCESS \<longleftrightarrow>
    (\<exists>content cfg ep. read_to_string ''config.toml'' = Inr content \<and> from_toml content = Inr cfg \<and>
       local_endpoint_new lib ql (cf_tls cfg) (cf_endpoint cfg) = Inr ep \<and>
       (\<forall>w \<in> set (app_workers ft cfg). app_worker_serve (activity (snd waited)) w = Some (Inr ()) \<and>
          (case w of
             Worker_api a \<Rightarrow> ay_bind (activity (snd waited)) a = None
           | Worker_forward opt \<Rightarrow> ay_bind (activity (snd waited)) (fo_listen opt) = None
           | Worker_socks so \<Rightarrow> ay_bind (activity (snd waited)) (so_listen so) = None
           | Worker_endpoint _ \<Rightarrow> True)))"
proof -
  let ?ay = "activity (snd waited)"
  have bound: "case w of
      Worker_api a \<Rightarrow> ay_bind ?ay a = None
    | Worker_forward opt \<Rightarrow> ay_bind ?ay (fo_listen opt) = None
    | Worker_socks so \<Rightarrow> ay_bind ?ay (so_listen so) = None
    | Worker_endpoint _ \<Rightarrow> True" if "app_worker_serve ?ay w = Some (Inr ())" for w
    using that by (cases w) (auto dest: bound_of_serve)
  have "app_main read_to_string from_toml ft lib ql order activity waited = Some EXIT_SUCCESS \<longleftrightarrow>
      (\<exists>content cfg. read_to_string ''config.toml'' = Inr content \<and> from_toml content = Inr cfg \<and>
         app_start ft lib ql order activity waited cfg = Some (Inr ()))"
    by (auto simp: app_main_def config_from_str_def DEFAULT_CONFIG_FILE_def exit_success
        split: sum.splits)
  then show ?thesis unfolding app_start_Inr[OF assms] using bound by blast
qed

definition sample_tls_lib :: "(nat, nat, nat) tls_lib" where
  "sample_tls_lib = \<lparr>tl_native = [1], tl_open = (\<lambda>p. Inr (length p)), tl_certs = (\<lambda>f. [Inr f]), tl_key = (\<lambda>f. Inr (Some f)),
     tl_add = (\<lambda>_. None), tl_verifier = (\<lambda>_. None), tl_match = (\<lambda>_ _. None)\<rparr>"

definition sample_quic :: "(nat, nat) quic_lib" where
  "sample_quic = \<lparr>ql_server = (\<lambda>_. None), ql_client = (\<lambda>_. None), ql_bind = (\<lambda>_. None), ql_local_addr = Inr\<rparr>"

definition sample_config :: "tcp_forward_option list \<Rightarrow> app_config" where
  "sample_config rules = \<lparr>cf_node_id = ''a'', cf_http_api = Some sample_addr,
     cf_endpoint = \<lparr>ec_bind_address = sample_addr, ec_listen = False, ec_remote_addr = None, ec_options = default_options\<rparr>,
     cf_tls = default_tls, cf_tcp_forward = Some rules, cf_socks5_proxy = None\<rparr>"

definition sample_activity :: "bool \<Rightarrow> (nat, nat, nat) activity" where
  "sample_activity cancelled = \<lparr>ay_bind = (\<lambda>a. if a = sample_addr then None else Some ''in use''), ay_tune = (\<lambda>_ _. None),
     ay_forward = (\<lambda>_. []), ay_socks = (\<lambda>_. []), ay_http = None, ay_parts = (\<lambda>_. None)\<rparr>"

lemma sample_endpoint: "\<exists>ep. local_endpoint_new sample_tls_lib sample_quic default_tls cfg = Inr ep"
  by (simp add: local_endpoint_new_def build_server_config_def build_client_config_def load_identity_def load_cert_def
      load_priv_key_def load_root_cert_def default_tls_def sample_tls_lib_def sample_quic_def)

theorem program_exit_witness:
  "app_main (\<lambda>_. Inr []) (\<lambda>_. Inr (sample_config [])) \<lparr>ft_api = True, ft_tcp_forward = True, ft_socks5 = True\<rparr>
      sample_tls_lib sample_quic (\<lambda>n. rev [0..<n]) sample_activity (Some (Inr ()), True) = Some EXIT_SUCCESS \<and>
   app_main (\<lambda>_. Inr []) (\<lambda>_. Inr (sample_config [sample_rule\<lparr>fo_listen := SocketAddrV4 [127, 0, 0, 1] 81\<rparr>])) \<lparr>ft_api = True, ft_tcp_forward = True, ft_socks5 = True\<rparr>
      sample_tls_lib sample_quic (\<lambda>n. rev [0..<n]) sample_activity (Some (Inr ()), True) \<noteq> Some EXIT_SUCCESS"
  unfolding program_exit[of "\<lambda>n. rev [0..<n]", simplified mset_rev, OF refl]
  using sample_endpoint
  by (simp add: sample_config_def app_workers_def app_worker_serve_def base_api_serve_def vec_serve_def ctrl_serve_def
      http_worker_serve_def endpoint_serve_def endpoint_parts_def forwarder_serve_def sample_activity_def sample_rule_def sample_addr_def)

end
