(* ===== verification/Crab_Transfer.thy ===== *)
theory Crab_Transfer
  imports Crab_Api
begin

text \<open>
  Files over HTTP, end to end: the handlers \<open>node_write_file\<close> and \<open>read_node_file\<close> of
  \<^verbatim>\<open>src/src/app/workers/ctrl/ctrl.rs\<close> against the node that serves their commands.
\<close>

section \<open>Uploads\<close>

lemma upload_with_simps [simp]:
  "rx (upload_with c s) = rx s" "rx_fin (upload_with c s) = rx_fin s" "tx (upload_with c s) = tx s"
  "tx_cap (upload_with c s) = tx_cap s" "lk_conn (upload_with c s) = c"
  "rl_chan (upload_with c s) = Os_open" "up_finished (upload_with c s) = False"
  by (simp_all add: upload_with_def reply_link_with_def link_with_def stream.defs link.defs reply_link.defs upload.defs)

lemma upload_ends [simp]:
  "up_finished (s\<lparr>lk_conn := c\<rparr>) = up_finished s" "lk_conn (s\<lparr>up_finished := b\<rparr>) = lk_conn s"
  "s\<lparr>up_finished := b, lk_conn := c\<rparr> = s\<lparr>lk_conn := c, up_finished := b\<rparr>"
  by (cases s, simp)+

text \<open>
  The executor: the body goes to the node and the stream is finished, then the outcome is the
  error of the body or the acknowledgement of the node.
\<close>

lemma upload_executor_up:
  fixes s :: "'y upload_scheme"
  assumes "codec_ok ac" "framed ac Method_Command OPTION_NONE a k" "rx s = k" "tx_cap s = None"
  shows "\<exists>t. upload_executor ac None s =
      (if rx_fin (lk_conn s) then ack_into_result a else Inl (IO (rx_err (lk_conn s))), t) \<and>
    tx t = tx s @ rx (lk_conn s) \<and> up_finished t \<and> rl_chan t = rl_chan s"
proof -
  let ?t = "s\<lparr>tx := tx s @ rx (lk_conn s), lk_conn := (lk_conn s)\<lparr>rx := []\<rparr>, up_finished := True\<rparr>"
  have "read_ack ac ?t = (ack_into_result a, ?t\<lparr>rx := []\<rparr>)"
    using read_ack_ok[OF assms(1,2) option_none_ok, of ?t "[]"] assms(3) by simp
  with assms(4) show ?thesis by (simp add: upload_executor_def copy_in_up Let_def)
qed

text \<open>The handler: what the node has been sent, and the answer of the interface.\<close>

lemma node_write_file_up:
  assumes "codec_ok ac" "framed cc Method_Command OPTION_NONE (Command_WriteFile cmd) b"
    and "framed ac Method_Command OPTION_NONE ack_success k" "framed ac Method_Command OPTION_NONE a k'"
    and "manager_get m node_id = Some (h, info)" "dial h = (True, Inr s)"
    and "rx s = k @ k @ k'" "tx s = []" "tx_cap s = None"
  shows "\<exists>t. node_write_file ac cc dial True None body m node_id cmd =
      (ret_from_result (if rx_fin body then ack_into_result a else Inl (IO (rx_err body))), Some t) \<and>
    tx t = b @ k @ rx body \<and> up_finished t"
proof -
  let ?s = "upload_with body s"
  let ?s' = "?s\<lparr>rx := k', tx := tx s @ b @ k\<rparr>"
  obtain t where t: "upload_executor ac None ?s' =
      (if rx_fin body then ack_into_result a else Inl (IO (rx_err body)), t)"
    "tx t = b @ k @ rx body" "up_finished t"
    using upload_executor_up[OF assms(1,4), of ?s'] assms(8,9) by auto
  have run: "two_stage_call ac cc ac True (Inr ?s) None (Command_WriteFile cmd)
      (\<lambda>_. hand_over True (\<lambda>tk. with_chan (executor_wrapper_execute (upload_executor ac) tk))) =
    (Inr ack_success, Some (if True then snd (with_chan (executor_wrapper_execute (upload_executor ac) None) ?s')
      else ?s\<lparr>rx := k', tx := tx s @ b\<rparr>))"
    by (rule two_stage_call_run[OF assms(1,1,2,3,3) option_none_ok, where s = ?s, simplified upload_with_simps])
      (use assms(7,9) in \<open>simp_all add: hand_over_def\<close>)
  have "snd (with_chan (executor_wrapper_execute (upload_executor ac) None) ?s') =
      t\<lparr>rl_chan := Os_value (if rx_fin body then ack_into_result a else Inl (IO (rx_err body)))\<rparr>"
    by (simp add: with_chan_def executor_wrapper_execute_def andthen_def attempt_def t(1))
  with run t show ?thesis
    by (simp add: node_write_file_def assms(5,6))
qed

lemma ret_of_ack:
  "ret_from_result (Inr ()) = ret_from ()"
  "ret_from_result (ack_into_result \<lparr>ack_code = UNKNOWN_ERROR, ack_msg = Some t\<rparr>) =
     ret_error (ErrorCodeWithMessage UNKNOWN_ERROR t)"
  by (simp_all add: ret_from_result_def ack_into_result_def error_codes)

text \<open>The node: from the command to the file.\<close>

lemma serve_write_file:
  fixes w :: "'z world_scheme"
  assumes "codec_ok (sv_ack sv)" "codec_ok cc"
    and "framed cc Method_Command OPTION_NONE (Command_WriteFile cmd) b"
    and "framed (sv_ack sv) Method_Command OPTION_NONE ack_success k"
    and "framed (sv_ack sv) Method_Command OPTION_NONE
      (if published then ack_success else ack_from_error (IO ''File already exists'')) k'"
    and "components (wf_path cmd) = q @ [Normal n]" "\<not> wf_mkdir cmd" "fs_permits (w_fs w)"
    and "stat (w_fs w) q = Some Dir" "stat (w_fs w) (q @ [Normal n]) \<noteq> Some Dir"
    and "stat (w_fs w) (q @ [Normal (n @ TEMP_FILE_SUFFIX)]) \<noteq> Some Dir"
    and "published = (stat (w_fs w) (q @ [Normal n]) = None \<or> \<not> wf_overwrite cmd)"
    and "st_file st = None" "rx w = b @ k @ bs" "rx_fin w" "tx w = []" "tx_cap w = None"
  shows "\<exists>w'. serve_stream sv cc st meta w = (Inr (), w') \<and> tx w' = k @ k @ k' \<and>
    fs_permits (w_fs w') \<and> fs_times (w_fs w') = fs_times (w_fs w) \<and>
    stat (w_fs w') (q @ [Normal n]) = (if published then Some (File bs) else stat (w_fs w) (q @ [Normal n])) \<and>
    stat (w_fs w') (q @ [Normal (n @ TEMP_FILE_SUFFIX)]) = None"
proof -
  let ?h = "head_of Method_Command OPTION_NONE b"
  have "serve_stream sv cc st meta w = write_file_handle (sv_ack sv) None cmd ?h (w\<lparr>rx := k @ bs\<rparr>)"
    using assms(13) by (simp add: serve_stream_command[OF assms(2,3,14)] command_handle_def)
  with write_file_run[OF assms(6,7) _ _ _ _ _ assms(1,4) option_none_ok, where w = "w\<lparr>rx := k @ bs\<rparr>" and
      body = bs and h = ?h and k = k and k' = k' and published = published] assms
  show ?thesis by (auto simp: TEMP_FILE_SUFFIX_def)
qed

section \<open>Downloads\<close>

text \<open>The handler, if the node accepts: the body is what follows the second acknowledgement.\<close>

lemma download_call_up:
  assumes "codec_ok ac" "codec_ok mc"
    and "framed cc Method_Command OPTION_NONE (Command_ReadFile \<lparr>rf_path = p\<rparr>) b"
    and "framed ac Method_Command OPTION_NONE ack_success k"
    and "framed mc Method_Command OPTION_NONE metadata d"
    and "case refused of
           None \<Rightarrow> framed ac Method_Command OPTION_NONE ack_success a
         | Some e \<Rightarrow> framed ac Method_Command OPTION_ERROR (ack_from_error e) a"
    and "rx s = k @ d @ a @ bs" "rx_fin s" "tx_cap s = None"
  shows "\<exists>t. download_call ac cc mc True (Inr s) True (stream_of []) p = (Inr metadata, Some t) \<and>
    tx t = tx s @ b @ k \<and>
    tx (lk_conn t) =
      (case refused of
         None \<Rightarrow> bs
       | Some e \<Rightarrow> take BUF_SIZE (text_bytes (''read ack error '' @ display_error (ErrorCode (err_no e)))))"
proof -
  let ?s = "link_with (stream_of []) s"
  let ?s' = "?s\<lparr>rx := a @ bs, tx := tx s @ b @ k\<rparr>"
  have run: "download_call ac cc mc True (Inr s) True (stream_of []) p =
    (Inr metadata, Some (if True then snd (download_executor ac None ?s')
      else ?s\<lparr>rx := a @ bs, tx := tx s @ b\<rparr>))"
    unfolding download_call_def map_sum.simps
    by (rule two_stage_call_run[OF assms(1,2,3,4,5) option_none_ok, where s = ?s, simplified link_with_simps])
      (use assms(7,9) in \<open>simp_all add: hand_over_def\<close>)
  have "tx (snd (download_executor ac None ?s')) = tx s @ b @ k \<and>
    tx (lk_conn (snd (download_executor ac None ?s'))) =
      (case refused of
         None \<Rightarrow> bs
       | Some e \<Rightarrow> take BUF_SIZE (text_bytes (''read ack error '' @ display_error (ErrorCode (err_no e)))))"
  proof (cases refused)
    case None
    with assms(6) have "framed ac Method_Command OPTION_NONE ack_success a" by simp
    from read_ack_ok[OF assms(1) this option_none_ok, of ?s' bs] None show ?thesis
      by (simp add: download_executor_def copy_out_up)
  next
    case (Some e)
    with assms(6) have "framed ac Method_Command OPTION_ERROR (ack_from_error e) a" by simp
    from read_ack_err[OF assms(1) this, of ?s' bs] Some show ?thesis
      by (simp add: download_executor_def copy_to_stream_up ack_from_error_code)
  qed
  with run show ?thesis by simp
qed

lemma read_node_file_up:
  assumes "codec_ok ac" "codec_ok mc"
    and "framed cc Method_Command OPTION_NONE (Command_ReadFile \<lparr>rf_path = p\<rparr>) b"
    and "framed ac Method_Command OPTION_NONE ack_success k"
    and "framed mc Method_Command OPTION_NONE metadata d"
    and "case refused of
           None \<Rightarrow> framed ac Method_Command OPTION_NONE ack_success a
         | Some e \<Rightarrow> framed ac Method_Command OPTION_ERROR (ack_from_error e) a"
    and "manager_get m node_id = Some (h, info)" "dial h = (True, Inr s)"
    and "rx s = k @ d @ a @ bs" "rx_fin s" "tx_cap s = None"
  shows "read_node_file ac cc mc dial True (stream_of []) m node_id p =
    Stream_File metadata
      (case refused of
         None \<Rightarrow> bs
       | Some e \<Rightarrow> take BUF_SIZE (text_bytes (''read ack error '' @ display_error (ErrorCode (err_no e)))))"
  using download_call_up[OF assms(1-6,9-11)] by (auto simp: read_node_file_def assms(7,8))

section \<open>Properties\<close>

text \<open>
  C15: an upload over HTTP works end to end.  If the target can be written and the body of the
  request arrives completely, the node's file then holds exactly the body and the client is
  told \<open>success\<close>; if the target exists and \<open>overwrite\<close> is set, the file is as it was and the
  client is told the node's error.  In both cases what the interface wrote is what the node
  read, and the temporary file is gone.
\<close>

theorem api_upload:
  fixes w :: "'z world_scheme"
  assumes "codec_ok (sv_ack sv)" "codec_ok cc"
    and "framed cc Method_Command OPTION_NONE (Command_WriteFile cmd) b"
    and "framed (sv_ack sv) Method_Command OPTION_NONE ack_success k"
    and "framed (sv_ack sv) Method_Command OPTION_NONE
      (if published then ack_success else ack_from_error (IO ''File already exists'')) k'"
    and "components (wf_path cmd) = q @ [Normal n]" "\<not> wf_mkdir cmd" "fs_permits (w_fs w)"
    and "stat (w_fs w) q = Some Dir" "stat (w_fs w) (q @ [Normal n]) \<noteq> Some Dir"
    and "stat (w_fs w) (q @ [Normal (n @ TEMP_FILE_SUFFIX)]) \<noteq> Some Dir"
    and "published = (stat (w_fs w) (q @ [Normal n]) = None \<or> \<not> wf_overwrite cmd)"
    and "st_file st = None" "rx w = b @ k @ rx body" "rx_fin w" "tx w = []" "tx_cap w = None"
    and "manager_get m node_id = Some (h, info)" "dial h = (True, Inr s)"
    and "rx s = k @ k @ k'" "tx s = []" "tx_cap s = None" "rx_fin body"
  shows "(\<exists>w'. serve_stream sv cc st meta w = (Inr (), w') \<and> tx w' = rx s \<and>
      stat (w_fs w') (q @ [Normal n]) = (if published then Some (File (rx body)) else stat (w_fs w) (q @ [Normal n])) \<and>
      stat (w_fs w') (q @ [Normal (n @ TEMP_FILE_SUFFIX)]) = None) \<and>
    (\<exists>t. node_write_file (sv_ack sv) cc dial True None body m node_id cmd =
        (if published then ret_from ()
         else ret_error (ErrorCodeWithMessage UNKNOWN_ERROR ''File already exists''), Some t) \<and>
      tx t = rx w \<and> up_finished t)"
  using serve_write_file[OF assms(1-17), of meta]
    node_write_file_up[where dial = dial and h = h and s = s, OF assms(1,3,4,5,18,19,20,21,22), of body] assms(14,20,23)
  by (auto simp: ret_of_ack split: if_splits)

abbreviation sample_write :: "bool \<Rightarrow> write_file" where
  "sample_write over \<equiv> \<lparr>wf_path = ''/a'', wf_overwrite = over, wf_mkdir = False\<rparr>"

abbreviation sample_dial :: "bytes \<Rightarrow> nat dial" where
  "sample_dial bs \<equiv> \<lambda>_. (True, Inr (stream_of bs))"

lemmas transfer_samples = sample_ack_facts(1) sample_ack_framed sample_ack2_facts sample_ack2_facts(3)[simplified]
  single_codec_ok single_framed mgr.get_ins

theorem api_upload_witness:
  "(\<exists>w'. serve_stream (sample_services sample_ack2 (table_codec []) (table_codec []))
        (table_codec [(Command_WriteFile (sample_write True), [9])]) sample_stops
        sample_caller (world_of (small_frame Method_Command OPTION_NONE 9 @ ack_frame @ [1, 2]) sample_fs) = (Inr (), w') \<and>
      tx w' = ack_frame @ ack_frame @ small_frame Method_Command OPTION_NONE 2 \<and>
      stat (w_fs w') [RootDir, Normal ''a''] = Some (File [1])) \<and>
    fst (node_write_file sample_ack2 (table_codec [(Command_WriteFile (sample_write True), [9])])
        (sample_dial (ack_frame @ ack_frame @ small_frame Method_Command OPTION_NONE 2)) True None
        (stream_of [1, 2]) sample_table ''a'' (sample_write True)) =
      ret_error (ErrorCodeWithMessage UNKNOWN_ERROR ''File already exists'')"
  using api_upload[of "sample_services sample_ack2 (table_codec []) (table_codec [])"
      "table_codec [(Command_WriteFile (sample_write True), [9])]"
      "sample_write True" "small_frame Method_Command OPTION_NONE 9"
      ack_frame False "small_frame Method_Command OPTION_NONE 2" "[RootDir]" "''a''"
      "world_of (small_frame Method_Command OPTION_NONE 9 @ ack_frame @ [1, 2]) sample_fs" sample_stops "stream_of [1, 2]"
      sample_table "''a''" 7 "handshake_new sample_host ''a''"
      "sample_dial (ack_frame @ ack_frame @ small_frame Method_Command OPTION_NONE 2)"
      "stream_of (ack_frame @ ack_frame @ small_frame Method_Command OPTION_NONE 2)" sample_caller]
  by (auto simp: transfer_samples sample_stops_def stat_def
      TEMP_FILE_SUFFIX_def sample_fs_def[THEN arg_cong[of _ _ fs_nodes]])

text \<open>
  C36: an upload that breaks off is published all the same.  When the body of the request
  fails after some bytes, the client is told the error, but the stream to the node has been
  finished as for a complete body: the node takes the part that arrived for the whole file
  and moves it to the target.
\<close>

theorem aborted_upload_published:
  fixes w :: "'z world_scheme"
  assumes "codec_ok (sv_ack sv)" "codec_ok cc"
    and "framed cc Method_Command OPTION_NONE (Command_WriteFile cmd) b"
    and "framed (sv_ack sv) Method_Command OPTION_NONE ack_success k"
    and "components (wf_path cmd) = q @ [Normal n]" "\<not> wf_mkdir cmd" "fs_permits (w_fs w)"
    and "stat (w_fs w) q = Some Dir" "stat (w_fs w) (q @ [Normal n]) \<noteq> Some Dir"
    and "stat (w_fs w) (q @ [Normal (n @ TEMP_FILE_SUFFIX)]) \<noteq> Some Dir"
    and "stat (w_fs w) (q @ [Normal n]) = None \<or> \<not> wf_overwrite cmd"
    and "manager_get m node_id = Some (h, info)" "dial h = (True, Inr s)"
    and "rx s = k @ k @ k" "tx s = []" "tx_cap s = None" "\<not> rx_fin body"
    and "node_write_file (sv_ack sv) cc dial True None body m node_id cmd = (reply, Some t)"
    and "st_file st = None" "rx w = tx t" "rx_fin w = up_finished t" "tx w = []" "tx_cap w = None"
  shows "reply = ret_error (IO (rx_err body)) \<and>
    (\<exists>w'. serve_stream sv cc st meta w = (Inr (), w') \<and> stat (w_fs w') (q @ [Normal n]) = Some (File (rx body)))"
proof -
  from node_write_file_up[where dial = dial and h = h and s = s, OF assms(1,3,4,4,12,13,14,15,16), of body] assms(17,18)
  have "reply = ret_error (IO (rx_err body))" "tx t = b @ k @ rx body" "up_finished t"
    by (auto simp: ret_from_result_def)
  with serve_write_file[OF assms(1-4) _ assms(5-10) _ assms(19), of True k "rx body" meta] assms
  show ?thesis by auto
qed

theorem aborted_upload_published_witness:
  "\<exists>t w'. node_write_file sample_ack (table_codec [(Command_WriteFile (sample_write False), [9])])
        (sample_dial (ack_frame @ ack_frame @ ack_frame)) True None
        ((stream_of [1, 2])\<lparr>rx_fin := False, rx_err := ''reset''\<rparr>) sample_table ''a'' (sample_write False) =
      (ret_error (IO ''reset''), Some t) \<and>
    serve_stream (sample_services sample_ack (table_codec []) (table_codec []))
        (table_codec [(Command_WriteFile (sample_write False), [9])]) sample_stops
        sample_caller (world_of (tx t) sample_fs) = (Inr (), w') \<and>
    stat (w_fs w') [RootDir, Normal ''a''] = Some (File [1, 2])"
proof -
  let ?cc = "table_codec [(Command_WriteFile (sample_write False), [9])]"
  let ?body = "(stream_of [1, 2])\<lparr>rx_fin := False, rx_err := ''reset''\<rparr>"
  let ?dial = "sample_dial (ack_frame @ ack_frame @ ack_frame)"
  obtain t where t: "node_write_file sample_ack ?cc ?dial True None ?body sample_table ''a'' (sample_write False) =
      (ret_from_result (Inl (IO ''reset'')), Some t)" "up_finished t"
    using node_write_file_up[OF sample_ack_facts(1) single_framed[where b = 9] sample_ack_framed sample_ack_framed,
        where m = sample_table and dial = ?dial and body = ?body and node_id = "''a''" and
          s = "stream_of (ack_frame @ ack_frame @ ack_frame)" and cmd = "sample_write False"]
    by (auto simp: mgr.get_ins)
  with aborted_upload_published[of "sample_services sample_ack (table_codec []) (table_codec [])" ?cc
      "sample_write False" "small_frame Method_Command OPTION_NONE 9" ack_frame "[RootDir]" "''a''"
      "world_of (tx t) sample_fs" sample_table "''a''" 7 "handshake_new sample_host ''a''" ?dial
      "stream_of (ack_frame @ ack_frame @ ack_frame)" ?body _ t sample_stops sample_caller]
  show ?thesis
    by (auto simp: transfer_samples sample_stops_def stat_def ret_from_result_def
        TEMP_FILE_SUFFIX_def sample_fs_def[THEN arg_cong[of _ _ fs_nodes]])
qed

text \<open>
  C16: a download over HTTP works end to end.  The response to the request for a permitted file
  has the status 200, the length of the file as its content length and the file's bytes as
  its body; the node's file system is unchanged.
\<close>

theorem api_download:
  fixes w :: "'z world_scheme"
  assumes "codec_ok (sv_ack sv)" "codec_ok (sv_metadata sv)" "codec_ok cc"
    and "framed cc Method_Command OPTION_NONE (Command_ReadFile \<lparr>rf_path = p\<rparr>) b"
    and "framed (sv_ack sv) Method_Command OPTION_NONE ack_success k"
    and "metadata_of (components p) (w_fs w) = (Inr metadata, w_fs w)"
    and "framed (sv_metadata sv) Method_Command OPTION_NONE metadata d"
    and "fs_permits (w_fs w)" "stat (w_fs w) (components p) = Some (File bs)" "length bs < 2 ^ 64"
    and "st_file st = None" "rx w = b @ k" "tx w = []" "tx_cap w = None"
    and "manager_get m node_id = Some (h, info)" "dial h = (True, Inr s)"
    and "rx s = k @ d @ k @ bs" "rx_fin s" "tx_cap s = None"
  shows "(\<exists>w'. serve_stream sv cc st meta w = (Inr (), w') \<and> w_fs w' = w_fs w \<and> tx w' = rx s) \<and>
    stream_into_response (read_node_file (sv_ack sv) cc (sv_metadata sv) dial True (stream_of []) m node_id p) =
      \<lparr>wr_status = 200,
       wr_headers = [(''content-type'', ''application/octet-stream''), (''content-length'', digits (length bs))],
       wr_body = Body_bytes bs\<rparr>"
proof
  have "open_file (components p) (w_fs w) = (Inr (File bs), w_fs w)"
    using assms(8,9) by (simp add: open_file_def fs_guard_def fs_permits_def)
  from serve_read_file[OF assms(1,3,4,5,7,6) this _ assms(11-14), of k bs] assms(17)
  show "\<exists>w'. serve_stream sv cc st meta w = (Inr (), w') \<and> w_fs w' = w_fs w \<and> tx w' = rx s" by simp
  have "fm_filesize metadata = word_of_nat (length bs)"
    using assms(6,9) by (auto simp: metadata_of_def fs_guard_def split: if_splits)
  then have "unat (fm_filesize metadata) = length bs" using assms(10) by (simp add: unat_of_nat take_bit_nat_eq_self)
  with read_node_file_up[where dial = dial and h = h and s = s and refused = None, OF assms(1,2,4,5,7) _ assms(15-19)] assms(5)
  show "stream_into_response (read_node_file (sv_ack sv) cc (sv_metadata sv) dial True (stream_of []) m node_id p) =
      \<lparr>wr_status = 200,
       wr_headers = [(''content-type'', ''application/octet-stream''), (''content-length'', digits (length bs))],
       wr_body = Body_bytes bs\<rparr>"
    by (simp add: stream_into_response_def)
qed

theorem api_download_witness:
  "stream_into_response (read_node_file sample_ack (table_codec [(Command_ReadFile \<lparr>rf_path = ''/a''\<rparr>, [9])])
      (table_codec [(sample_metadata, [5])])
      (sample_dial (ack_frame @ small_frame Method_Command OPTION_NONE 5 @ ack_frame @ [1])) True (stream_of [])
      sample_table ''a'' ''/a'') =
    \<lparr>wr_status = 200,
     wr_headers = [(''content-type'', ''application/octet-stream''), (''content-length'', digits 1)],
     wr_body = Body_bytes [1]\<rparr>"
  using api_download[of "sample_services sample_ack (table_codec [(sample_metadata, [5])]) (table_codec [])"
      "table_codec [(Command_ReadFile \<lparr>rf_path = ''/a''\<rparr>, [9])]" "''/a''"
      "small_frame Method_Command OPTION_NONE 9" ack_frame
      "world_of (small_frame Method_Command OPTION_NONE 9 @ ack_frame) sample_fs" sample_metadata
      "small_frame Method_Command OPTION_NONE 5" "[1]" sample_stops sample_table "''a''" 7
      "handshake_new sample_host ''a''"
      "sample_dial (ack_frame @ small_frame Method_Command OPTION_NONE 5 @ ack_frame @ [1])"
      "stream_of (ack_frame @ small_frame Method_Command OPTION_NONE 5 @ ack_frame @ [1])" sample_caller]
  by (simp add: transfer_samples sample_stops_def stat_def metadata_of_def fs_guard_def sample_metadata_def millis_def
      sample_fs_def[THEN arg_cong[of _ _ fs_nodes]] sample_fs_def[THEN arg_cong[of _ _ fs_times]])

text \<open>
  C14: what has been uploaded over HTTP is what a later download returns.  Take a write without
  \<open>mkdir\<close> into an existing directory, to a target that is no directory and does not exist or
  is written without \<open>overwrite\<close>, with a body that arrives completely, on a node that
  refuses nothing and connections that stay up.  The client of the upload is told \<open>success\<close>; on the file system that the node then has, the response to the request
  for the file has the status 200, the length of the uploaded body as its content length and
  that body as its body, whatever the file held before.  On both streams the two sides are
  coupled: the node of the upload reads what the interface has written, and finished, and the
  interface has read what that node wrote; the interface of the download reads what the
  node has written, and that node has read what the interface wrote.
\<close>

theorem upload_then_download:
  fixes w v :: "'z world_scheme"
  assumes "codec_ok (sv_ack sv)" "codec_ok (sv_metadata sv)" "codec_ok cc"
    and "framed cc Method_Command OPTION_NONE (Command_WriteFile cmd) b"
    and "framed cc Method_Command OPTION_NONE (Command_ReadFile \<lparr>rf_path = wf_path cmd\<rparr>) c"
    and "framed (sv_ack sv) Method_Command OPTION_NONE ack_success k"
    and "components (wf_path cmd) = q @ [Normal n]" "\<not> wf_mkdir cmd" "fs_permits (w_fs w)"
    and "stat (w_fs w) q = Some Dir" "stat (w_fs w) (q @ [Normal n]) \<noteq> Some Dir"
    and "stat (w_fs w) (q @ [Normal (n @ TEMP_FILE_SUFFIX)]) \<noteq> Some Dir"
    and "stat (w_fs w) (q @ [Normal n]) = None \<or> \<not> wf_overwrite cmd"
    and "tx w = []" "tx_cap w = None" "st_file st = None"
    and "manager_get m node_id = Some (h, info)" "dial h = (True, Inr s)"
    and "rx s = k @ k @ k" "tx s = []" "tx_cap s = None" "rx_fin body" "length (rx body) < 2 ^ 64"
    and "node_write_file (sv_ack sv) cc dial True None body m node_id cmd = (reply, Some t)"
    and "rx w = tx t" "rx_fin w = up_finished t"
    and "serve_stream sv cc st meta w = (r, w')"
    and "w_fs v = w_fs w'" "rx v = c @ k" "tx v = []" "tx_cap v = None" "st_file st' = None"
    and "framed (sv_metadata sv) Method_Command OPTION_NONE metadata d"
    and "metadata_of (q @ [Normal n]) (w_fs w') = (Inr metadata, w_fs w')"
    and "serve_stream sv cc st' meta' v = (r', v')"
    and "manager_get m' node_id' = Some (h', info')" "dial' h' = (True, Inr s')"
    and "rx s' = tx v'" "rx_fin s'" "tx_cap s' = None" "tx s' = []"
  shows "reply = ret_from () \<and>
    stream_into_response
        (read_node_file (sv_ack sv) cc (sv_metadata sv) dial' True (stream_of []) m' node_id' (wf_path cmd)) =
      \<lparr>wr_status = 200,
       wr_headers = [(''content-type'', ''application/octet-stream''), (''content-length'', digits (length (rx body)))],
       wr_body = Body_bytes (rx body)\<rparr> \<and>
    r = Inr () \<and> r' = Inr () \<and> tx w' = rx s \<and> w_fs v' = w_fs w' \<and>
    (\<exists>x u. download_call (sv_ack sv) cc (sv_metadata sv) True (Inr s') True (stream_of []) (wf_path cmd) = (x, Some u) \<and>
      tx u = rx v)"
proof -
  from node_write_file_up[where dial = dial and h = h and s = s, OF assms(1,4,6,6,17-21), of body] assms(22,24)
  have sent: "reply = ret_from ()" "tx t = b @ k @ rx body" "up_finished t" by (auto simp: ret_of_ack)
  from serve_write_file[OF assms(1,3,4,6) _ assms(7-12) _ assms(16) _ _ assms(14,15), of True k "rx body" meta]
    sent assms(6,13,25-27)
  have up: "r = Inr ()" "tx w' = k @ k @ k" "fs_permits (w_fs w')" "stat (w_fs w') (q @ [Normal n]) = Some (File (rx body))"
    by auto
  have "open_file (q @ [Normal n]) (w_fs w') = (Inr (File (rx body)), w_fs w')"
    using up(3,4) by (simp add: open_file_def fs_guard_def fs_permits_def)
  with serve_read_file[OF assms(1,3,5,6,33), of v "Inr (File (rx body))" k "rx body" st' meta'] assms(7,28-32,34,35)
  have down: "r' = Inr ()" "w_fs v' = w_fs w'" "tx v' = k @ d @ k @ rx body" by auto
  have size: "unat (fm_filesize metadata) = length (rx body)"
    using assms(23,34) up(4)
    by (auto simp: metadata_of_def fs_guard_def unat_of_nat take_bit_nat_eq_self split: if_splits)
  have in': "rx s' = k @ d @ k @ rx body" using assms(38) down(3) by simp
  from read_node_file_up[where dial = dial' and h = h' and s = s' and refused = None and bs = "rx body",
      OF assms(1,2,5,6,33) _ assms(36,37) in' assms(39,40)] assms(6)
  have answered: "read_node_file (sv_ack sv) cc (sv_metadata sv) dial' True (stream_of []) m' node_id' (wf_path cmd) =
      Stream_File metadata (rx body)" by simp
  from download_call_up[where refused = None and bs = "rx body" and s = s', OF assms(1,2,5,6,33) _ in' assms(39,40)] assms(6,29,41)
  have asked: "\<exists>x u. download_call (sv_ack sv) cc (sv_metadata sv) True (Inr s') True (stream_of []) (wf_path cmd) =
      (x, Some u) \<and> tx u = rx v" by auto
  with up down sent answered size asked assms(19,29) show ?thesis by (simp add: stream_into_response_def)
qed

definition sample_two_commands :: "command codec" where
  "sample_two_commands = table_codec [(Command_WriteFile (sample_write False), [9]), (Command_ReadFile \<lparr>rf_path = ''/a''\<rparr>, [8])]"

lemma sample_two_commands_facts:
  "codec_ok sample_two_commands"
  "framed sample_two_commands me op (Command_WriteFile (sample_write False)) (small_frame me op 9)"
  "framed sample_two_commands me op (Command_ReadFile \<lparr>rf_path = ''/a''\<rparr>) (small_frame me op 8)"
  unfolding sample_two_commands_def
  by (rule table_codec_ok, simp) (rule small_framed, simp add: table_codec_def)+

theorem upload_then_download_witness:
  "\<exists>w' v'. serve_stream (sample_services sample_ack (table_codec [(sample_metadata\<lparr>fm_filesize := 2\<rparr>, [5])]) (table_codec []))
      sample_two_commands sample_stops sample_caller
      (world_of (small_frame Method_Command OPTION_NONE 9 @ ack_frame @ [1, 2]) sample_fs) = (Inr (), w') \<and>
    serve_stream (sample_services sample_ack (table_codec [(sample_metadata\<lparr>fm_filesize := 2\<rparr>, [5])]) (table_codec []))
      sample_two_commands sample_stops sample_caller
      (world_of (small_frame Method_Command OPTION_NONE 8 @ ack_frame) (w_fs w')) = (Inr (), v') \<and>
    stream_into_response (read_node_file sample_ack sample_two_commands
        (table_codec [(sample_metadata\<lparr>fm_filesize := 2\<rparr>, [5])]) (sample_dial (tx v')) True (stream_of [])
        sample_table ''a'' ''/a'') =
      \<lparr>wr_status = 200,
       wr_headers = [(''content-type'', ''application/octet-stream''), (''content-length'', digits 2)],
       wr_body = Body_bytes [1, 2]\<rparr>"
proof -
  let ?sv = "sample_services sample_ack (table_codec [(sample_metadata\<lparr>fm_filesize := 2\<rparr>, [5])]) (table_codec [])"
  let ?w = "world_of (small_frame Method_Command OPTION_NONE 9 @ ack_frame @ [1, 2]) sample_fs"
  obtain r w' where w: "serve_stream ?sv sample_two_commands sample_stops sample_caller ?w = (r, w')" by fastforce
  let ?v = "world_of (small_frame Method_Command OPTION_NONE 8 @ ack_frame) (w_fs w')"
  obtain r' v' where v: "serve_stream ?sv sample_two_commands sample_stops sample_caller ?v = (r', v')" by fastforce
  have "\<exists>w''. serve_stream ?sv sample_two_commands sample_stops sample_caller ?w = (Inr (), w'') \<and>
      tx w'' = ack_frame @ ack_frame @ ack_frame \<and> fs_permits (w_fs w'') \<and> fs_times (w_fs w'') = fs_times (w_fs ?w) \<and>
      stat (w_fs w'') ([RootDir] @ [Normal ''a'']) = (if True then Some (File [1, 2]) else stat (w_fs ?w) ([RootDir] @ [Normal ''a''])) \<and>
      stat (w_fs w'') ([RootDir] @ [Normal (''a'' @ TEMP_FILE_SUFFIX)]) = None"
    by (rule serve_write_file[OF _ sample_two_commands_facts(1,2)])
      (simp_all add: transfer_samples sample_stops_def stat_def TEMP_FILE_SUFFIX_def sample_fs_def[THEN arg_cong[of _ _ fs_nodes]])
  with w have m: "metadata_of ([RootDir] @ [Normal ''a'']) (w_fs w') = (Inr (sample_metadata\<lparr>fm_filesize := 2\<rparr>), w_fs w')"
    by (simp add: metadata_of_def fs_guard_def fs_permits_def sample_metadata_def millis_def sample_fs_def[THEN arg_cong[of _ _ fs_times]])
  have "framed sample_ack Method_Command OPTION_NONE ack_success ack_frame" by (simp add: transfer_samples)
  from node_write_file_up[OF sample_ack_facts(1) sample_two_commands_facts(2) this this, where m = sample_table and
      node_id = "''a''" and h = 7 and info = "handshake_new sample_host ''a''" and
      dial = "sample_dial (ack_frame @ ack_frame @ ack_frame)" and s = "stream_of (ack_frame @ ack_frame @ ack_frame)" and
      body = "stream_of [1, 2]"]
  obtain reply t where t: "node_write_file sample_ack sample_two_commands (sample_dial (ack_frame @ ack_frame @ ack_frame)) True None
      (stream_of [1, 2]) sample_table ''a'' (sample_write False) = (reply, Some t)"
    "tx t = small_frame Method_Command OPTION_NONE 9 @ ack_frame @ [1, 2]" "up_finished t"
    by (auto simp: transfer_samples)
  note upload_then_download[of ?sv sample_two_commands "sample_write False" "small_frame Method_Command OPTION_NONE 9"
      "small_frame Method_Command OPTION_NONE 8" ack_frame "[RootDir]" "''a''" ?w sample_stops
      sample_table "''a''" 7 "handshake_new sample_host ''a''" "sample_dial (ack_frame @ ack_frame @ ack_frame)"
      "stream_of (ack_frame @ ack_frame @ ack_frame)" "stream_of [1, 2]" reply t sample_caller r w' ?v sample_stops
      "sample_metadata\<lparr>fm_filesize := 2\<rparr>" "small_frame Method_Command OPTION_NONE 5" sample_caller r' v'
      sample_table "''a''" 7 "handshake_new sample_host ''a''" "sample_dial (tx v')" "stream_of (tx v')"]
  with w v m t show ?thesis
    by (simp add: numeral_2_eq_2[symmetric] transfer_samples sample_two_commands_facts sample_stops_def stat_def TEMP_FILE_SUFFIX_def
        sample_fs_def[THEN arg_cong[of _ _ fs_nodes]])
qed

text \<open>
  A file that exists but cannot be opened is served as a success.  The node reports the
  metadata, then the error of opening; the response nevertheless has the status 200 and the
  content length of the file, and its body is the text of the error.
\<close>

lemma unreadable_file_served:
  fixes w :: "'z world_scheme"
  assumes "codec_ok (sv_ack sv)" "codec_ok (sv_metadata sv)" "codec_ok cc"
    and "framed cc Method_Command OPTION_NONE (Command_ReadFile \<lparr>rf_path = p\<rparr>) b"
    and "framed (sv_ack sv) Method_Command OPTION_NONE ack_success k"
    and "metadata_of (components p) (w_fs w) = (Inr metadata, w_fs w)"
    and "framed (sv_metadata sv) Method_Command OPTION_NONE metadata d"
    and "open_file (components p) (w_fs w) = (Inl e, w_fs w)"
    and "framed (sv_ack sv) Method_Command OPTION_ERROR (ack_from_error e) a"
    and "st_file st = None" "rx w = b @ k" "tx w = []" "tx_cap w = None"
    and "manager_get m node_id = Some (h, info)" "dial h = (True, Inr s)"
    and "rx s = k @ d @ a" "rx_fin s" "tx_cap s = None"
  shows "(\<exists>w'. serve_stream sv cc st meta w = (Inr (), w') \<and> tx w' = rx s) \<and>
    stream_into_response (read_node_file (sv_ack sv) cc (sv_metadata sv) dial True (stream_of []) m node_id p) =
      \<lparr>wr_status = 200,
       wr_headers = [(''content-type'', ''application/octet-stream''),
         (''content-length'', digits (unat (fm_filesize metadata)))],
       wr_body = Body_bytes (take BUF_SIZE (text_bytes (''read ack error '' @ display_error (ErrorCode (err_no e)))))\<rparr>"
proof
  from serve_read_file[OF assms(1,3,4,5,7,6,8) _ assms(10-13), of a "[]"] assms(9,16)
  show "\<exists>w'. serve_stream sv cc st meta w = (Inr (), w') \<and> tx w' = rx s" by auto
  from read_node_file_up[where dial = dial and h = h and s = s and refused = "Some e" and bs = "[]", OF assms(1,2,4,5,7) _ assms(14,15) _ assms(17,18)]
    assms(9,16)
  show "stream_into_response (read_node_file (sv_ack sv) cc (sv_metadata sv) dial True (stream_of []) m node_id p) =
      \<lparr>wr_status = 200,
       wr_headers = [(''content-type'', ''application/octet-stream''),
         (''content-length'', digits (unat (fm_filesize metadata)))],
       wr_body = Body_bytes (take BUF_SIZE (text_bytes (''read ack error '' @ display_error (ErrorCode (err_no e)))))\<rparr>"
    by (simp add: stream_into_response_def)
qed

definition sample_locked_fs :: file_sys where
  "sample_locked_fs = sample_fs\<lparr>fs_denied := (\<lambda>op _. op = Op_read)\<rparr>"

lemma unreadable_file_served_witness:
  "stream_into_response (read_node_file sample_ack3 (table_codec [(Command_ReadFile \<lparr>rf_path = ''/a''\<rparr>, [9])])
      (table_codec [(sample_metadata, [5])])
      (sample_dial (small_frame Method_Command OPTION_NONE 0 @ small_frame Method_Command OPTION_NONE 5 @
        small_frame Method_Command OPTION_ERROR 3)) True (stream_of []) sample_table ''a'' ''/a'') =
    \<lparr>wr_status = 200,
     wr_headers = [(''content-type'', ''application/octet-stream''), (''content-length'', digits 1)],
     wr_body = Body_bytes (take BUF_SIZE
       (text_bytes (''read ack error '' @ display_error (ErrorCode UNKNOWN_ERROR))))\<rparr>"
proof -
  let ?rx = "small_frame Method_Command OPTION_NONE 0 @ small_frame Method_Command OPTION_NONE 5 @
        small_frame Method_Command OPTION_ERROR 3"
  have "framed sample_ack3 Method_Command OPTION_ERROR (ack_from_error (IO ''os error''))
      (small_frame Method_Command OPTION_ERROR 3)"
    using sample_ack3_facts(3) by (simp add: ack_from_result_def)
  from unreadable_file_served[of "sample_services sample_ack3 (table_codec [(sample_metadata, [5])]) (table_codec [])"
      "table_codec [(Command_ReadFile \<lparr>rf_path = ''/a''\<rparr>, [9])]" "''/a''"
      "small_frame Method_Command OPTION_NONE 9" "small_frame Method_Command OPTION_NONE 0"
      "world_of (small_frame Method_Command OPTION_NONE 9 @ small_frame Method_Command OPTION_NONE 0) sample_locked_fs"
      sample_metadata "small_frame Method_Command OPTION_NONE 5" "IO ''os error''"
      "small_frame Method_Command OPTION_ERROR 3" sample_stops sample_table "''a''" 7 "handshake_new sample_host ''a''"
      "sample_dial ?rx" "stream_of ?rx" sample_caller, OF _ _ _ _ _ _ _ _ _ _ _ _ _ _ _ _ _ _] this
  show ?thesis
    by (simp add: transfer_samples sample_ack3_facts sample_stops_def stat_def metadata_of_def open_file_def fs_guard_def
        fs_fail_def sample_metadata_def millis_def sample_locked_fs_def
        sample_fs_def[THEN arg_cong[of _ _ fs_nodes]] sample_fs_def[THEN arg_cong[of _ _ fs_times]]
        sample_fs_def[THEN arg_cong[of _ _ fs_text]])
qed

end
