(* ===== verification/Crab_Inodes.thy ===== *)
theory Crab_Inodes
  imports Crab_Commands
begin

text \<open>
  The file system below \<open>file_sys\<close>: names, inodes and open files.

  Several commands run at the same time on one node, each as a task of its own, and a file
  opened by one of them stays open while the others rename, remove or truncate it.  An
  \<open>inode_sys\<close> therefore maps the names of files to inodes and the inodes to contents; an open
  file is the number of its inode and its own offset.  The operations are those of
  \<open>Crab_Files\<close> at this level.  \<open>view\<close> is the tree that the paths show, and every operation is
  shown to have the effect on it that \<open>Crab_Files\<close> gives it, as long as no file has two names.
\<close>

section \<open>Names and inodes\<close>

datatype dentry = Inode nat | Subdir

text \<open>\<open>in_os\<close> carries what the operating system decides; its tree is not used.\<close>

record inode_sys =
  in_names :: "path \<rightharpoonup> dentry"
  in_data :: "nat \<Rightarrow> bytes"
  in_next :: nat
  in_os :: file_sys

definition view_node :: "(nat \<Rightarrow> bytes) \<Rightarrow> dentry \<Rightarrow> fnode" where
  "view_node d e = (case e of Inode i \<Rightarrow> File (d i) | Subdir \<Rightarrow> Dir)"

definition view :: "inode_sys \<Rightarrow> file_sys" where
  "view s = (in_os s)\<lparr>fs_nodes := (\<lambda>p. map_option (view_node (in_data s)) (in_names s p))\<rparr>"

definition inodes_ok :: "inode_sys \<Rightarrow> bool" where
  "inodes_ok s \<longleftrightarrow>
    (\<forall>p i. in_names s p = Some (Inode i) \<longrightarrow> i < in_next s \<and> (\<forall>q. in_names s q = Some (Inode i) \<longrightarrow> q = p))"

definition inode_at :: "inode_sys \<Rightarrow> path \<Rightarrow> nat option" where
  "inode_at s p = (case in_names s p of Some (Inode i) \<Rightarrow> Some i | _ \<Rightarrow> None)"

section \<open>Operations\<close>

definition in_guard ::
  "fs_op \<Rightarrow> path \<Rightarrow> (file_sys \<Rightarrow> bool) \<Rightarrow> (inode_sys \<Rightarrow> inode_sys) \<Rightarrow> (inode_sys \<Rightarrow> 'a)
    \<Rightarrow> (crab_error, inode_sys, 'a) prog" where
  "in_guard op p allowed effect result s =
    (if fs_denied (in_os s) op p \<or> \<not> allowed (view s) then (Inl (fs_fail op p (in_os s)), s)
     else (Inr (result s), effect s))"

text \<open>\<open>File::create\<close>: an existing file is truncated, whoever has it open, else there is a new inode.\<close>

definition i_create :: "path \<Rightarrow> (crab_error, inode_sys, nat) prog" where
  "i_create p =
    in_guard Op_create p (\<lambda>f. p \<noteq> [] \<and> stat f p \<noteq> Some Dir \<and> parent_is_dir f p)
      (\<lambda>s. case inode_at s p of
             Some i \<Rightarrow> s\<lparr>in_data := (in_data s)(i := [])\<rparr>
           | None \<Rightarrow> s\<lparr>in_names := (in_names s)(p \<mapsto> Inode (in_next s)),
                       in_data := (in_data s)(in_next s := []), in_next := Suc (in_next s)\<rparr>)
      (\<lambda>s. case inode_at s p of Some i \<Rightarrow> i | None \<Rightarrow> in_next s)"

text \<open>Writing at an offset: a gap before it is filled with zeros.\<close>

definition overlay :: "nat \<Rightarrow> bytes \<Rightarrow> bytes \<Rightarrow> bytes" where
  "overlay off bs c = take off c @ replicate (off - length c) 0 @ bs @ drop (off + length bs) c"

text \<open>A write through an open file; the path is the one it was opened with.\<close>

definition i_write :: "path \<Rightarrow> nat \<Rightarrow> nat \<Rightarrow> bytes \<Rightarrow> (crab_error, inode_sys, unit) prog" where
  "i_write p i off bs =
    in_guard Op_write p (\<lambda>_. True)
      (\<lambda>s. s\<lparr>in_data := (in_data s)(i := overlay off bs (in_data s i))\<rparr>) (\<lambda>_. ())"

definition i_rename :: "path \<Rightarrow> path \<Rightarrow> (crab_error, inode_sys, unit) prog" where
  "i_rename p q =
    in_guard Op_rename p
      (\<lambda>f. (case stat f p of Some (File _) \<Rightarrow> True | _ \<Rightarrow> False) \<and> q \<noteq> [] \<and> stat f q \<noteq> Some Dir
         \<and> parent_is_dir f q)
      (\<lambda>s. s\<lparr>in_names := ((in_names s)(p := None))(q := in_names s p)\<rparr>) (\<lambda>_. ())"

definition i_remove :: "path \<Rightarrow> (crab_error, inode_sys, unit) prog" where
  "i_remove p =
    in_guard Op_remove p (\<lambda>f. case stat f p of Some (File _) \<Rightarrow> True | _ \<Rightarrow> False)
      (\<lambda>s. s\<lparr>in_names := (in_names s)(p := None)\<rparr>) (\<lambda>_. ())"

text \<open>What only looks at the tree, or only adds directories to it, is run on the tree.\<close>

definition on_view :: "(crab_error, file_sys, 'a) prog \<Rightarrow> (crab_error, inode_sys, 'a) prog" where
  "on_view m s =
    (case m (view s) of (r, f) \<Rightarrow>
      (r, s\<lparr>in_names := (\<lambda>p. if fs_nodes f p = Some Dir then Some Subdir else in_names s p)\<rparr>))"

section \<open>The operations seen through the paths\<close>

lemma view_os [simp]:
  "fs_denied (view s) = fs_denied (in_os s)" "fs_text (view s) = fs_text (in_os s)"
  by (simp_all add: view_def)

lemma fs_fail_view [simp]: "fs_fail op p (view s) = fs_fail op p (in_os s)"
  by (simp add: fs_fail_def)

lemma view_node_simps [simp]:
  "view_node d (Inode i) = File (d i)" "view_node d Subdir = Dir"
  "(view_node d e = Dir) = (e = Subdir)"
  by (simp_all add: view_node_def split: dentry.split)

lemma view_nodes: "fs_nodes (view s) p = map_option (view_node (in_data s)) (in_names s p)"
  by (simp add: view_def)

lemma stat_view: "stat (view s) p = (if p = [] then None else map_option (view_node (in_data s)) (in_names s p))"
  by (simp add: stat_def view_nodes)

lemma inode_at_Some: "inode_at s p = Some i \<longleftrightarrow> in_names s p = Some (Inode i)"
  by (simp add: inode_at_def split: option.split dentry.split)

lemma inode_at_None: "inode_at s p = None \<longleftrightarrow> in_names s p = None \<or> in_names s p = Some Subdir"
  by (simp add: inode_at_def split: option.split dentry.split)

lemma inodes_okD:
  assumes "inodes_ok s" "in_names s p = Some (Inode i)"
  shows "i < in_next s" "in_names s q = Some (Inode i) \<Longrightarrow> q = p"
  using assms by (auto simp: inodes_ok_def)

text \<open>A guarded operation has the effect of its counterpart if the effects agree.\<close>

lemma in_guard_view:
  assumes "allowed (view s) \<Longrightarrow> view (effect s) = effect' (view s)"
  shows "fs_guard op p allowed effect' (\<lambda>_. ()) (view s) =
    (map_sum id (\<lambda>_. ()) (fst (in_guard op p allowed effect result s)),
     view (snd (in_guard op p allowed effect result s)))"
  using assms by (simp add: fs_guard_def in_guard_def)

lemma file_sys_nodes_eq: "(f\<lparr>fs_nodes := a\<rparr> = f\<lparr>fs_nodes := b\<rparr>) = (a = b)"
  by (metis file_sys.select_convs(1) file_sys.surjective file_sys.update_convs(1))

lemma view_names [simp]:
  "view (s\<lparr>in_names := n\<rparr>) = (view s)\<lparr>fs_nodes := (\<lambda>p. map_option (view_node (in_data s)) (n p))\<rparr>"
  by (simp add: view_def)

lemma view_nodes_id [simp]: "(f\<lparr>fs_nodes := fs_nodes f\<rparr>) = f"
  by simp

lemma view_node_upd:
  "view_node (d(i := c)) e = (if e = Inode i then File c else view_node d e)"
  by (simp add: view_node_def split: dentry.split)

lemma inodes_fresh: "inodes_ok s \<Longrightarrow> in_names s q \<noteq> Some (Inode (in_next s))"
  by (auto simp: inodes_ok_def)

text \<open>New contents for an inode, or for the next one, are seen at its one name.\<close>

lemma view_data:
  assumes "inodes_ok s" "in_names s p = Some (Inode i)"
  shows "view (s\<lparr>in_data := (in_data s)(i := c)\<rparr>) = (view s)\<lparr>fs_nodes := (fs_nodes (view s))(p \<mapsto> File c)\<rparr>"
  using assms
  by (auto simp: view_def file_sys_nodes_eq fun_eq_iff view_node_upd inodes_ok_def intro!: option.map_cong)

lemma view_fresh:
  assumes "inodes_ok s"
  shows "view (s\<lparr>in_names := (in_names s)(p \<mapsto> Inode (in_next s)), in_data := (in_data s)(in_next s := c),
      in_next := n\<rparr>) = (view s)\<lparr>fs_nodes := (fs_nodes (view s))(p \<mapsto> File c)\<rparr>"
  using inodes_fresh[OF assms]
  by (auto simp: view_def file_sys_nodes_eq fun_eq_iff view_node_upd intro!: option.map_cong)

lemma i_create_view:
  assumes "inodes_ok s" "i_create p s = (r, t)"
  shows "create_file p (view s) = (map_sum id (\<lambda>_. ()) r, view t)"
  using assms
  by (auto simp: create_file_def fs_guard_def i_create_def in_guard_def view_data view_fresh inode_at_Some
      simp del: view_names split: if_splits option.splits)

lemma i_rename_view:
  assumes "i_rename p q s = (r, t)"
  shows "rename p q (view s) = (r, view t)"
  using assms
  by (cases "q = []")
    (auto simp: rename_def fs_guard_def i_rename_def in_guard_def file_sys_nodes_eq fun_eq_iff stat_def view_nodes
      split: if_splits)

lemma i_remove_view:
  assumes "i_remove p s = (r, t)"
  shows "remove_file p (view s) = (r, view t)"
  using assms
  by (auto simp: remove_file_def fs_guard_def i_remove_def in_guard_def file_sys_nodes_eq fun_eq_iff view_nodes
      split: if_splits)

text \<open>Appending through an open file adds to the contents at its name.\<close>

lemma i_write_view:
  assumes "inodes_ok s" "in_names s p = Some (Inode i)" "off = length (in_data s i)" "p \<noteq> []"
    and "i_write p i off bs s = (r, t)"
  shows "write_contents p (in_data s i @ bs) (view s) = (r, view t)"
  using assms(3-5)
  by (auto simp: write_contents_def fs_guard_def i_write_def in_guard_def stat_view assms(2) overlay_def
      view_data[OF assms(1,2)] split: if_splits)

text \<open>Adding directories: the tree is the one the program leaves.\<close>

lemma on_view_view:
  assumes "on_view m s = (r, t)" "m (view s) = (r, f)"
    and "\<And>p. fs_nodes f p \<noteq> fs_nodes (view s) p \<Longrightarrow> fs_nodes f p = Some Dir" "f\<lparr>fs_nodes := g\<rparr> = (view s)\<lparr>fs_nodes := g\<rparr>"
  shows "view t = f"
proof -
  have "fs_nodes (view t) p = fs_nodes f p" for p
    using assms(1,2) assms(3)[of p] by (cases "fs_nodes f p = fs_nodes (view s) p") (auto simp: on_view_def view_nodes)
  then have "fs_nodes (view t) = fs_nodes f" by auto
  moreover have "(view t)\<lparr>fs_nodes := g\<rparr> = f\<lparr>fs_nodes := g\<rparr>"
    using assms(1,2,4) by (auto simp: on_view_def view_def)
  ultimately show ?thesis by (metis file_sys.surjective file_sys.update_convs(1) view_nodes_id)
qed

section \<open>What the operations keep\<close>

lemma inodes_ok_less:
  assumes "inodes_ok s" "in_next t = in_next s"
    and "\<And>p i. in_names t p = Some (Inode i) \<Longrightarrow> in_names s p = Some (Inode i)"
  shows "inodes_ok t"
  using assms unfolding inodes_ok_def by metis

lemma inodes_ok_fresh:
  "inodes_ok s \<Longrightarrow>
     inodes_ok (s\<lparr>in_names := (in_names s)(p \<mapsto> Inode (in_next s)), in_data := d, in_next := Suc (in_next s)\<rparr>)"
  using inodes_fresh[of s] by (auto simp: inodes_ok_def less_Suc_eq)

lemma i_create_ok: "inodes_ok s \<Longrightarrow> i_create p s = (r, t) \<Longrightarrow> inodes_ok t"
  by (auto simp: i_create_def in_guard_def intro: inodes_ok_fresh elim: inodes_ok_less split: if_splits option.splits)

lemma i_write_ok: "inodes_ok s \<Longrightarrow> i_write p i off bs s = (r, t) \<Longrightarrow> inodes_ok t"
  by (auto simp: i_write_def in_guard_def elim!: inodes_ok_less split: if_splits)

lemma i_remove_ok: "inodes_ok s \<Longrightarrow> i_remove p s = (r, t) \<Longrightarrow> inodes_ok t"
  by (auto simp: i_remove_def in_guard_def elim!: inodes_ok_less split: if_splits)

lemma on_view_ok: "inodes_ok s \<Longrightarrow> on_view m s = (r, t) \<Longrightarrow> inodes_ok t"
  by (auto simp: on_view_def elim!: inodes_ok_less split: if_splits prod.splits)

lemma i_rename_ok: "inodes_ok s \<Longrightarrow> i_rename p q s = (r, t) \<Longrightarrow> inodes_ok t"
  by (fastforce simp: i_rename_def in_guard_def inodes_ok_def split: if_splits)

lemmas inodes_ok_steps = i_create_ok i_write_ok i_remove_ok on_view_ok i_rename_ok

lemma in_os_steps:
  "i_create p s = (r, t) \<Longrightarrow> in_os t = in_os s"
  "i_write p i off bs s = (r', t) \<Longrightarrow> in_os t = in_os s"
  "i_rename p q s = (r', t) \<Longrightarrow> in_os t = in_os s"
  "i_remove p s = (r', t) \<Longrightarrow> in_os t = in_os s"
  "on_view m s = (r'', t) \<Longrightarrow> in_os t = in_os s"
  by (auto simp: i_create_def i_write_def i_rename_def i_remove_def on_view_def in_guard_def
      split: if_splits option.splits prod.splits)

end
