(* ===== verification/Crab_Writes.thy ===== *)
theory Crab_Writes
  imports Crab_Inodes
begin

text \<open>
  \<open>WriteFile::handle\<close> of \<^verbatim>\<open>src/src/app/protocol/commands.rs\<close> step by step.

  A \<open>phase\<close> is the point the handler has reached with its local variables: the path of the
  temporary file, the open file (inode and offset), the outcome of the copy, the
  acknowledgement.  \<open>write_step\<close> takes one step of one handler, up to the next await: a
  message on its stream, one call of the file system, or one chunk of \<open>io::copy\<close>, whose size
  the code does not determine.
\<close>

section \<open>The steps of one handler\<close>

datatype phase =
    Ph_ack1
  | Ph_temp
  | Ph_mkfile path
  | Ph_refuse crab_error
  | Ph_ack2 path nat
  | Ph_ready path nat
  | Ph_copy path nat nat
  | Ph_check path "crab_error + unit"
  | Ph_publish path "crab_error + unit"
  | Ph_cleanup path ack_message
  | Ph_answer ack_message
  | Ph_end "crab_error + unit"

type_synonym handler = "phase \<times> stream \<times> inode_sys"

definition on_result :: "(crab_error \<Rightarrow> phase) \<Rightarrow> ('a \<Rightarrow> phase) \<Rightarrow> crab_error + 'a \<Rightarrow> phase" where
  "on_result bad good r = (case r of Inl e \<Rightarrow> bad e | Inr a \<Rightarrow> good a)"

definition check_exists :: "write_file \<Rightarrow> inode_sys \<Rightarrow> crab_error + unit" where
  "check_exists cmd s =
    (case fst (try_exists (components (wf_path cmd)) (view s)) of
       Inl e \<Rightarrow> Inl e
     | Inr exists \<Rightarrow>
         if \<not> exists \<or> \<not> wf_overwrite cmd then Inr () else Inl (IO ''File already exists''))"

text \<open>\<open>can\<close>: whether the token of the handler may fire.\<close>

inductive write_step ::
  "ack_message codec \<Rightarrow> bool \<Rightarrow> write_file \<Rightarrow> message_header \<Rightarrow> handler \<Rightarrow> handler \<Rightarrow> bool"
  for ac can cmd h where
  ack1: "answer ac h ack_success u = (r, u') \<Longrightarrow>
    write_step ac can cmd h (Ph_ack1, u, s) (on_result (\<lambda>e. Ph_end (Inl e)) (\<lambda>_. Ph_temp) r, u', s)"
| temp: "on_view (generate_temp_path (wf_path cmd) (wf_mkdir cmd)) s = (r, s') \<Longrightarrow>
    write_step ac can cmd h (Ph_temp, u, s) (on_result Ph_refuse Ph_mkfile r, u, s')"
| mkfile: "i_create t s = (r, s') \<Longrightarrow>
    write_step ac can cmd h (Ph_mkfile t, u, s) (on_result Ph_refuse (Ph_ack2 t) r, u, s')"
| refuse: "answer_error ac h e u = (r, u') \<Longrightarrow>
    write_step ac can cmd h (Ph_refuse e, u, s)
      (on_result (\<lambda>e'. Ph_end (Inl e')) (\<lambda>_. Ph_end (Inl e)) r, u', s)"
| ack2: "answer ac h ack_success u = (r, u') \<Longrightarrow>
    write_step ac can cmd h (Ph_ack2 t i, u, s) (on_result (\<lambda>e. Ph_end (Inl e)) (\<lambda>_. Ph_ready t i) r, u', s)"
| ready: "read_ack ac u = (r, u') \<Longrightarrow>
    write_step ac can cmd h (Ph_ready t i, u, s) (on_result (\<lambda>e. Ph_end (Inl e)) (\<lambda>_. Ph_copy t i 0) r, u', s)"
| chunk: "0 < n \<Longrightarrow> n \<le> length (rx u) \<Longrightarrow> i_write t i off (take n (rx u)) s = (r, s') \<Longrightarrow>
    write_step ac can cmd h (Ph_copy t i off, u, s)
      (on_result (\<lambda>e. Ph_check t (Inl e)) (\<lambda>_. Ph_copy t i (off + n)) r, u\<lparr>rx := drop n (rx u)\<rparr>, s')"
| finished: "rx u = [] \<Longrightarrow>
    write_step ac can cmd h (Ph_copy t i off, u, s)
      (Ph_check t (if rx_fin u then Inr () else Inl (IO (rx_err u))), u, s)"
| cancelled: "can \<Longrightarrow>
    write_step ac can cmd h (Ph_copy t i off, u, s) (Ph_check t (Inl (ErrorCode CANCELED_ERROR)), u, s)"
| check: "write_step ac can cmd h (Ph_check t copied, u, s)
      (Ph_publish t (case copied of Inl e \<Rightarrow> Inl e | Inr _ \<Rightarrow> check_exists cmd s), u, s)"
| rejected: "write_step ac can cmd h (Ph_publish t (Inl e), u, s) (Ph_cleanup t (ack_from_error e), u, s)"
| publish: "i_rename t (components (wf_path cmd)) s = (r, s') \<Longrightarrow>
    write_step ac can cmd h (Ph_publish t (Inr ()), u, s)
      (on_result (\<lambda>e. Ph_cleanup t (ack_from_error e)) (\<lambda>_. Ph_cleanup t ack_success) r, u, s')"
| keep: "ack_code a = NO_ERROR \<Longrightarrow> write_step ac can cmd h (Ph_cleanup t a, u, s) (Ph_answer a, u, s)"
| discard: "ack_code a \<noteq> NO_ERROR \<Longrightarrow> i_remove t s = (r, s') \<Longrightarrow>
    write_step ac can cmd h (Ph_cleanup t a, u, s) (Ph_answer a, u, s')"
| reply: "answer ac h a u = (r, u') \<Longrightarrow>
    write_step ac can cmd h (Ph_answer a, u, s) (Ph_end r, u', s)"

inductive_simps write_step_simps [simp]:
  "write_step ac can cmd h (Ph_ack1, u, s) x"
  "write_step ac can cmd h (Ph_temp, u, s) x"
  "write_step ac can cmd h (Ph_mkfile t, u, s) x"
  "write_step ac can cmd h (Ph_refuse e, u, s) x"
  "write_step ac can cmd h (Ph_ack2 t i, u, s) x"
  "write_step ac can cmd h (Ph_ready t i, u, s) x"
  "write_step ac can cmd h (Ph_copy t i off, u, s) x"
  "write_step ac can cmd h (Ph_check t copied, u, s) x"
  "write_step ac can cmd h (Ph_publish t checked, u, s) x"
  "write_step ac can cmd h (Ph_cleanup t a, u, s) x"
  "write_step ac can cmd h (Ph_answer a, u, s) x"
  "write_step ac can cmd h (Ph_end r, u, s) x"

abbreviation write_run ::
  "ack_message codec \<Rightarrow> bool \<Rightarrow> write_file \<Rightarrow> message_header \<Rightarrow> handler \<Rightarrow> handler \<Rightarrow> bool" where
  "write_run ac can cmd h \<equiv> (write_step ac can cmd h)\<^sup>*\<^sup>*"

lemma on_result_simps [simp]:
  "on_result f g (Inl e) = f e" "on_result f g (Inr a) = g a"
  by (simp_all add: on_result_def)

section \<open>What a step keeps\<close>

fun phase_ok :: "phase \<Rightarrow> inode_sys \<Rightarrow> bool" where
  "phase_ok (Ph_ack2 t i) s \<longleftrightarrow> t \<noteq> [] \<and> in_names s t = Some (Inode i) \<and> in_data s i = []"
| "phase_ok (Ph_ready t i) s \<longleftrightarrow> t \<noteq> [] \<and> in_names s t = Some (Inode i) \<and> in_data s i = []"
| "phase_ok (Ph_copy t i off) s \<longleftrightarrow> t \<noteq> [] \<and> in_names s t = Some (Inode i) \<and> length (in_data s i) = off"
| "phase_ok _ s \<longleftrightarrow> True"

definition writes_permitted :: "inode_sys \<Rightarrow> bool" where
  "writes_permitted s \<longleftrightarrow> (\<forall>p. \<not> fs_denied (in_os s) Op_write p)"

definition handler_ok :: "handler \<Rightarrow> bool" where
  "handler_ok x = (case x of (ph, u, s) \<Rightarrow> inodes_ok s \<and> phase_ok ph s)"

lemma handler_okD: "handler_ok (ph, u, s) \<Longrightarrow> inodes_ok s" "handler_ok (ph, u, s) \<Longrightarrow> phase_ok ph s"
  by (simp_all add: handler_ok_def)

lemma i_create_inode:
  "i_create p s = (Inr i, t) \<Longrightarrow> p \<noteq> [] \<and> in_names t p = Some (Inode i) \<and> in_data t i = []"
  using inode_at_Some[of s p "the (inode_at s p)"]
  by (cases "inode_at s p") (auto simp: i_create_def in_guard_def split: if_splits)

lemma overlay_length: "length (overlay off bs c) = max (length c) (off + length bs)"
  by (simp add: overlay_def)

lemma write_step_ok:
  assumes "write_step ac can cmd h x y" "handler_ok x"
  shows "handler_ok y"
  using assms
proof (cases rule: write_step.cases)
  case (mkfile t s r s' u)
  with assms(2) show ?thesis
    by (cases r) (auto simp: handler_ok_def dest: i_create_ok i_create_inode)
next
  case (chunk n u t i off s r s')
  with assms(2) show ?thesis
    by (auto simp: handler_ok_def i_write_def in_guard_def overlay_length inodes_ok_def
        split: if_splits)
qed (auto simp: handler_ok_def on_result_def dest: inodes_ok_steps split: sum.splits)

lemma write_step_os:
  assumes "write_step ac can cmd h (ph, u, s) (ph', u', s')"
  shows "in_os s' = in_os s"
  using assms by cases (auto simp: in_os_steps)


section \<open>What is left to do at a phase\<close>

text \<open>
  \<open>write_rest\<close> is the handler of \<open>Crab_Commands\<close> from a phase on, over the tree; in the copy
  the contents received so far are those of the temporary file.
\<close>

definition with_fs :: "stream \<Rightarrow> file_sys \<Rightarrow> world" where
  "with_fs u f = stream.extend u \<lparr>w_fs = f\<rparr>"

definition copied_so_far :: "path \<Rightarrow> 'z world_scheme \<Rightarrow> bytes" where
  "copied_so_far t w = (case stat (w_fs w) t of Some (File c) \<Rightarrow> c | _ \<Rightarrow> [])"

definition receive_more :: "token \<Rightarrow> path \<Rightarrow> ('z, unit) wprog" where
  "receive_more tok t w =
    (let (got, left) = (case tok of Some n \<Rightarrow> (take n (rx w), drop n (rx w)) | None \<Rightarrow> (rx w, [])) in
     andthen (if got = [] then ret () else on_fs (write_contents t (copied_so_far t w @ got))) (\<lambda>_.
       case tok of
         Some _ \<Rightarrow> throw (ErrorCode CANCELED_ERROR)
       | None \<Rightarrow> if rx_fin w then ret () else throw (IO (rx_err w)))
     (w\<lparr>rx := left\<rparr>))"

definition write_settle ::
  "ack_message codec \<Rightarrow> write_file \<Rightarrow> message_header \<Rightarrow> path \<Rightarrow> crab_error + unit \<Rightarrow> ('z, unit) wprog" where
  "write_settle ac cmd h t copied =
    andthen (attempt (write_check cmd copied)) (\<lambda>checked.
    andthen (write_publish cmd t checked) (\<lambda>a.
    andthen (write_cleanup t a) (\<lambda>_. answer ac h a)))"

definition write_accept ::
  "ack_message codec \<Rightarrow> token \<Rightarrow> write_file \<Rightarrow> message_header \<Rightarrow> path \<Rightarrow> ('z, unit) wprog" where
  "write_accept ac tok cmd h t =
    andthen (answer ac h ack_success) (\<lambda>_.
    andthen (read_ack ac) (\<lambda>_. write_receive ac tok cmd h t))"

fun write_rest ::
  "ack_message codec \<Rightarrow> token \<Rightarrow> write_file \<Rightarrow> message_header \<Rightarrow> phase \<Rightarrow> ('z, unit) wprog" where
  "write_rest ac tok cmd h (Ph_end r) = lift r"
| "write_rest ac tok cmd h (Ph_answer a) = answer ac h a"
| "write_rest ac tok cmd h (Ph_cleanup t a) =
    andthen (write_cleanup t a) (\<lambda>_. answer ac h a)"
| "write_rest ac tok cmd h (Ph_publish t checked) =
    andthen (write_publish cmd t checked) (\<lambda>a.
    andthen (write_cleanup t a) (\<lambda>_. answer ac h a))"
| "write_rest ac tok cmd h (Ph_check t copied) = write_settle ac cmd h t copied"
| "write_rest ac tok cmd h (Ph_copy t i off) =
    andthen (attempt (receive_more tok t)) (\<lambda>copied. write_settle ac cmd h t copied)"
| "write_rest ac tok cmd h (Ph_ready t i) =
    andthen (read_ack ac) (\<lambda>_. write_receive ac tok cmd h t)"
| "write_rest ac tok cmd h (Ph_ack2 t i) = write_accept ac tok cmd h t"
| "write_rest ac tok cmd h (Ph_refuse e) = andthen (answer_error ac h e) (\<lambda>_. throw e)"
| "write_rest ac tok cmd h (Ph_mkfile t) =
    andthen (attempt (on_fs (create_file t))) (\<lambda>created.
      case created of
        Inl e \<Rightarrow> andthen (answer_error ac h e) (\<lambda>_. throw e)
      | Inr _ \<Rightarrow> write_accept ac tok cmd h t)"
| "write_rest ac tok cmd h Ph_temp =
    andthen (attempt (create_temp_file cmd)) (\<lambda>created.
      case created of
        Inl e \<Rightarrow> andthen (answer_error ac h e) (\<lambda>_. throw e)
      | Inr t \<Rightarrow> write_accept ac tok cmd h t)"
| "write_rest ac tok cmd h Ph_ack1 = write_file_handle ac tok cmd h"

lemma with_fs_simps [simp]:
  "rx (with_fs u f) = rx u" "rx_fin (with_fs u f) = rx_fin u" "rx_err (with_fs u f) = rx_err u"
  "w_fs (with_fs u f) = f" "(with_fs u f)\<lparr>w_fs := g\<rparr> = with_fs u g" "(with_fs u f)\<lparr>rx := b\<rparr> = with_fs (u\<lparr>rx := b\<rparr>) f"
  "with_fs u f = with_fs u' f' \<longleftrightarrow> u = u' \<and> f = f'"
  by (cases u; cases u'; simp add: with_fs_def stream.defs)+

lemma world_with_fs: "\<exists>u f. (w :: world) = with_fs u f"
  by (intro exI[of _ "stream.truncate w"] exI[of _ "w_fs w"], cases w) (simp add: with_fs_def stream.defs)

lemma write_bytes_with: "write_bytes mk bs (with_fs u f) = map_prod id (\<lambda>u. with_fs u f) (write_bytes mk bs u)"
  by (cases u) (simp add: write_bytes_def with_fs_def stream.defs split: option.split)

lemma write_message_with:
  "write_message c me op m (with_fs u f) = map_prod id (\<lambda>u. with_fs u f) (write_message c me op m u)"
  by (simp add: write_message_def write_all_def write_bytes_with split: option.split)

lemma answer_with: "answer c h m (with_fs u f) = map_prod id (\<lambda>u. with_fs u f) (answer c h m u)"
  by (simp add: answer_def write_message_with)

lemma answer_error_with: "answer_error ac h e (with_fs u f) = map_prod id (\<lambda>u. with_fs u f) (answer_error ac h e u)"
  by (simp add: answer_error_def write_error_def write_message_with)

lemma read_exact_with: "read_exact n (with_fs u f) = map_prod id (\<lambda>u. with_fs u f) (read_exact n u)"
  by (simp add: read_exact_def)

lemma andthen_with:
  assumes "m (with_fs u f) = map_prod id (\<lambda>u. with_fs u f) (m' u)"
    and "\<And>a u. g a (with_fs u f) = map_prod id (\<lambda>u. with_fs u f) (g' a u)"
  shows "andthen m g (with_fs u f) = map_prod id (\<lambda>u. with_fs u f) (andthen m' g' u)"
  using assms by (auto simp: andthen_def split: prod.splits sum.splits)

lemma read_message_with:
  "read_message ac c (with_fs u f) = map_prod id (\<lambda>u. with_fs u f) (read_message ac c u)"
  unfolding read_message_def
  by (rule andthen_with, rule read_exact_with) (auto intro!: andthen_with read_exact_with split: option.split)

lemma read_ack_with: "read_ack ac (with_fs u f) = map_prod id (\<lambda>u. with_fs u f) (read_ack ac u)"
  unfolding read_ack_def by (rule andthen_with, rule read_message_with) auto

lemmas stream_with = answer_with answer_error_with read_ack_with


section \<open>A step and what is left\<close>

lemma generate_temp_path_dirs:
  assumes "generate_temp_path target mkdir f = (r, g)"
  shows "fs_nodes g p \<noteq> fs_nodes f p \<Longrightarrow> fs_nodes g p = Some Dir" "g\<lparr>fs_nodes := n\<rparr> = f\<lparr>fs_nodes := n\<rparr>"
  using assms
  by (auto simp: generate_temp_path_def Let_def andthen_def fs_op_defs fs_guard_def
      split: option.splits if_splits prod.splits sum.splits)

lemma temp_path_view:
  assumes "on_view (generate_temp_path target mkdir) s = (r, t)"
  shows "generate_temp_path target mkdir (view s) = (r, view t)"
proof -
  obtain f where f: "generate_temp_path target mkdir (view s) = (r, f)"
    using assms by (auto simp: on_view_def split: prod.splits)
  with on_view_view[OF assms f generate_temp_path_dirs[OF f]] show ?thesis by simp
qed

lemma on_fs_with: "on_fs m (with_fs u f) = (fst (m f), with_fs u (snd (m f)))"
  by (simp add: on_fs_apply)

text \<open>The outcome of the copy, from its three kinds of steps.\<close>

lemma view_same:
  assumes "in_names s t = Some (Inode i)"
  shows "(view s)\<lparr>fs_nodes := (fs_nodes (view s))(t \<mapsto> File (in_data s i))\<rparr> = view s"
  using assms by (simp add: fun_upd_idem view_nodes)

lemma receive_more_simps:
  assumes "\<not> fs_denied (in_os s) Op_write t" "in_names s t = Some (Inode i)" "t \<noteq> []"
  shows "receive_more (Some n) t (with_fs u (view s)) =
      (Inl (ErrorCode CANCELED_ERROR), with_fs (u\<lparr>rx := drop n (rx u)\<rparr>)
        ((view s)\<lparr>fs_nodes := (fs_nodes (view s))(t \<mapsto> File (in_data s i @ take n (rx u)))\<rparr>))"
    and "receive_more None t (with_fs u (view s)) =
      (if rx_fin u then Inr () else Inl (IO (rx_err u)), with_fs (u\<lparr>rx := []\<rparr>)
        ((view s)\<lparr>fs_nodes := (fs_nodes (view s))(t \<mapsto> File (in_data s i @ rx u))\<rparr>))"
proof -
  have put: "on_fs (write_contents t (in_data s i @ bs)) (with_fs v (view s)) =
      (Inr (), with_fs v ((view s)\<lparr>fs_nodes := (fs_nodes (view s))(t \<mapsto> File (in_data s i @ bs))\<rparr>))" for bs v
    using assms by (simp add: on_fs_with write_contents_def fs_guard_def stat_view)
  have c: "copied_so_far t (with_fs v (view s)) = in_data s i" for v
    using assms by (simp add: copied_so_far_def stat_view)
  show "receive_more (Some n) t (with_fs u (view s)) =
      (Inl (ErrorCode CANCELED_ERROR), with_fs (u\<lparr>rx := drop n (rx u)\<rparr>)
        ((view s)\<lparr>fs_nodes := (fs_nodes (view s))(t \<mapsto> File (in_data s i @ take n (rx u)))\<rparr>))"
    using put[of "take n (rx u)"] view_same[OF assms(2)]
    by (cases "take n (rx u) = []") (auto simp: receive_more_def andthen_def c)
  show "receive_more None t (with_fs u (view s)) =
      (if rx_fin u then Inr () else Inl (IO (rx_err u)), with_fs (u\<lparr>rx := []\<rparr>)
        ((view s)\<lparr>fs_nodes := (fs_nodes (view s))(t \<mapsto> File (in_data s i @ rx u))\<rparr>))"
    using put[of "rx u"] view_same[OF assms(2)]
    by (cases "rx u = []") (simp_all add: receive_more_def andthen_def c)
qed

text \<open>A refused write ends the copy at its first bytes; without any, none is refused.\<close>

lemma receive_more_refused:
  assumes "fs_denied (in_os s) Op_write t" "(case tok of Some n \<Rightarrow> take n (rx u) | None \<Rightarrow> rx u) \<noteq> []"
  shows "\<exists>left. receive_more tok t (with_fs u (view s)) =
    (Inl (fs_fail Op_write t (in_os s)), with_fs (u\<lparr>rx := left\<rparr>) (view s))"
  using assms
  by (cases tok) (auto simp: receive_more_def andthen_def on_fs_with write_contents_def fs_guard_def)

lemma receive_more_nothing:
  assumes "(case tok of Some n \<Rightarrow> take n (rx u) | None \<Rightarrow> rx u) = []"
  shows "receive_more tok t (with_fs u f) =
    (case tok of Some _ \<Rightarrow> Inl (ErrorCode CANCELED_ERROR) | None \<Rightarrow> if rx_fin u then Inr () else Inl (IO (rx_err u)),
     with_fs u f)"
  using assms
  by (cases tok; cases u) (auto simp: receive_more_def andthen_def)

lemma receive_more_start:
  assumes "stat f t = Some (File [])"
  shows "receive_more tok t (with_fs u f) = receive_contents tok t (with_fs u f)"
  using assms
  by (cases tok) (simp_all add: receive_more_def receive_contents_def copied_so_far_def)

lemma andthen_eq: "m w = (r, w') \<Longrightarrow> andthen m g w = (case r of Inl e \<Rightarrow> (Inl e, w') | Inr a \<Rightarrow> g a w')"
  by (simp add: andthen_def)

lemma attempt_eq: "m w = (r, w') \<Longrightarrow> andthen (attempt m) g w = g r w'"
  by (simp add: andthen_def attempt_def)

lemma write_file_handle_accept:
  "write_file_handle ac tok cmd h =
    andthen (answer ac h ack_success) (\<lambda>_.
    andthen (attempt (create_temp_file cmd)) (\<lambda>created.
      case created of
        Inl e \<Rightarrow> andthen (answer_error ac h e) (\<lambda>_. throw e)
      | Inr t \<Rightarrow> write_accept ac tok cmd h t))"
  by (simp only: write_file_handle_def write_accept_def)

lemma write_receive_settle:
  "write_receive ac tok cmd h t =
    andthen (attempt (receive_contents tok t)) (\<lambda>copied. write_settle ac cmd h t copied)"
  by (simp only: write_receive_def write_settle_def)

lemma write_step_rest:
  assumes "write_step ac can cmd h (ph, u, s) (ph', u', s')" "handler_ok (ph, u, s)"
    and "\<And>t i off. ph \<noteq> Ph_copy t i off"
  shows "write_rest ac tok cmd h ph (with_fs u (view s)) = write_rest ac tok cmd h ph' (with_fs u' (view s'))"
  using assms(1)
proof (cases rule: write_step.cases)
  case (ack1 r)
  then show ?thesis
    by (cases r) (simp_all add: write_file_handle_accept andthen_def answer_with)
next
  case (temp r)
  from temp have v: "generate_temp_path (wf_path cmd) (wf_mkdir cmd) (view s) = (r, view s')"
    by (intro temp_path_view) simp
  show ?thesis
  proof (cases r)
    case (Inl e)
    with temp v show ?thesis by (simp add: create_temp_file_def andthen_def attempt_def on_fs_with)
  next
    case (Inr t)
    with temp v show ?thesis
      by (auto simp: create_temp_file_def andthen_def attempt_def on_fs_with split: sum.split prod.split)
  qed
next
  case (mkfile t r)
  have "create_file t (view s) = (map_sum id (\<lambda>_. ()) r, view s')"
    by (rule i_create_view) (use assms(2) mkfile in \<open>auto simp: handler_ok_def\<close>)
  with mkfile show ?thesis
    by (cases r) (simp_all add: andthen_def attempt_def on_fs_with)
next
  case (refuse e r)
  then show ?thesis
    by (cases r) (simp_all add: andthen_def answer_error_with)
next
  case (ack2 r t i)
  then show ?thesis by (cases r) (simp_all add: write_accept_def andthen_def answer_with)
next
  case (ready r t i)
  have "stat (view s) t = Some (File [])"
    using assms(2) ready by (simp add: handler_ok_def stat_view)
  with ready show ?thesis
    by (cases r) (simp_all add: andthen_def attempt_def read_ack_with write_receive_settle receive_more_start)
next
  case (check t copied)
  then show ?thesis
    by (cases copied)
      (auto simp: write_settle_def write_check_def check_exists_def andthen_def attempt_def on_fs_with
        try_exists_def fs_guard_def)
next
  case (publish t r)
  from publish have "rename t (components (wf_path cmd)) (view s) = (r, view s')"
    by (intro i_rename_view) simp
  with publish show ?thesis
    by (cases r) (simp_all add: write_publish_def andthen_def attempt_def on_fs_with)
next
  case (discard a t r)
  from discard have "remove_file t (view s) = (r, view s')"
    by (intro i_remove_view) simp
  with discard show ?thesis
    by (simp add: write_cleanup_def andthen_def attempt_def on_fs_with)
next
  case (reply a r)
  then show ?thesis by (cases r) (simp_all add: answer_with)
qed (use assms(3) in \<open>auto simp: write_publish_def write_cleanup_def andthen_def\<close>)

text \<open>In the copy the token of what is left has moved on with the bytes copied.\<close>

lemma copy_chunk_rest:
  assumes "handler_ok (Ph_copy t i off, u, s)" "i_write t i off (take n (rx u)) s = (Inr v, s')" "n \<le> length (rx u)"
  shows "write_rest ac (map_option ((+) n) tok) cmd h (Ph_copy t i off) (with_fs u (view s)) =
    write_rest ac tok cmd h (Ph_copy t i (off + n)) (with_fs (u\<lparr>rx := drop n (rx u)\<rparr>) (view s'))"
proof -
  from assms(1) have ok: "inodes_ok s" "in_names s t = Some (Inode i)" "t \<noteq> []" "off = length (in_data s i)"
    by (auto simp: handler_ok_def)
  with assms(2) have w: "\<not> fs_denied (in_os s) Op_write t"
    and s': "s' = s\<lparr>in_data := (in_data s)(i := in_data s i @ take n (rx u))\<rparr>"
    by (auto simp: i_write_def in_guard_def overlay_def split: if_splits)
  have ok': "\<not> fs_denied (in_os s') Op_write t" "in_names s' t = Some (Inode i)"
    using ok w by (auto simp: s')
  have v: "view s' = (view s)\<lparr>fs_nodes := (fs_nodes (view s))(t \<mapsto> File (in_data s i @ take n (rx u)))\<rparr>"
    by (simp add: s' view_data[OF ok(1,2)])
  show ?thesis
  proof (cases tok)
    case None
    then show ?thesis
      by (simp add: andthen_def attempt_def receive_more_simps[OF w ok(2,3)] receive_more_simps[OF ok' ok(3)])
        (simp add: v, simp add: s')
  next
    case (Some m)
    then show ?thesis
      by (simp add: andthen_def attempt_def receive_more_simps[OF w ok(2,3)] receive_more_simps[OF ok' ok(3)])
        (simp add: v, simp add: s' take_add[of n m] add.commute[of m n])
  qed
qed

lemma copy_end_rest:
  shows "rx u = [] \<Longrightarrow> write_rest ac None cmd h (Ph_copy t i off) (with_fs u f) =
      write_rest ac tok cmd h (Ph_check t (if rx_fin u then Inr () else Inl (IO (rx_err u)))) (with_fs u f)"
    and "m = 0 \<or> rx u = [] \<Longrightarrow> write_rest ac (Some m) cmd h (Ph_copy t i off) (with_fs u f) =
      write_rest ac tok cmd h (Ph_check t (Inl (ErrorCode CANCELED_ERROR))) (with_fs u f)"
  using receive_more_nothing[where tok = None and u = u and t = t and f = f]
    receive_more_nothing[where tok = "Some m" and u = u and t = t and f = f]
  by (auto simp: andthen_def attempt_def)

text \<open>
  After a refused write the input that is left depends on the size of the chunk, and nobody
  looks at it: \<open>seen\<close> leaves it out, if a write may be refused.
\<close>

definition seen :: "inode_sys \<Rightarrow> stream \<Rightarrow> stream" where
  "seen s u = (if writes_permitted s then u else u\<lparr>rx := []\<rparr>)"

definition seen_end :: "inode_sys \<Rightarrow> (crab_error + unit) \<times> world \<Rightarrow> (crab_error + unit) \<times> stream \<times> file_sys" where
  "seen_end s x = (case x of (r, w) \<Rightarrow> (r, seen s (stream.truncate w), w_fs w))"

lemma seen_end_with [simp]: "seen_end s (r, with_fs u f) = (r, seen s u, f)"
  by (cases u) (simp add: seen_end_def with_fs_def stream.defs)

lemma seen_os: "in_os t = in_os s \<Longrightarrow> seen_end t = seen_end s"
  by (simp add: fun_eq_iff seen_end_def seen_def writes_permitted_def split: prod.split)

lemma write_bytes_left:
  "write_bytes mk bs (u\<lparr>rx := b\<rparr>) = map_prod id (\<lambda>u. u\<lparr>rx := b\<rparr>) (write_bytes mk bs u)"
  by (cases u) (simp add: write_bytes_def split: option.split)

lemma answer_left:
  "answer c h m (u\<lparr>rx := b\<rparr>) = map_prod id (\<lambda>u. u\<lparr>rx := b\<rparr>) (answer c h m u)"
  by (simp add: answer_def write_message_def write_all_def write_bytes_left split: option.split)

lemma on_fs_left: "on_fs m (w\<lparr>rx := b\<rparr>) = map_prod id (\<lambda>w. w\<lparr>rx := b\<rparr>) (on_fs m w)"
  by (cases w) (simp add: on_fs_apply)

lemma andthen_left:
  fixes m :: "('z, 'a) wprog"
  assumes "\<And>w. m (w\<lparr>rx := b\<rparr>) = map_prod id (\<lambda>w. w\<lparr>rx := b\<rparr>) (m w)"
    and "\<And>a w. g a (w\<lparr>rx := b\<rparr>) = map_prod id (\<lambda>w. w\<lparr>rx := b\<rparr>) (g a w)"
  shows "andthen m g (w\<lparr>rx := b\<rparr>) = map_prod id (\<lambda>w. w\<lparr>rx := b\<rparr>) (andthen m g w)"
  using assms by (auto simp: andthen_def split: prod.splits sum.splits)

lemma attempt_left:
  assumes "\<And>w. m (w\<lparr>rx := b\<rparr>) = map_prod id (\<lambda>w. w\<lparr>rx := b\<rparr>) (m w)"
  shows "attempt m (w\<lparr>rx := b\<rparr>) = map_prod id (\<lambda>w. w\<lparr>rx := b\<rparr>) (attempt m w)"
  using assms by (simp add: attempt_def split: prod.splits)

lemma write_settle_left:
  "write_settle ac cmd h t copied (w\<lparr>rx := b\<rparr>) = map_prod id (\<lambda>w. w\<lparr>rx := b\<rparr>) (write_settle ac cmd h t copied w)"
  unfolding write_settle_def write_check_def write_publish_def write_cleanup_def
  by (intro andthen_left attempt_left answer_left)
    (auto intro!: andthen_left attempt_left on_fs_left answer_left split: sum.split)

lemma write_settle_seen:
  fixes u u' :: stream
  assumes "u\<lparr>rx := []\<rparr> = u'\<lparr>rx := []\<rparr>" "\<not> writes_permitted s"
  shows "seen_end s (write_settle ac cmd h t copied (with_fs u f)) =
    seen_end s (write_settle ac cmd h t copied (with_fs u' f))"
proof -
  have forget: "seen_end s (write_settle ac cmd h t copied (with_fs v f)) =
      seen_end s (write_settle ac cmd h t copied (with_fs (v\<lparr>rx := []\<rparr>) f))" for v :: stream
  proof -
    obtain r w where w: "write_settle ac cmd h t copied (with_fs v f) = (r, w)" by fastforce
    obtain x g where x: "w = with_fs x g" using world_with_fs by blast
    have "write_settle ac cmd h t copied ((with_fs v f)\<lparr>rx := []\<rparr>) = (r, w\<lparr>rx := []\<rparr>)"
      unfolding write_settle_left w by simp
    with w x assms(2) show ?thesis by (simp add: seen_def)
  qed
  from forget[of u] forget[of u'] assms(1) show ?thesis by simp
qed

text \<open>A step and what is left, for some token; the converse for a given one.\<close>

lemma copy_refused_rest:
  assumes "i_write t i off (take n (rx u)) s = (Inl e, s')"
    and "(case tok of Some n \<Rightarrow> take n (rx u) | None \<Rightarrow> rx u) \<noteq> []"
  shows "seen_end s (write_rest ac tok cmd h (Ph_copy t i off) (with_fs u (view s))) =
    seen_end s (write_rest ac tok' cmd h (Ph_check t (Inl e)) (with_fs (u\<lparr>rx := b\<rparr>) (view s')))"
proof -
  from assms(1) have d: "fs_denied (in_os s) Op_write t" and e: "e = fs_fail Op_write t (in_os s)" "s' = s"
    by (auto simp: i_write_def in_guard_def split: if_splits)
  then have "\<not> writes_permitted s" by (auto simp: writes_permitted_def)
  with receive_more_refused[OF d assms(2)] e show ?thesis
    by (auto simp: andthen_def attempt_def intro!: write_settle_seen)
qed

lemma write_step_back:
  assumes "write_step ac can cmd h (ph, u, s) (ph', u', s')" "handler_ok (ph, u, s)" "can \<or> tok' = None"
  shows "\<exists>tok. (can \<or> tok = None) \<and>
    seen_end s (write_rest ac tok cmd h ph (with_fs u (view s))) =
    seen_end s (write_rest ac tok' cmd h ph' (with_fs u' (view s')))"
proof (cases "\<exists>t i off. ph = Ph_copy t i off")
  case False
  with write_step_rest[OF assms(1,2)] assms(3) show ?thesis by metis
next
  case True
  then obtain t i off where ph: "ph = Ph_copy t i off" by blast
  note ok = assms(2)[unfolded ph]
  from assms(1)[unfolded ph] show ?thesis
  proof (cases rule: write_step.cases)
    case (chunk n r)
    show ?thesis
    proof (cases r)
      case (Inl e)
      from chunk have "rx u \<noteq> []" by auto
      with Inl chunk copy_refused_rest[of t i off n u s e s' None ac cmd h tok' "drop n (rx u)"] show ?thesis
        by (intro exI[of _ None]) (auto simp: ph simp del: write_rest.simps)
    next
      case (Inr v)
      with copy_chunk_rest[OF ok, of n v s' ac tok' cmd h] chunk assms(3) show ?thesis
        by (intro exI[of _ "map_option ((+) n) tok'"]) (auto simp: ph simp del: write_rest.simps)
    qed
  next
    case finished
    with copy_end_rest(1)[of u ac cmd h t i off _ tok'] show ?thesis
      by (intro exI[of _ None]) (auto simp: ph simp del: write_rest.simps)
  next
    case cancelled
    with copy_end_rest(2)[of 0 u ac cmd h t i off _ tok'] show ?thesis
      by (intro exI[of _ "Some 0"]) (auto simp: ph simp del: write_rest.simps)
  qed
qed

section \<open>Every handler comes to its end\<close>

fun phase_rank :: "phase \<Rightarrow> nat" where
  "phase_rank Ph_ack1 = 10"
| "phase_rank Ph_temp = 9"
| "phase_rank (Ph_mkfile t) = 8"
| "phase_rank (Ph_ack2 t i) = 7"
| "phase_rank (Ph_ready t i) = 6"
| "phase_rank (Ph_copy t i off) = 5"
| "phase_rank (Ph_check t copied) = 4"
| "phase_rank (Ph_publish t checked) = 3"
| "phase_rank (Ph_cleanup t a) = 2"
| "phase_rank (Ph_refuse e) = 1"
| "phase_rank (Ph_answer a) = 1"
| "phase_rank (Ph_end r) = 0"

definition handler_order :: "(handler \<times> handler) set" where
  "handler_order = measures [\<lambda>(ph, u, s). phase_rank ph, \<lambda>(ph, u, s). length (rx u)]"

lemma wf_handler_order: "wf handler_order"
  by (simp add: handler_order_def)

text \<open>Each step comes closer to the end, and only there is no step left.\<close>

lemma write_step_decreases:
  assumes "write_step ac can cmd h x y"
  shows "(y, x) \<in> handler_order"
  using assms
  by cases (auto simp: handler_order_def on_result_def split: sum.split)

lemma write_step_ex:
  assumes "\<And>t i off. ph \<noteq> Ph_copy t i off" "\<And>r. ph \<noteq> Ph_end r"
  shows "\<exists>y. write_step ac can cmd h (ph, u, s) y"
proof (cases ph)
  case (Ph_publish t checked)
  show ?thesis
  proof (cases checked)
    case (Inl e)
    show ?thesis unfolding Ph_publish Inl by (rule exI, rule write_step.rejected)
  next
    case (Inr v)
    then have "checked = Inr ()" by simp
    then show ?thesis unfolding Ph_publish by (simp only:) (rule exI, rule write_step.publish[OF surjective_pairing])
  qed
next
  case (Ph_cleanup t a)
  show ?thesis
    unfolding Ph_cleanup
    by (cases "ack_code a = NO_ERROR")
      (rule exI, erule write_step.keep, rule exI, erule write_step.discard[OF _ surjective_pairing])
next
  case Ph_ack1
  show ?thesis unfolding Ph_ack1 by (rule exI, rule write_step.ack1[OF surjective_pairing])
next
  case Ph_temp
  show ?thesis unfolding Ph_temp by (rule exI, rule write_step.temp[OF surjective_pairing])
next
  case (Ph_mkfile t)
  show ?thesis unfolding Ph_mkfile by (rule exI, rule write_step.mkfile[OF surjective_pairing])
next
  case (Ph_refuse e)
  show ?thesis unfolding Ph_refuse by (rule exI, rule write_step.refuse[OF surjective_pairing])
next
  case (Ph_ack2 t i)
  show ?thesis unfolding Ph_ack2 by (rule exI, rule write_step.ack2[OF surjective_pairing])
next
  case (Ph_ready t i)
  show ?thesis unfolding Ph_ready by (rule exI, rule write_step.ready[OF surjective_pairing])
next
  case (Ph_check t c)
  show ?thesis unfolding Ph_check by (rule exI, rule write_step.check)
next
  case (Ph_answer a)
  show ?thesis unfolding Ph_answer by (rule exI, rule write_step.reply[OF surjective_pairing])
qed (use assms in blast)+

text \<open>A step that follows a given token.\<close>

lemma write_step_on:
  assumes "handler_ok (ph, u, s)" "can \<or> tok = None" "\<And>r. ph \<noteq> Ph_end r"
  shows "\<exists>ph' u' s' tok'. write_step ac can cmd h (ph, u, s) (ph', u', s') \<and> (can \<or> tok' = None) \<and>
    seen_end s (write_rest ac tok cmd h ph (with_fs u (view s))) =
    seen_end s (write_rest ac tok' cmd h ph' (with_fs u' (view s')))"
proof (cases "\<exists>t i off. ph = Ph_copy t i off")
  case False
  have "\<exists>y. write_step ac can cmd h (ph, u, s) y"
    by (rule write_step_ex) (use assms(3) False in auto)
  then obtain ph' u' s' where "write_step ac can cmd h (ph, u, s) (ph', u', s')" by (metis prod_cases3)
  with write_step_rest[OF this assms(1)] False assms(2) show ?thesis by metis
next
  case True
  then obtain t i off where ph: "ph = Ph_copy t i off" by blast
  note ok = assms(1)[unfolded ph]
  define n where "n = (case tok of None \<Rightarrow> length (rx u) | Some m \<Rightarrow> min m (length (rx u)))"
  consider (more) "0 < n" | (fin) "tok = None" "rx u = []" | (stop) m where "can" "tok = Some m" "m = 0 \<or> rx u = []"
    using assms(2) by (cases "0 < n"; cases tok) (auto simp: n_def min_def split: if_splits)
  then show ?thesis
  proof cases
    case more
    have n: "n \<le> length (rx u)" by (auto simp: n_def split: option.split)
    obtain r s' where w: "i_write t i off (take n (rx u)) s = (r, s')" by fastforce
    show ?thesis
    proof (cases r)
      case (Inl e)
      have "(case tok of Some n \<Rightarrow> take n (rx u) | None \<Rightarrow> rx u) \<noteq> []"
        using more by (auto simp: n_def split: option.splits)
      note eq = copy_refused_rest[OF w[unfolded Inl] this, of ac cmd h None "drop n (rx u)"]
      have st: "write_step ac can cmd h (ph, u, s) (Ph_check t (Inl e), u\<lparr>rx := drop n (rx u)\<rparr>, s')"
        using write_step.chunk[OF more n w, of ac can cmd h] by (simp only: Inl ph on_result_simps)
      show ?thesis unfolding ph by (intro exI conjI) (rule st[unfolded ph], rule disjI2, rule refl, rule eq)
    next
      case (Inr v)
      have "map_option ((+) n) (map_option (\<lambda>m. m - n) tok) = tok"
        by (cases tok) (auto simp: n_def)
      with copy_chunk_rest[OF ok w[unfolded Inr] n, of ac "map_option (\<lambda>m. m - n) tok" cmd h]
      have eq: "write_rest ac tok cmd h ph (with_fs u (view s)) =
        write_rest ac (map_option (\<lambda>m. m - n) tok) cmd h (Ph_copy t i (off + n)) (with_fs (u\<lparr>rx := drop n (rx u)\<rparr>) (view s'))"
        by (simp only: ph)
      have st: "write_step ac can cmd h (ph, u, s) (Ph_copy t i (off + n), u\<lparr>rx := drop n (rx u)\<rparr>, s')"
        using write_step.chunk[OF more n w, of ac can cmd h] by (simp only: Inr ph on_result_simps)
      have tk: "can \<or> map_option (\<lambda>m. m - n) tok = None" using assms(2) by auto
      show ?thesis by (intro exI conjI) (rule st, rule tk, rule arg_cong[OF eq])
    qed
  next
    case fin
    have st: "write_step ac can cmd h (ph, u, s)
        (Ph_check t (if rx_fin u then Inr () else Inl (IO (rx_err u))), u, s)"
      unfolding ph by (rule write_step.finished[OF fin(2)])
    show ?thesis
      by (intro exI conjI) (rule st, rule disjI2, rule refl,
        simp only: ph fin(1) copy_end_rest(1)[OF fin(2), of ac cmd h t i off "view s" None])
  next
    case (stop m)
    have st: "write_step ac can cmd h (ph, u, s) (Ph_check t (Inl (ErrorCode CANCELED_ERROR)), u, s)"
      unfolding ph by (rule write_step.cancelled[OF stop(1)])
    show ?thesis
      by (intro exI conjI) (rule st, rule disjI2, rule refl,
        simp only: ph stop(2) copy_end_rest(2)[OF stop(3), of ac cmd h t i off "view s" None])
  qed
qed

section \<open>Runs\<close>

interpretation write_steps: winding_down "write_step ac can cmd h" handler_ok handler_order
  for ac :: "ack_message codec" and can :: bool and cmd :: write_file and h :: message_header
  by unfold_locales (auto intro: wf_handler_order write_step_ok write_step_decreases)

lemmas write_run_ok = write_steps.run_inv

lemma write_run_sound:
  assumes "write_run ac can cmd h (ph, u, s) (Ph_end r, u', s')" "handler_ok (ph, u, s)"
  shows "\<exists>tok. (can \<or> tok = None) \<and>
    seen_end s (write_rest ac tok cmd h ph (with_fs u (view s))) = (r, seen s u', view s')"
  using assms
proof (induction "(ph, u, s)" arbitrary: ph u s rule: converse_rtranclp_induct)
  case base
  then show ?case by (intro exI[of _ None]) simp
next
  case (step y)
  obtain ph1 u1 s1 where y: "y = (ph1, u1, s1)" by (rule prod_cases3)
  with step have os: "in_os s1 = in_os s" using write_step_os by blast
  from y step obtain tok' where "can \<or> tok' = None"
    "seen_end s1 (write_rest ac tok' cmd h ph1 (with_fs u1 (view s1))) = (r, seen s1 u', view s')"
    using write_step_ok by blast
  moreover have "seen s1 u' = seen s u'" using os by (simp add: seen_def writes_permitted_def)
  ultimately show ?case
    using write_step_back[of ac can cmd h ph u s ph1 u1 s1 tok'] step(1,4) y seen_os[OF os] by metis
qed

lemma write_run_complete:
  assumes "handler_ok (ph, u, s)" "can \<or> tok = None"
  shows "\<exists>r u' s'. write_run ac can cmd h (ph, u, s) (Ph_end r, u', s') \<and>
    seen_end s (write_rest ac tok cmd h ph (with_fs u (view s))) = (r, seen s u', view s')"
  using assms
proof (induction "(ph, u, s)" arbitrary: ph u s tok rule: wf_induct_rule[OF wf_handler_order])
  case 1
  show ?case
  proof (cases "\<exists>r. ph = Ph_end r")
    case True
    then obtain r where r: "ph = Ph_end r" by blast
    show ?thesis unfolding r by (intro exI[of _ r] exI[of _ u] exI[of _ s]) simp
  next
    case False
    with write_step_on[OF 1(2,3)] obtain ph' u' s' tok' where
      step: "write_step ac can cmd h (ph, u, s) (ph', u', s')" and tok': "can \<or> tok' = None" and
      eq: "seen_end s (write_rest ac tok cmd h ph (with_fs u (view s))) =
        seen_end s (write_rest ac tok' cmd h ph' (with_fs u' (view s')))"
      by blast
    note os = write_step_os[OF step]
    then have "seen s' = seen s" by (simp add: fun_eq_iff seen_def writes_permitted_def)
    with 1(1)[OF write_step_decreases[OF step] write_step_ok[OF step 1(2)] tok'] step eq seen_os[OF os]
    show ?thesis by (metis converse_rtranclp_into_rtranclp)
  qed
qed

section \<open>Properties\<close>

text \<open>
  C3: the steps implement the handler.  On a tree in which no two names are one file, the ends that the steps of one handler can reach, with any
  sizes of the chunks, any refusals of the file system and, if \<open>can\<close>, a token that fires at
  any moment of the copy, are exactly the results of \<open>write_file_handle\<close> for the tokens: the
  same result, stream and tree.  Of the stream the unread input is left out where a write
  may be refused, as it depends on the chunks then (\<open>seen\<close>).  And the steps cannot go on
  for ever.
\<close>

theorem write_steps_refine:
  assumes "inodes_ok s"
  shows "((\<exists>u' s'. write_run ac can cmd h (Ph_ack1, u, s) (Ph_end r, u', s') \<and> seen s u' = v \<and> view s' = f) \<longleftrightarrow>
      (\<exists>tok u'. (can \<or> tok = None) \<and>
        write_file_handle ac tok cmd h (with_fs u (view s)) = (r, with_fs u' f) \<and> seen s u' = v)) \<and>
    (\<nexists>g. g 0 = (Ph_ack1, u, s) \<and> (\<forall>n. write_step ac can cmd h (g n) (g (Suc n))))"
proof (intro conjI iffI)
  have ok: "handler_ok (Ph_ack1, u, s)" using assms by (simp add: handler_ok_def)
  show "\<nexists>g. g 0 = (Ph_ack1, u, s) \<and> (\<forall>n. write_step ac can cmd h (g n) (g (Suc n)))"
    by (rule write_steps.no_endless_run[OF ok])
  assume "\<exists>u' s'. write_run ac can cmd h (Ph_ack1, u, s) (Ph_end r, u', s') \<and> seen s u' = v \<and> view s' = f"
  then obtain u1 s1 where run: "write_run ac can cmd h (Ph_ack1, u, s) (Ph_end r, u1, s1)" "seen s u1 = v" "view s1 = f"
    by blast
  from write_run_sound[OF run(1) ok] run(2,3) obtain tok where tok: "can \<or> tok = None"
    "seen_end s (write_file_handle ac tok cmd h (with_fs u (view s))) = (r, v, f)"
    unfolding write_rest.simps by blast
  obtain r' w where w: "write_file_handle ac tok cmd h (with_fs u (view s)) = (r', w)" by fastforce
  moreover obtain u' f' where "w = with_fs u' f'" using world_with_fs by blast
  ultimately show "\<exists>tok u'. (can \<or> tok = None) \<and>
      write_file_handle ac tok cmd h (with_fs u (view s)) = (r, with_fs u' f) \<and> seen s u' = v"
    using tok by (intro exI[of _ tok] exI[of _ u']) simp
next
  have ok: "handler_ok (Ph_ack1, u, s)" using assms by (simp add: handler_ok_def)
  assume "\<exists>tok u'. (can \<or> tok = None) \<and>
      write_file_handle ac tok cmd h (with_fs u (view s)) = (r, with_fs u' f) \<and> seen s u' = v"
  then obtain tok u' where tok: "can \<or> tok = None"
    "write_file_handle ac tok cmd h (with_fs u (view s)) = (r, with_fs u' f)" "seen s u' = v" by blast
  from write_run_complete[OF ok tok(1), of ac cmd h] obtain r1 u1 s1 where
    run: "write_run ac can cmd h (Ph_ack1, u, s) (Ph_end r1, u1, s1)"
    and eq: "seen_end s (write_file_handle ac tok cmd h (with_fs u (view s))) = (r1, seen s u1, view s1)"
    unfolding write_rest.simps by blast
  from eq tok(2,3) have "r1 = r" "seen s u1 = v" "view s1 = f" by simp_all
  with run show "\<exists>u' s'. write_run ac can cmd h (Ph_ack1, u, s) (Ph_end r, u', s') \<and> seen s u' = v \<and> view s' = f"
    by blast
qed

definition sample_inodes :: inode_sys where
  "sample_inodes = \<lparr>in_names = [[RootDir] \<mapsto> Subdir, [RootDir, Normal ''a''] \<mapsto> Inode 0], in_data = (\<lambda>_. [1]),
     in_next = 1, in_os = sample_fs\<rparr>"

lemma sample_inodes_ok: "inodes_ok sample_inodes" "fs_permits (in_os sample_inodes)"
  "stat (view sample_inodes) [RootDir] = Some Dir" "stat (view sample_inodes) [RootDir, Normal ''a''] = Some (File [1])"
  "stat (view sample_inodes) [RootDir, Normal ''b''] = None"
  "stat (view sample_inodes) [RootDir, Normal ''a.crab_temp''] = None"
  by (auto simp: sample_inodes_def inodes_ok_def stat_view split: if_splits)

theorem write_steps_refine_witness:
  "\<exists>u' s'. write_run sample_ack False \<lparr>wf_path = ''/a'', wf_overwrite = False, wf_mkdir = False\<rparr> command_header
      (Ph_ack1, stream_of (ack_frame @ [7, 8]), sample_inodes) (Ph_end (Inr ()), u', s') \<and>
    tx u' = ack_frame @ ack_frame @ ack_frame \<and> stat (view s') [RootDir, Normal ''a''] = Some (File [7, 8])"
proof -
  let ?cmd = "\<lparr>wf_path = ''/a'', wf_overwrite = False, wf_mkdir = False\<rparr>" and ?w = "with_fs (stream_of (ack_frame @ [7, 8])) (view sample_inodes)"
  have "fs_permits (view sample_inodes)" using sample_inodes_ok(2) by (simp add: fs_permits_def)
  then obtain w' where w: "write_file_handle sample_ack None ?cmd command_header ?w = (Inr (), w')"
    "tx w' = ack_frame @ ack_frame @ ack_frame" "stat (w_fs w') [RootDir, Normal ''a''] = Some (File [7, 8])"
    using write_file_run[where cmd = ?cmd and q = "[RootDir]" and n = "''a''" and w = ?w and published = True and ac = sample_ack and
        me = Method_Command and op = OPTION_NONE and a = ack_frame and body = "[7, 8]" and h = command_header and
        k = ack_frame and k' = ack_frame]
      sample_ack_facts(1) sample_ack_framed option_none_ok sample_inodes_ok
    by (auto simp: TEMP_FILE_SUFFIX_def with_fs_def stream.defs stream_of_def)
  obtain u f where u: "w' = with_fs u f" using world_with_fs by blast
  have "writes_permitted sample_inodes" using sample_inodes_ok(2) by (simp add: writes_permitted_def fs_permits_def)
  with write_steps_refine[OF sample_inodes_ok(1), of sample_ack False ?cmd command_header "stream_of (ack_frame @ [7, 8])"
      "Inr ()" u f, THEN conjunct1] w(1) u
  obtain s' where "write_run sample_ack False ?cmd command_header (Ph_ack1, stream_of (ack_frame @ [7, 8]), sample_inodes)
      (Ph_end (Inr ()), u, s')" "view s' = f"
    by (auto simp: seen_def)
  with w(2,3) u show ?thesis by (auto simp: with_fs_def stream.defs)
qed

end
