(* ===== verification/Crab_Race.thy ===== *)
theory Crab_Race
  imports Crab_Writes Crab_Dispatch
begin

text \<open>
  Several handlers of \<open>WriteFile\<close> at once on one file system: the tasks that a node has
  spawned for the streams of its peer (\<^verbatim>\<open>src/src/crab/nodes.rs\<close>, \<open>handle_all_streams\<close>) run
  \<open>WriteFile::handle\<close> of \<^verbatim>\<open>src/src/app/protocol/commands.rs\<close>, with the temporary paths of
  \<^verbatim>\<open>src/src/app/protocol/util.rs\<close>.  Handlers of different targets with different temporary
  files do not disturb each other; two handlers of one target share its temporary file.
\<close>

section \<open>Handlers side by side\<close>

record job =
  jb_cmd :: write_file
  jb_head :: message_header
  jb_phase :: phase
  jb_stream :: stream

inductive writes_step ::
  "ack_message codec \<Rightarrow> bool \<Rightarrow> job list \<times> inode_sys \<Rightarrow> job list \<times> inode_sys \<Rightarrow> bool"
  for ac can where
  any: "i < length js \<Longrightarrow>
    write_step ac can (jb_cmd (js ! i)) (jb_head (js ! i)) (jb_phase (js ! i), jb_stream (js ! i), s) (ph, u, s') \<Longrightarrow>
    writes_step ac can (js, s) (js[i := (js ! i)\<lparr>jb_phase := ph, jb_stream := u\<rparr>], s')"

inductive_cases writes_stepE: "writes_step ac can (js, s) (js', s')"

abbreviation writes_run ::
  "ack_message codec \<Rightarrow> bool \<Rightarrow> job list \<times> inode_sys \<Rightarrow> job list \<times> inode_sys \<Rightarrow> bool" where
  "writes_run ac can \<equiv> (writes_step ac can)\<^sup>*\<^sup>*"

definition job_target :: "job \<Rightarrow> path" where
  "job_target j = components (wf_path (jb_cmd j))"

definition job_paths :: "job \<Rightarrow> path set" where
  "job_paths j = insert (job_target j) (set_option (temp_path (job_target j)))"

definition job_start :: "job \<Rightarrow> bool" where
  "job_start j \<longleftrightarrow> jb_phase j = Ph_ack1 \<and> \<not> wf_mkdir (jb_cmd j)"

text \<open>The jobs have no file in common.\<close>

definition disjoint_jobs :: "job list \<Rightarrow> bool" where
  "disjoint_jobs js \<longleftrightarrow>
    (\<forall>i < length js. \<forall>k < length js. i \<noteq> k \<longrightarrow> job_paths (js ! i) \<inter> job_paths (js ! k) = {})"

section \<open>What a handler can touch\<close>

definition agree_on :: "path set \<Rightarrow> inode_sys \<Rightarrow> inode_sys \<Rightarrow> bool" where
  "agree_on A s t \<longleftrightarrow>
    (\<forall>p \<in> A. in_names t p = in_names s p \<and> (\<forall>i. in_names s p = Some (Inode i) \<longrightarrow> in_data t i = in_data s i))"

lemma agree_on_refl [simp]: "agree_on A s s"
  by (simp add: agree_on_def)

lemma agree_on_stat: "agree_on A s t \<Longrightarrow> p \<in> A \<Longrightarrow> stat (view t) p = stat (view s) p"
  by (cases "in_names s p") (auto simp: agree_on_def stat_view view_node_def split: dentry.split)

text \<open>The phases name the temporary file of the target and an inode of its own.\<close>

fun phase_at :: "path \<Rightarrow> phase \<Rightarrow> inode_sys \<Rightarrow> bool" where
  "phase_at p (Ph_mkfile t) s \<longleftrightarrow> temp_path p = Some t"
| "phase_at p (Ph_ack2 t i) s \<longleftrightarrow> temp_path p = Some t \<and> in_names s t = Some (Inode i)"
| "phase_at p (Ph_ready t i) s \<longleftrightarrow> temp_path p = Some t \<and> in_names s t = Some (Inode i)"
| "phase_at p (Ph_copy t i off) s \<longleftrightarrow> temp_path p = Some t \<and> in_names s t = Some (Inode i)"
| "phase_at p (Ph_check t c) s \<longleftrightarrow> temp_path p = Some t"
| "phase_at p (Ph_publish t c) s \<longleftrightarrow> temp_path p = Some t"
| "phase_at p (Ph_cleanup t a) s \<longleftrightarrow> temp_path p = Some t"
| "phase_at p _ s \<longleftrightarrow> True"

lemma on_view_pure:
  assumes "on_view (generate_temp_path target False) s = (r, t)"
  shows "t = s"
proof -
  obtain f where f: "generate_temp_path target False (view s) = (r, f)"
    using assms by (auto simp: on_view_def split: prod.splits)
  with generate_temp_path_pure have "f = view s" by blast
  moreover have "(if fs_nodes (view s) p = Some Dir then Some Subdir else in_names s p) = in_names s p" for p
    by (auto simp: view_nodes)
  ultimately show ?thesis using assms f by (simp add: on_view_def)
qed

lemma i_create_agree:
  assumes "inodes_ok s" "i_create t s = (r, s')" "t \<notin> A"
  shows "agree_on A s s'"
proof (cases "inode_at s t")
  case None
  with assms inodes_fresh[OF assms(1)] show ?thesis
    by (auto simp: i_create_def in_guard_def agree_on_def split: if_splits)
next
  case (Some i)
  with assms have "in_names s p = Some (Inode i) \<Longrightarrow> p \<notin> A" for p
    using inodes_okD(2)[OF assms(1), of t i p] by (auto simp: inode_at_Some)
  with Some assms(2) show ?thesis
    by (auto simp: i_create_def in_guard_def agree_on_def split: if_splits)
qed

lemma i_write_agree:
  assumes "inodes_ok s" "i_write t i off bs s = (r, s')" "t \<notin> A" "in_names s t = Some (Inode i)"
  shows "agree_on A s s'"
proof -
  have "in_names s p = Some (Inode i) \<Longrightarrow> p \<notin> A" for p
    using inodes_okD(2)[OF assms(1,4)] assms(3) by auto
  with assms(2) show ?thesis
    by (auto simp: i_write_def in_guard_def agree_on_def split: if_splits)
qed

lemma i_rename_agree: "i_rename t p s = (r, s') \<Longrightarrow> t \<notin> A \<Longrightarrow> p \<notin> A \<Longrightarrow> agree_on A s s'"
  by (auto simp: i_rename_def in_guard_def agree_on_def split: if_splits)

lemma i_remove_agree: "i_remove t s = (r, s') \<Longrightarrow> t \<notin> A \<Longrightarrow> agree_on A s s'"
  by (auto simp: i_remove_def in_guard_def agree_on_def split: if_splits)

lemmas agree_steps = i_create_agree i_write_agree i_rename_agree i_remove_agree

lemma write_step_frame:
  assumes "write_step ac can cmd h (ph, u, s) (ph', u', s')" "inodes_ok s" "\<not> wf_mkdir cmd"
    and "components (wf_path cmd) = p" "phase_at p ph s"
  shows "phase_at p ph' s' \<and> inodes_ok s' \<and> agree_on (- insert p (set_option (temp_path p))) s s'"
  using assms(1)
proof (cases rule: write_step.cases)
  case (temp r)
  with assms have "s' = s" by (auto dest: on_view_pure)
  moreover have "temp_path p = Some t" if "r = Inr t" for t
    using temp that assms(4) by (auto dest: temp_path_view generate_temp_path_ok)
  ultimately show ?thesis using temp assms(2) by (cases r) auto
next
  case (mkfile t r)
  with assms i_create_agree[of s t r s'] i_create_ok[of s t r s'] show ?thesis
    by (cases r) (auto dest: i_create_inode)
next
  case (chunk n t i off r)
  moreover from this assms(5) have "temp_path p = Some t" "in_names s t = Some (Inode i)" by auto
  moreover from chunk have "in_names s' = in_names s" by (auto simp: i_write_def in_guard_def split: if_splits)
  ultimately show ?thesis
    using i_write_agree[of s t i off "take n (rx u)" r s'] i_write_ok[of s t i off "take n (rx u)" r s'] assms(2)
    by (cases r) auto
next
  case (publish t r)
  with assms i_rename_agree[of t p s r s'] i_rename_ok[of s t p r s'] show ?thesis
    by (cases r) auto
next
  case (discard a t r)
  with assms i_remove_agree[of t s r s'] i_remove_ok[of s t r s'] show ?thesis by auto
qed (use assms in \<open>auto simp: on_result_def split: sum.splits\<close>)

section \<open>What a handler has achieved\<close>

text \<open>
  \<open>u0\<close> is the stream the handler started with and \<open>b\<close> what the target was then: until the rename
  the target is as it was, the temporary file holds what has been copied, and the
  acknowledgement says whether the rename has happened.
\<close>

definition holds_body :: "stream \<Rightarrow> path \<Rightarrow> inode_sys \<Rightarrow> bool" where
  "holds_body u0 p s \<longleftrightarrow> stat (view s) p = Some (File (after_frame (rx u0))) \<and> rx_fin u0"

definition unread_of :: "stream \<Rightarrow> stream \<Rightarrow> bool" where
  "unread_of u0 u \<longleftrightarrow> rx u = rx u0 \<and> rx_fin u = rx_fin u0"

fun content_at :: "stream \<Rightarrow> fnode option \<Rightarrow> path \<Rightarrow> phase \<Rightarrow> stream \<Rightarrow> inode_sys \<Rightarrow> bool" where
  "content_at u0 b p (Ph_refuse e) u s \<longleftrightarrow> stat (view s) p = b"
| "content_at u0 b p (Ph_ack2 t i) u s \<longleftrightarrow> stat (view s) p = b \<and> unread_of u0 u \<and> in_data s i = []"
| "content_at u0 b p (Ph_ready t i) u s \<longleftrightarrow> stat (view s) p = b \<and> unread_of u0 u \<and> in_data s i = []"
| "content_at u0 b p (Ph_copy t i off) u s \<longleftrightarrow>
    stat (view s) p = b \<and> in_data s i @ rx u = after_frame (rx u0) \<and> rx_fin u = rx_fin u0 \<and>
    length (in_data s i) = off"
| "content_at u0 b p (Ph_check t c) u s \<longleftrightarrow>
    stat (view s) p = b \<and> (case c of Inl e \<Rightarrow> err_no e \<noteq> NO_ERROR | Inr _ \<Rightarrow> holds_body u0 t s)"
| "content_at u0 b p (Ph_publish t c) u s \<longleftrightarrow>
    stat (view s) p = b \<and> (case c of Inl e \<Rightarrow> err_no e \<noteq> NO_ERROR | Inr _ \<Rightarrow> holds_body u0 t s)"
| "content_at u0 b p (Ph_cleanup t a) u s \<longleftrightarrow>
    (if ack_code a = NO_ERROR then holds_body u0 p s else stat (view s) p = b)"
| "content_at u0 b p (Ph_answer a) u s \<longleftrightarrow>
    (if ack_code a = NO_ERROR then holds_body u0 p s else stat (view s) p = b)"
| "content_at u0 b p (Ph_end r) u s \<longleftrightarrow> stat (view s) p = b \<or> holds_body u0 p s"
| "content_at u0 b p ph u s \<longleftrightarrow> stat (view s) p = b \<and> unread_of u0 u"

lemma holds_body_agree: "agree_on A s t \<Longrightarrow> p \<in> A \<Longrightarrow> holds_body u0 p t = holds_body u0 p s"
  by (simp add: holds_body_def agree_on_stat)

text \<open>A handler is not affected by steps that leave its files alone.\<close>

lemma phase_at_agree:
  assumes "agree_on (insert p (set_option (temp_path p))) s t" "phase_at p ph s"
  shows "phase_at p ph t"
  using assms by (cases ph) (auto simp: agree_on_def)

lemma content_at_agree:
  assumes "agree_on (insert p (set_option (temp_path p))) s t" "phase_at p ph s" "content_at u0 b p ph u s"
  shows "content_at u0 b p ph u t"
  using assms agree_on_stat[OF assms(1)] holds_body_agree[OF assms(1)]
  by (cases ph) (auto simp: agree_on_def split: sum.splits)

text \<open>A step of the handler itself.\<close>

lemma i_op_errors:
  "i_write t i off bs s = (Inl e, s') \<Longrightarrow> err_no e \<noteq> NO_ERROR"
  "i_rename t p s = (Inl e, s') \<Longrightarrow> err_no e \<noteq> NO_ERROR \<and> s' = s"
  "check_exists cmd s = Inl e \<Longrightarrow> err_no e \<noteq> NO_ERROR"
  by (auto simp: i_write_def i_rename_def check_exists_def in_guard_def fs_fail_def try_exists_def fs_guard_def
      error_codes split: if_splits)

lemma i_rename_stat:
  assumes "i_rename t p s = (Inr v, s')"
  shows "stat (view s') p = stat (view s) t"
  using assms by (auto simp: i_rename_def in_guard_def stat_def view_nodes split: if_splits)

lemma answer_rest: "answer c h m u = (r, u') \<Longrightarrow> unread_of u0 u \<Longrightarrow> unread_of u0 u'"
  using answer_rx[of c h m u r u'] by (simp add: unread_of_def)

lemma write_step_content:
  assumes "write_step ac can cmd h (ph, u, s) (ph', u', s')" "inodes_ok s" "\<not> wf_mkdir cmd"
    and p: "components (wf_path cmd) = p" and at: "phase_at p ph s" and c: "content_at u0 b p ph u s"
  shows "content_at u0 b p ph' u' s'"
  using assms(1)
proof (cases rule: write_step.cases)
  case (ack1 r)
  with c show ?thesis by (cases r) (auto dest: answer_rest)
next
  case (temp r)
  with assms(3) have "s' = s" by (auto dest: on_view_pure)
  with temp c show ?thesis by (cases r) auto
next
  case (mkfile t r)
  with at have t: "temp_path p = Some t" by simp
  with mkfile i_create_agree[OF assms(2), of t r s' "{p}"] temp_path_differs[OF t]
  have "stat (view s') p = stat (view s) p" by (auto dest: agree_on_stat)
  with mkfile c show ?thesis by (cases r) (auto dest: i_create_inode)
next
  case (ack2 r t i)
  with c show ?thesis by (cases r) (auto dest: answer_rest)
next
  case (ready r t i)
  with c read_ack_rx[of ac u r u'] read_ack_after[of ac u "()" u'] show ?thesis
    by (cases r) (auto simp: unread_of_def)
next
  case (chunk n t i off r)
  with at have t: "temp_path p = Some t" "in_names s t = Some (Inode i)" by auto
  with chunk i_write_agree[OF assms(2), of t i off "take n (rx u)" r s' "{p}"] temp_path_differs[OF t(1)]
  have st: "stat (view s') p = stat (view s) p" by (auto dest: agree_on_stat)
  show ?thesis
  proof (cases r)
    case (Inl e)
    with chunk c st i_op_errors(1) show ?thesis by auto
  next
    case (Inr v)
    with chunk c have "in_data s' i = in_data s i @ take n (rx u)"
      by (auto simp: i_write_def in_guard_def overlay_def split: if_splits)
    with chunk c st Inr show ?thesis by auto
  qed
next
  case (finished t i off)
  with at have t: "temp_path p = Some t" "in_names s t = Some (Inode i)" by auto
  then have "t \<noteq> []" by (auto simp: temp_path_Some)
  with finished c t show ?thesis by (auto simp: holds_body_def stat_view error_codes)
next
  case (check t copied)
  with c i_op_errors(3) show ?thesis by (cases copied) (auto split: sum.split)
next
  case (publish t r)
  show ?thesis
  proof (cases r)
    case (Inl e)
    with publish c i_op_errors(2)[of t "components (wf_path cmd)" s e s'] show ?thesis
      by (auto simp: ack_from_error_code)
  next
    case (Inr v)
    with publish c p i_rename_stat[of t "components (wf_path cmd)" s v s'] show ?thesis
      by (auto simp: holds_body_def ack_success_def)
  qed
next
  case (discard a t r)
  with at have t: "temp_path p = Some t" by simp
  with discard i_remove_agree[of t s r s' "{p}"] temp_path_differs[OF t]
  have "stat (view s') p = stat (view s) p" by (auto dest: agree_on_stat)
  with discard c show ?thesis by auto
next
  case (reply a r)
  with c show ?thesis by (auto split: if_splits)
qed (use c in \<open>auto simp: error_codes ack_from_error_code on_result_def split: sum.splits\<close>)

section \<open>Handlers of different files\<close>

text \<open>The invariant of a run that began with the handlers \<open>js0\<close> in \<open>s0\<close>.\<close>

definition jobs_inv :: "job list \<Rightarrow> inode_sys \<Rightarrow> job list \<Rightarrow> inode_sys \<Rightarrow> bool" where
  "jobs_inv js0 s0 js s \<longleftrightarrow>
    inodes_ok s \<and> length js = length js0 \<and>
    (\<forall>i < length js0. jb_cmd (js ! i) = jb_cmd (js0 ! i) \<and>
       phase_at (job_target (js0 ! i)) (jb_phase (js ! i)) s \<and>
       content_at (jb_stream (js0 ! i)) (stat (view s0) (job_target (js0 ! i))) (job_target (js0 ! i))
         (jb_phase (js ! i)) (jb_stream (js ! i)) s) \<and>
    agree_on (- (\<Union>j \<in> set js0. job_paths j)) s0 s"

lemma agree_on_trans: "agree_on A s t \<Longrightarrow> agree_on A t u \<Longrightarrow> agree_on A s u"
  by (auto simp: agree_on_def)

lemma agree_on_mono: "agree_on A s t \<Longrightarrow> B \<subseteq> A \<Longrightarrow> agree_on B s t"
  by (auto simp: agree_on_def)

lemma jobs_inv_start:
  assumes "\<forall>j \<in> set js. job_start j" "inodes_ok s"
  shows "jobs_inv js s js s"
  using assms by (auto simp: jobs_inv_def job_start_def unread_of_def intro: exI[of _ 0])

lemma jobs_inv_step:
  assumes step: "writes_step ac can (js, s) (js', s')" and inv: "jobs_inv js0 s0 js s"
    and dis: "disjoint_jobs js0" and st: "\<forall>j \<in> set js0. job_start j"
  shows "jobs_inv js0 s0 js' s'"
proof -
  from step obtain i ph u where js': "js' = js[i := (js ! i)\<lparr>jb_phase := ph, jb_stream := u\<rparr>]" "i < length js"
    and w: "write_step ac can (jb_cmd (js ! i)) (jb_head (js ! i)) (jb_phase (js ! i), jb_stream (js ! i), s) (ph, u, s')"
    by (rule writes_stepE)
  let ?j = "js ! i" and ?p = "job_target (js0 ! i)"
  from inv js' have i: "i < length js0" and cmd: "jb_cmd ?j = jb_cmd (js0 ! i)" and ok: "inodes_ok s"
    and at: "phase_at ?p (jb_phase ?j) s"
    and c: "content_at (jb_stream (js0 ! i)) (stat (view s0) ?p) ?p (jb_phase ?j) (jb_stream ?j) s"
    by (auto simp: jobs_inv_def)
  from st i cmd have mk: "\<not> wf_mkdir (jb_cmd ?j)" by (auto simp: job_start_def)
  have p: "components (wf_path (jb_cmd ?j)) = ?p" by (simp add: cmd job_target_def)
  note own = write_step_frame[OF w ok mk p at] write_step_content[OF w ok mk p at c]
  have fr: "agree_on (- job_paths (js0 ! i)) s s'" using own(1) by (simp add: job_paths_def)
  have other: "phase_at (job_target (js0 ! k)) (jb_phase (js ! k)) s' \<and>
      content_at (jb_stream (js0 ! k)) (stat (view s0) (job_target (js0 ! k))) (job_target (js0 ! k))
        (jb_phase (js ! k)) (jb_stream (js ! k)) s'" if "k < length js0" "k \<noteq> i" for k
  proof -
    from dis i that have "job_paths (js0 ! k) \<subseteq> - job_paths (js0 ! i)" by (auto simp: disjoint_jobs_def)
    from agree_on_mono[OF fr this] have a: "agree_on (insert (job_target (js0 ! k)) (set_option (temp_path (job_target (js0 ! k))))) s s'"
      by (simp add: job_paths_def)
    with inv that show ?thesis
      by (auto simp: jobs_inv_def intro: phase_at_agree[OF a] content_at_agree[OF a])
  qed
  have "agree_on (- (\<Union>j \<in> set js0. job_paths j)) s s'"
    by (rule agree_on_mono[OF fr]) (use i in auto)
  with inv agree_on_trans have "agree_on (- (\<Union>j \<in> set js0. job_paths j)) s0 s'"
    by (auto simp: jobs_inv_def)
  with inv own other i js' show ?thesis
    by (auto simp: jobs_inv_def nth_list_update)
qed

lemma jobs_inv_run:
  assumes "writes_run ac can (js0, s0) (js, s)" "disjoint_jobs js0" "\<forall>j \<in> set js0. job_start j" "inodes_ok s0"
  shows "jobs_inv js0 s0 js s"
  using assms(1)
proof (induction "(js, s)" arbitrary: js s rule: rtranclp_induct)
  case base
  with jobs_inv_start[OF assms(3,4)] show ?case by simp
next
  case (step y)
  with jobs_inv_step[OF _ _ assms(2,3)] show ?case by (cases y) auto
qed

section \<open>Handlers of the same file\<close>

lemma writes_run_lift:
  assumes "write_run ac can (jb_cmd j) (jb_head j) (ph, u, s) (ph', u', s')"
    and "i < length js" "js ! i = j\<lparr>jb_phase := ph, jb_stream := u\<rparr>"
  shows "writes_run ac can (js, s) (js[i := j\<lparr>jb_phase := ph', jb_stream := u'\<rparr>], s')"
  using assms(1)
proof (induction "(ph', u', s')" arbitrary: ph' u' s' rule: rtranclp_induct)
  case base
  show ?case by (simp flip: assms(3))
next
  case (step y)
  obtain ph1 u1 s1 where y: "y = (ph1, u1, s1)" by (rule prod_cases3)
  let ?js = "js[i := j\<lparr>jb_phase := ph1, jb_stream := u1\<rparr>]"
  from step y have "writes_run ac can (js, s) (?js, s1)" by blast
  also have "writes_step ac can (?js, s1) (?js[i := (?js ! i)\<lparr>jb_phase := ph', jb_stream := u'\<rparr>], s')"
    using step(2) y assms(2) by (intro writes_step.any) auto
  finally show ?case using assms(2) by simp
qed

lemma writes_run_fst:
  assumes "write_run ac can (jb_cmd j1) (jb_head j1) (ph, jb_stream j1, s) (ph', u', s')" "jb_phase j1 = ph"
  shows "writes_run ac can ([j1, j2], s) ([j1\<lparr>jb_phase := ph', jb_stream := u'\<rparr>, j2], s')"
  using writes_run_lift[OF assms(1), of 0 "[j1, j2]"] assms(2) by (cases j1) simp

lemma writes_run_snd:
  assumes "write_run ac can (jb_cmd j2) (jb_head j2) (ph, jb_stream j2, s) (ph', u', s')" "jb_phase j2 = ph"
  shows "writes_run ac can ([j1, j2], s) ([j1, j2\<lparr>jb_phase := ph', jb_stream := u'\<rparr>], s')"
  using writes_run_lift[OF assms(1), of 1 "[j1, j2]"] assms(2) by (cases j2) simp

text \<open>The parts of a run: opening the temporary file, and the end of the copy.\<close>

lemma run_open:
  assumes "components (wf_path cmd) = q @ [Normal n]" "t = q @ [Normal (n @ TEMP_FILE_SUFFIX)]" "\<not> wf_mkdir cmd"
    and "fs_permits (in_os s)" "stat (view s) q = Some Dir" "i_create t s = (Inr i, s')"
    and "codec_ok ac" "framed ac me op ack_success k0" "op AND OPTION_ERROR \<noteq> OPTION_ERROR"
    and "framed ac (mh_method h) (mh_option h) ack_success k" "rx u = k0 @ body" "tx_cap u = None"
  shows "write_run ac can cmd h (Ph_ack1, u, s) (Ph_copy t i 0, u\<lparr>tx := tx u @ k @ k, rx := body\<rparr>, s')"
proof -
  have a: "answer ac h ack_success v = (Inr (), v\<lparr>tx := tx v @ k\<rparr>)" if "tx_cap v = None" for v :: stream
    unfolding answer_def by (rule write_message_up[OF assms(10) that])
  have "generate_temp_path (wf_path cmd) False (view s) = (Inr t, view s)"
    using assms(1,2,4,5)
    by (simp add: generate_temp_path_def andthen_def fs_op_defs fs_guard_def fs_permits_def file_name_def)
  then obtain s1 where s1: "on_view (generate_temp_path (wf_path cmd) False) s = (Inr t, s1)"
    by (auto simp: on_view_def)
  with on_view_pure have temp: "on_view (generate_temp_path (wf_path cmd) False) s = (Inr t, s)" by metis
  let ?u1 = "u\<lparr>tx := tx u @ k\<rparr>" and ?u2 = "u\<lparr>tx := tx u @ k @ k\<rparr>"
  have ack: "read_ack ac ?u2 = (Inr (), ?u2\<lparr>rx := body\<rparr>)"
    using read_ack_ok[OF assms(7-9), of ?u2 body] assms(11) by simp
  have "write_run ac can cmd h (Ph_ack1, u, s) (Ph_ack1, u, s)" by simp
  also have "write_step ac can cmd h (Ph_ack1, u, s) (Ph_temp, ?u1, s)"
    using a[OF assms(12)] by simp
  also have "write_step ac can cmd h (Ph_temp, ?u1, s) (Ph_mkfile t, ?u1, s)"
    using temp assms(3) by simp
  also have "write_step ac can cmd h (Ph_mkfile t, ?u1, s) (Ph_ack2 t i, ?u1, s')"
    using assms(6) by simp
  also have "write_step ac can cmd h (Ph_ack2 t i, ?u1, s') (Ph_ready t i, ?u2, s')"
    using a[of ?u1] assms(12) by simp
  also have "write_step ac can cmd h (Ph_ready t i, ?u2, s') (Ph_copy t i 0, ?u2\<lparr>rx := body\<rparr>, s')"
    using ack by simp
  finally show ?thesis by simp
qed

lemma run_publish:
  assumes "rx u = []" "rx_fin u" "\<not> wf_overwrite cmd" "fs_permits (in_os s)" "tx_cap u = None"
    and "i_rename t (components (wf_path cmd)) s = (r, s')"
    and "case r of Inr _ \<Rightarrow> a = ack_success \<and> s'' = s' | Inl e \<Rightarrow> a = ack_from_error e \<and> i_remove t s' = (d, s'')"
    and "framed ac (mh_method h) (mh_option h) a k"
  shows "write_run ac can cmd h (Ph_copy t i off, u, s) (Ph_end (Inr ()), u\<lparr>tx := tx u @ k\<rparr>, s'')"
proof -
  have "answer ac h a u = (Inr (), u\<lparr>tx := tx u @ k\<rparr>)"
    unfolding answer_def by (rule write_message_up[OF assms(8,5)])
  then have reply: "write_step ac can cmd h (Ph_answer a, u, s'') (Ph_end (Inr ()), u\<lparr>tx := tx u @ k\<rparr>, s'')"
    by simp
  have chk: "check_exists cmd s = Inr ()"
    using assms(3,4) by (simp add: check_exists_def try_exists_def fs_guard_def fs_permits_def)
  have "write_run ac can cmd h (Ph_copy t i off, u, s) (Ph_copy t i off, u, s)" by simp
  also have "write_step ac can cmd h (Ph_copy t i off, u, s) (Ph_check t (Inr ()), u, s)"
    using assms(1,2) by simp
  also have "write_step ac can cmd h (Ph_check t (Inr ()), u, s) (Ph_publish t (Inr ()), u, s)"
    by (simp add: chk)
  also have "write_step ac can cmd h (Ph_publish t (Inr ()), u, s) (Ph_cleanup t a, u, s')"
    using assms(6,7) by (cases r) auto
  also have "write_step ac can cmd h (Ph_cleanup t a, u, s') (Ph_answer a, u, s'')"
  proof (cases r)
    case (Inl e)
    with assms(7) i_op_errors(2) assms(6) show ?thesis by (auto simp: ack_from_error_code)
  next
    case (Inr v)
    with assms(7) show ?thesis by (simp add: ack_success_def)
  qed
  also note reply
  finally show ?thesis .
qed

lemma run_chunk:
  assumes "rx u = bs @ body" "bs \<noteq> []" "fs_permits (in_os s)"
  shows "write_run ac can cmd h (Ph_copy t i off, u, s)
    (Ph_copy t i (off + length bs), u\<lparr>rx := body\<rparr>, s\<lparr>in_data := (in_data s)(i := overlay off bs (in_data s i))\<rparr>)"
proof -
  have "i_write t i off (take (length bs) (rx u)) s = (Inr (), s\<lparr>in_data := (in_data s)(i := overlay off bs (in_data s i))\<rparr>)"
    using assms(1,3) by (simp add: i_write_def in_guard_def fs_permits_def)
  from write_step.chunk[OF _ _ this, of ac can cmd h] assms(1,2) show ?thesis
    by (intro r_into_rtranclp) simp
qed

lemma i_create_run:
  assumes "fs_permits (in_os s)" "t \<noteq> []" "stat (view s) t \<noteq> Some Dir" "parent_is_dir (view s) t"
  obtains i s' where "i_create t s = (Inr i, s')" "in_names s' t = Some (Inode i)" "in_data s' i = []"
proof -
  from assms obtain i s' where c: "i_create t s = (Inr i, s')"
    by (auto simp: i_create_def in_guard_def fs_permits_def)
  with i_create_inode[OF c] that show thesis by blast
qed

text \<open>
  Two handlers of one target: the first has opened the temporary file and copied \<open>xs1\<close> when
  the second opens it too, which truncates the inode both have open.
\<close>

lemma collision_open:
  assumes p: "job_target j1 = q @ [Normal n]" "job_target j2 = q @ [Normal n]" "t = q @ [Normal (n @ TEMP_FILE_SUFFIX)]"
    and st: "job_start j1" "job_start j2"
    and fs: "inodes_ok s" "fs_permits (in_os s)" "stat (view s) q = Some Dir" "stat (view s) (q @ [Normal n]) \<noteq> Some Dir"
      "stat (view s) t \<noteq> Some Dir"
    and ac: "codec_ok ac" "framed ac me op ack_success k0" "op AND OPTION_ERROR \<noteq> OPTION_ERROR"
      "framed ac (mh_method (jb_head j1)) (mh_option (jb_head j1)) ack_success k"
      "framed ac (mh_method (jb_head j2)) (mh_option (jb_head j2)) ack_success k"
    and u1: "rx (jb_stream j1) = k0 @ xs1 @ xs2" "tx (jb_stream j1) = []" "tx_cap (jb_stream j1) = None" "xs1 \<noteq> []"
    and u2: "rx (jb_stream j2) = k0 @ ys" "tx (jb_stream j2) = []" "tx_cap (jb_stream j2) = None"
  shows "\<exists>i s'. writes_run ac can ([j1, j2], s)
      ([j1\<lparr>jb_phase := Ph_copy t i (length xs1), jb_stream := (jb_stream j1)\<lparr>tx := k @ k, rx := xs2\<rparr>\<rparr>,
        j2\<lparr>jb_phase := Ph_copy t i 0, jb_stream := (jb_stream j2)\<lparr>tx := k @ k, rx := ys\<rparr>\<rparr>], s') \<and>
    in_names s' t = Some (Inode i) \<and> in_data s' i = [] \<and> in_os s' = in_os s \<and>
    stat (view s') q = Some Dir \<and> stat (view s') (q @ [Normal n]) \<noteq> Some Dir"
proof -
  let ?p = "q @ [Normal n]"
  let ?c1 = "jb_cmd j1" and ?c2 = "jb_cmd j2" and ?u1 = "jb_stream j1" and ?u2 = "jb_stream j2"
  have tp: "t \<noteq> ?p" "t \<noteq> q" by (simp_all add: p TEMP_FILE_SUFFIX_def)
  have start: "components (wf_path ?c1) = ?p" "components (wf_path ?c2) = ?p" "\<not> wf_mkdir ?c1" "\<not> wf_mkdir ?c2"
    "jb_phase j1 = Ph_ack1" "jb_phase j2 = Ph_ack1"
    using p st by (auto simp: job_target_def job_start_def)
  obtain i s1 where s1: "i_create t s = (Inr i, s1)" "in_names s1 t = Some (Inode i)" "in_data s1 i = []"
    by (rule i_create_run[of s t]) (use fs p in \<open>auto simp: parent_is_dir_def\<close>)
  note os = in_os_steps(1)[OF s1(1)]
  have q1: "stat (view s1) q = Some Dir" "stat (view s1) ?p \<noteq> Some Dir"
    using i_create_agree[OF fs(1) s1(1), of "{q, ?p}"] fs(3,4) tp by (auto simp: agree_on_stat)
  let ?s2 = "s1\<lparr>in_data := (in_data s1)(i := xs1)\<rparr>" and ?s3 = "s1\<lparr>in_data := (in_data s1)(i := [])\<rparr>"
  let ?v1 = "?u1\<lparr>tx := k @ k, rx := xs1 @ xs2\<rparr>" and ?v2 = "?u2\<lparr>tx := k @ k, rx := ys\<rparr>"
  have r1: "write_run ac can ?c1 (jb_head j1) (Ph_ack1, ?u1, s) (Ph_copy t i 0, ?v1, s1)"
    using run_open[OF start(1) p(3) start(3) fs(2,3) s1(1) ac(1-4) u1(1,3), of can] u1(2) by simp
  have r2: "write_run ac can ?c1 (jb_head j1) (Ph_copy t i 0, ?v1, s1) (Ph_copy t i (length xs1), ?v1\<lparr>rx := xs2\<rparr>, ?s2)"
    using run_chunk[of ?v1 xs1 xs2 s1 ac can ?c1 "jb_head j1" t i 0] fs(2) u1(4) s1(3) os by (simp add: overlay_def)
  have q2: "stat (view ?s2) q = Some Dir" "stat (view ?s3) q = Some Dir" "stat (view ?s3) ?p \<noteq> Some Dir"
    using q1 by (auto simp: stat_view)
  have cr: "i_create t ?s2 = (Inr i, ?s3)"
    using s1(2) fs(2) q2(1) os p(3)
    by (simp add: i_create_def in_guard_def fs_permits_def inode_at_def parent_is_dir_def
        stat_view[of _ "q @ [Normal (n @ TEMP_FILE_SUFFIX)]"])
  have r3: "write_run ac can ?c2 (jb_head j2) (Ph_ack1, ?u2, ?s2) (Ph_copy t i 0, ?v2, ?s3)"
    using run_open[OF start(2) p(3) start(4) _ q2(1) cr ac(1-3,5) u2(1,3), of can] fs(2) u2(2) os by simp
  have "writes_run ac can ([j1, j2], s)
      ([j1\<lparr>jb_phase := Ph_copy t i (length xs1), jb_stream := ?v1\<lparr>rx := xs2\<rparr>\<rparr>,
        j2\<lparr>jb_phase := Ph_copy t i 0, jb_stream := ?v2\<rparr>], ?s3)"
    by (rule rtranclp_trans[OF writes_run_fst[OF rtranclp_trans[OF r1 r2] start(5)] writes_run_snd[OF r3 start(6)]])
  with s1 q2 os show ?thesis by (intro exI[of _ i] exI[of _ ?s3]) simp
qed

text \<open>The first copies the rest and renames the file; the second writes to it all the same.\<close>

lemma collision_close:
  assumes p: "job_target j1 = q @ [Normal n]" "job_target j2 = q @ [Normal n]" "t = q @ [Normal (n @ TEMP_FILE_SUFFIX)]"
    and ov: "\<not> wf_overwrite (jb_cmd j1)" "\<not> wf_overwrite (jb_cmd j2)"
    and ph: "jb_phase j1 = Ph_copy t i off" "jb_phase j2 = Ph_copy t i 0"
    and fs: "fs_permits (in_os s)" "in_names s t = Some (Inode i)" "in_data s i = []"
      "stat (view s) q = Some Dir" "stat (view s) (q @ [Normal n]) \<noteq> Some Dir"
    and ac: "framed ac (mh_method (jb_head j1)) (mh_option (jb_head j1)) ack_success k"
      "framed ac (mh_method (jb_head j2)) (mh_option (jb_head j2)) (ack_from_error (fs_fail Op_rename t (in_os s))) kf"
    and u1: "rx (jb_stream j1) = xs2" "rx_fin (jb_stream j1)" "tx_cap (jb_stream j1) = None" "xs2 \<noteq> []"
    and u2: "rx (jb_stream j2) = ys" "rx_fin (jb_stream j2)" "tx_cap (jb_stream j2) = None" "ys \<noteq> []"
  shows "\<exists>js s'. writes_run ac can ([j1, j2], s) (js, s') \<and> map jb_phase js = [Ph_end (Inr ()), Ph_end (Inr ())] \<and>
    map (\<lambda>j. tx (jb_stream j)) js = [tx (jb_stream j1) @ k, tx (jb_stream j2) @ kf] \<and>
    stat (view s') (q @ [Normal n]) = Some (File (ys @ drop (length ys) (replicate off 0 @ xs2)))"
proof -
  let ?p = "q @ [Normal n]" and ?u1 = "jb_stream j1" and ?u2 = "jb_stream j2" and ?z = "replicate off 0 @ xs2"
  let ?c1 = "jb_cmd j1" and ?c2 = "jb_cmd j2" and ?h1 = "jb_head j1" and ?h2 = "jb_head j2"
  let ?n = "((in_names s)(t := None))(?p \<mapsto> Inode i)"
  let ?s4 = "s\<lparr>in_data := (in_data s)(i := ?z)\<rparr>"
  let ?s5 = "?s4\<lparr>in_names := ?n\<rparr>" and ?s6 = "s\<lparr>in_names := ?n, in_data := (in_data s)(i := ys @ drop (length ys) ?z)\<rparr>"
  have tp: "t \<noteq> ?p" by (simp add: p TEMP_FILE_SUFFIX_def)
  have start: "components (wf_path ?c1) = ?p" "components (wf_path ?c2) = ?p"
    using p by (auto simp: job_target_def)
  have r4: "write_run ac can ?c1 ?h1 (Ph_copy t i off, ?u1, s) (Ph_copy t i (off + length xs2), ?u1\<lparr>rx := []\<rparr>, ?s4)"
    using run_chunk[of ?u1 xs2 "[]" s ac can ?c1 ?h1 t i off] fs u1 by (simp add: overlay_def)
  have mv: "i_rename t ?p ?s4 = (Inr (), ?s5)"
    using fs p(3) by (auto simp: i_rename_def in_guard_def fs_permits_def stat_view parent_is_dir_def split: if_splits)
  have r5: "write_run ac can ?c1 ?h1 (Ph_copy t i (off + length xs2), ?u1\<lparr>rx := []\<rparr>, ?s4)
      (Ph_end (Inr ()), ?u1\<lparr>rx := [], tx := tx ?u1 @ k\<rparr>, ?s5)"
    using run_publish[where u = "?u1\<lparr>rx := []\<rparr>" and r = "Inr ()" and s'' = ?s5 and a = ack_success] ov fs(1) ac u1 mv start
    by simp
  have r6: "write_run ac can ?c2 ?h2 (Ph_copy t i 0, ?u2, ?s5) (Ph_copy t i (length ys), ?u2\<lparr>rx := []\<rparr>, ?s6)"
    using run_chunk[of ?u2 ys "[]" ?s5 ac can ?c2 ?h2 t i 0] fs(1) u2 by (simp add: overlay_def)
  have mv2: "i_rename t ?p ?s6 = (Inl (fs_fail Op_rename t (in_os s)), ?s6)"
    and rm: "i_remove t ?s6 = (Inl (fs_fail Op_remove t (in_os s)), ?s6)"
    using fs(1) tp by (simp_all add: i_rename_def i_remove_def in_guard_def fs_permits_def stat_view)
  have r7: "write_run ac can ?c2 ?h2 (Ph_copy t i (length ys), ?u2\<lparr>rx := []\<rparr>, ?s6)
      (Ph_end (Inr ()), ?u2\<lparr>rx := [], tx := tx ?u2 @ kf\<rparr>, ?s6)"
    using run_publish[where u = "?u2\<lparr>rx := []\<rparr>" and r = "Inl (fs_fail Op_rename t (in_os s))" and s'' = ?s6 and
        a = "ack_from_error (fs_fail Op_rename t (in_os s))"] ov fs(1) ac u2 mv2 rm start
    by simp
  have "writes_run ac can ([j1, j2], s)
      ([j1\<lparr>jb_phase := Ph_end (Inr ()), jb_stream := ?u1\<lparr>rx := [], tx := tx ?u1 @ k\<rparr>\<rparr>,
        j2\<lparr>jb_phase := Ph_end (Inr ()), jb_stream := ?u2\<lparr>rx := [], tx := tx ?u2 @ kf\<rparr>\<rparr>], ?s6)"
    by (rule rtranclp_trans[OF writes_run_fst[OF rtranclp_trans[OF r4 r5] ph(1)]
          writes_run_snd[OF rtranclp_trans[OF r6 r7] ph(2)]])
  moreover have "stat (view ?s6) ?p = Some (File (ys @ drop (length ys) ?z))" by (simp add: stat_view)
  ultimately show ?thesis by (intro exI conjI) (assumption, simp_all)
qed

section \<open>Properties\<close>

text \<open>
  C4: concurrent writes of different files do not disturb each other.  Take handlers that
  start on a tree in which no two names are one file, none of them with \<open>mkdir\<close>, no two of which have a target or a temporary file in
  common.  Whatever their interleaving, the sizes of their chunks, the failures of their
  streams and of the file system and the moments at which they are cancelled, every target
  is at every moment as it was at the start or holds exactly the bytes that follow the
  acknowledgement on its own stream, all of them, finished by the peer; it holds them when
  success is about to be reported; and no file but the targets and temporary files is touched.
\<close>

theorem concurrent_writes_isolated:
  assumes "writes_run ac can (js0, s0) (js, s)" "inodes_ok s0" "disjoint_jobs js0" "\<forall>j \<in> set js0. job_start j"
    and "i < length js0"
  shows "(stat (view s) (job_target (js0 ! i)) = stat (view s0) (job_target (js0 ! i)) \<or>
      holds_body (jb_stream (js0 ! i)) (job_target (js0 ! i)) s) \<and>
    (\<forall>a. jb_phase (js ! i) = Ph_answer a \<and> ack_code a = NO_ERROR \<longrightarrow>
      holds_body (jb_stream (js0 ! i)) (job_target (js0 ! i)) s) \<and>
    (\<forall>q. (\<forall>j \<in> set js0. q \<notin> job_paths j) \<longrightarrow> stat (view s) q = stat (view s0) q)"
proof (intro conjI)
  have inv: "jobs_inv js0 s0 js s" by (rule jobs_inv_run[OF assms(1,3,4,2)])
  then have c: "content_at (jb_stream (js0 ! i)) (stat (view s0) (job_target (js0 ! i))) (job_target (js0 ! i))
      (jb_phase (js ! i)) (jb_stream (js ! i)) s"
    using assms(5) by (simp add: jobs_inv_def)
  show "stat (view s) (job_target (js0 ! i)) = stat (view s0) (job_target (js0 ! i)) \<or>
      holds_body (jb_stream (js0 ! i)) (job_target (js0 ! i)) s"
    using c by (cases "jb_phase (js ! i)") (auto split: if_splits)
  show "\<forall>a. jb_phase (js ! i) = Ph_answer a \<and> ack_code a = NO_ERROR \<longrightarrow>
      holds_body (jb_stream (js0 ! i)) (job_target (js0 ! i)) s"
    using c by auto
  show "\<forall>q. (\<forall>j \<in> set js0. q \<notin> job_paths j) \<longrightarrow> stat (view s) q = stat (view s0) q"
    using inv agree_on_stat[of "- (\<Union>j \<in> set js0. job_paths j)" s0 s] by (auto simp: jobs_inv_def)
qed

definition sample_job :: "string \<Rightarrow> bytes \<Rightarrow> job" where
  "sample_job p bs = \<lparr>jb_cmd = \<lparr>wf_path = p, wf_overwrite = False, wf_mkdir = False\<rparr>, jb_head = command_header,
     jb_phase = Ph_ack1, jb_stream = stream_of (ack_frame @ bs)\<rparr>"

lemma sample_job_simps [simp]:
  "job_target (sample_job p bs) = components p" "job_start (sample_job p bs)" "jb_phase (sample_job p bs) = Ph_ack1"
  "jb_cmd (sample_job p bs) = \<lparr>wf_path = p, wf_overwrite = False, wf_mkdir = False\<rparr>"
  "jb_head (sample_job p bs) = command_header" "jb_stream (sample_job p bs) = stream_of (ack_frame @ bs)"
  by (simp_all add: sample_job_def job_target_def job_start_def)

theorem concurrent_writes_isolated_witness:
  "\<exists>js s. writes_run sample_ack True ([sample_job ''/a'' [5, 6], sample_job ''/b'' [7]], sample_inodes) (js, s) \<and>
     jb_phase (js ! 0) = Ph_copy [RootDir, Normal ''a.crab_temp''] 1 2 \<and>
     (stat (view s) [RootDir, Normal ''a''] = Some (File [1]) \<or>
      holds_body (stream_of (ack_frame @ [5, 6])) [RootDir, Normal ''a''] s)"
proof -
  let ?t = "[RootDir, Normal ''a.crab_temp'']" and ?j = "sample_job ''/a'' [5, 6]" and ?k = "sample_job ''/b'' [7]"
  obtain s where c: "i_create ?t sample_inodes = (Inr 1, s)"
    by (simp add: i_create_def in_guard_def sample_inodes_def inode_at_def stat_view parent_is_dir_def)
  have r1: "write_run sample_ack True (jb_cmd ?j) (jb_head ?j) (Ph_ack1, jb_stream ?j, sample_inodes)
      (Ph_copy ?t 1 0, (jb_stream ?j)\<lparr>tx := ack_frame @ ack_frame, rx := [5, 6]\<rparr>, s)"
    using run_open[of "jb_cmd ?j" "[RootDir]" "''a''" ?t sample_inodes 1 s sample_ack, OF _ _ _ _ _ c sample_ack_facts(1)
        sample_ack_framed option_none_ok, of command_header ack_frame "stream_of (ack_frame @ [5, 6])" "[5, 6]" True]
      sample_inodes_ok sample_ack_framed by (simp add: TEMP_FILE_SUFFIX_def)
  have r2: "write_run sample_ack True (jb_cmd ?j) (jb_head ?j)
      (Ph_copy ?t 1 0, (jb_stream ?j)\<lparr>tx := ack_frame @ ack_frame, rx := [5, 6]\<rparr>, s)
      (Ph_copy ?t 1 2, (jb_stream ?j)\<lparr>tx := ack_frame @ ack_frame, rx := []\<rparr>, s\<lparr>in_data := (in_data s)(1 := overlay 0 [5, 6] (in_data s 1))\<rparr>)"
    using run_chunk[where bs = "[5, 6]" and body = "[]" and s = s and t = ?t and i = 1 and off = 0 and
        u = "(jb_stream ?j)\<lparr>tx := ack_frame @ ack_frame, rx := [5, 6]\<rparr>" and ac = sample_ack and can = True]
      sample_inodes_ok(2) in_os_steps(1)[OF c] by (simp add: numeral_2_eq_2)
  have r: "writes_run sample_ack True ([?j, ?k], sample_inodes)
      ([?j\<lparr>jb_phase := Ph_copy ?t 1 2, jb_stream := (jb_stream ?j)\<lparr>tx := ack_frame @ ack_frame, rx := []\<rparr>\<rparr>, ?k],
       s\<lparr>in_data := (in_data s)(1 := overlay 0 [5, 6] (in_data s 1))\<rparr>)"
    by (rule writes_run_fst[OF rtranclp_trans[OF r1 r2]]) simp
  have d: "disjoint_jobs [?j, ?k]"
    by (auto simp: disjoint_jobs_def less_Suc_eq job_paths_def temp_path_def file_name_def TEMP_FILE_SUFFIX_def)
  from concurrent_writes_isolated[OF r sample_inodes_ok(1) d, of 0] r show ?thesis
    by (intro exI conjI) (assumption, simp_all add: sample_inodes_ok)
qed

text \<open>
  The second's bytes, and behind them what the first copied after the file had been truncated:
  neither body, if the second is shorter than the first and not its beginning.
\<close>

lemma neither_body:
  assumes "length ys < length xs1 + length xs2" "take (length ys) (xs1 @ xs2) \<noteq> ys"
  shows "ys @ drop (length ys) (replicate (length xs1) z @ xs2) \<noteq> ys"
    "ys @ drop (length ys) (replicate (length xs1) z @ xs2) \<noteq> xs1 @ xs2"
proof -
  have "length (drop (length ys) (replicate (length xs1) z @ xs2)) \<noteq> 0" using assms(1) by simp
  then show "ys @ drop (length ys) (replicate (length xs1) z @ xs2) \<noteq> ys" by (metis append_self_conv list.size(3))
  show "ys @ drop (length ys) (replicate (length xs1) z @ xs2) \<noteq> xs1 @ xs2"
    using assms(2) by (metis append_eq_conv_conj)
qed

text \<open>
  C27: two concurrent writes of one target can corrupt it.  Take two writes of the same
  target, without \<open>overwrite\<close> and \<open>mkdir\<close>, on a file system that refuses nothing, the second
  sending fewer bytes than the first and not the beginning of what the first sends.  As both
  use the same temporary file, there is an interleaving, in which the second opens it while
  the first is copying, after which the first client has been told success and the second
  an error, and the target holds neither what the first sent nor what the second did: the
  second's bytes, then what was copied by the first after the file had been truncated, at
  its old offset, with zeros before it.
\<close>

theorem concurrent_writes_collide:
  assumes "job_target j1 = q @ [Normal n]" "job_target j2 = q @ [Normal n]" "t = q @ [Normal (n @ TEMP_FILE_SUFFIX)]"
    and "job_start j1" "job_start j2" "\<not> wf_overwrite (jb_cmd j1)" "\<not> wf_overwrite (jb_cmd j2)"
    and "inodes_ok s" "fs_permits (in_os s)" "stat (view s) q = Some Dir" "stat (view s) (q @ [Normal n]) \<noteq> Some Dir"
    and "stat (view s) t \<noteq> Some Dir"
    and "codec_ok ac" "framed ac me op ack_success k0" "op AND OPTION_ERROR \<noteq> OPTION_ERROR"
    and "framed ac (mh_method (jb_head j1)) (mh_option (jb_head j1)) ack_success k"
    and "framed ac (mh_method (jb_head j2)) (mh_option (jb_head j2)) ack_success k"
    and "framed ac (mh_method (jb_head j2)) (mh_option (jb_head j2)) (ack_from_error (fs_fail Op_rename t (in_os s))) kf"
    and "rx (jb_stream j1) = k0 @ xs1 @ xs2" "rx_fin (jb_stream j1)" "tx (jb_stream j1) = []" "tx_cap (jb_stream j1) = None"
    and "rx (jb_stream j2) = k0 @ ys" "rx_fin (jb_stream j2)" "tx (jb_stream j2) = []" "tx_cap (jb_stream j2) = None"
    and "xs1 \<noteq> []" "xs2 \<noteq> []" "ys \<noteq> []"
    and "length ys < length xs1 + length xs2" "take (length ys) (xs1 @ xs2) \<noteq> ys"
  shows "\<exists>js s' c. writes_run ac can ([j1, j2], s) (js, s') \<and>
    map jb_phase js = [Ph_end (Inr ()), Ph_end (Inr ())] \<and>
    map (\<lambda>j. tx (jb_stream j)) js = [k @ k @ k, k @ k @ kf] \<and>
    stat (view s') (q @ [Normal n]) = Some (File c) \<and> c \<noteq> xs1 @ xs2 \<and> c \<noteq> ys \<and>
    c = ys @ drop (length ys) (replicate (length xs1) 0 @ xs2)"
proof -
  from collision_open[OF assms(1-5,8-17,19,21,22,27,23,25,26), of can] obtain i s1 where
    r: "writes_run ac can ([j1, j2], s)
      ([j1\<lparr>jb_phase := Ph_copy t i (length xs1), jb_stream := (jb_stream j1)\<lparr>tx := k @ k, rx := xs2\<rparr>\<rparr>,
        j2\<lparr>jb_phase := Ph_copy t i 0, jb_stream := (jb_stream j2)\<lparr>tx := k @ k, rx := ys\<rparr>\<rparr>], s1)" (is "writes_run ac can _ ([?j1, ?j2], s1)")
    and s1: "in_names s1 t = Some (Inode i)" "in_data s1 i = []" "in_os s1 = in_os s"
      "stat (view s1) q = Some Dir" "stat (view s1) (q @ [Normal n]) \<noteq> Some Dir"
    by blast
  have "\<exists>js s'. writes_run ac can ([?j1, ?j2], s1) (js, s') \<and> map jb_phase js = [Ph_end (Inr ()), Ph_end (Inr ())] \<and>
    map (\<lambda>j. tx (jb_stream j)) js = [tx (jb_stream ?j1) @ k, tx (jb_stream ?j2) @ kf] \<and>
    stat (view s') (q @ [Normal n]) = Some (File (ys @ drop (length ys) (replicate (length xs1) 0 @ xs2)))"
    by (rule collision_close[OF _ _ assms(3)]) (use assms s1 in \<open>simp_all add: job_target_def\<close>)
  then obtain js s' where c: "writes_run ac can ([?j1, ?j2], s1) (js, s')"
    "map jb_phase js = [Ph_end (Inr ()), Ph_end (Inr ())]"
    "map (\<lambda>j. tx (jb_stream j)) js = [tx (jb_stream ?j1) @ k, tx (jb_stream ?j2) @ kf]"
    "stat (view s') (q @ [Normal n]) = Some (File (ys @ drop (length ys) (replicate (length xs1) 0 @ xs2)))"
    by (elim exE conjE) (rule that)
  have tx: "map (\<lambda>j. tx (jb_stream j)) js = [k @ k @ k, k @ k @ kf]" using c(3) by simp
  show ?thesis
    by (rule exI[of _ js], rule exI[of _ s'],
        rule exI[of _ "ys @ drop (length ys) (replicate (length xs1) 0 @ xs2)"],
        intro conjI rtranclp_trans[OF r c(1)] c(2,4) tx refl neither_body[OF assms(30,31)])
qed

theorem concurrent_writes_collide_witness:
  "\<exists>js s. writes_run sample_ack3 False ([sample_job ''/a'' [5, 6, 7], sample_job ''/a'' [9]], sample_inodes) (js, s) \<and>
    map (\<lambda>j. tx (jb_stream j)) js =
      [ack_frame @ ack_frame @ ack_frame, ack_frame @ ack_frame @ small_frame Method_Command OPTION_NONE 3] \<and>
    stat (view s) [RootDir, Normal ''a''] = Some (File [9, 0, 7])"
proof -
  have "fs_fail Op_rename [RootDir, Normal ''a.crab_temp''] (in_os sample_inodes) = IO ''os error''"
    by (simp add: fs_fail_def sample_inodes_def sample_fs_def)
  moreover have "framed sample_ack3 me op (ack_from_error (IO ''os error'')) (small_frame me op 3)" for me op
    using sample_ack3_facts(3) by (simp add: ack_from_result_def)
  ultimately have "\<exists>js s c. writes_run sample_ack3 False ([sample_job ''/a'' [5, 6, 7], sample_job ''/a'' [9]], sample_inodes) (js, s) \<and>
      map jb_phase js = [Ph_end (Inr ()), Ph_end (Inr ())] \<and>
      map (\<lambda>j. tx (jb_stream j)) js =
        [ack_frame @ ack_frame @ ack_frame, ack_frame @ ack_frame @ small_frame Method_Command OPTION_NONE 3] \<and>
      stat (view s) ([RootDir] @ [Normal ''a'']) = Some (File c) \<and> c \<noteq> [5, 6] @ [7] \<and> c \<noteq> [9] \<and>
      c = [9] @ drop (length [9 :: u8]) (replicate (length [5, 6 :: u8]) 0 @ [7])"
    by (intro concurrent_writes_collide[where ac = sample_ack3 and ?k0.0 = ack_frame and n = "''a''" and me = Method_Command and
          op = OPTION_NONE and t = "[RootDir, Normal ''a.crab_temp'']"])
      (simp_all add: TEMP_FILE_SUFFIX_def sample_inodes_ok sample_ack3_facts option_none_ok)
  then obtain js s c where j: "writes_run sample_ack3 False ([sample_job ''/a'' [5, 6, 7], sample_job ''/a'' [9]], sample_inodes) (js, s)"
      "map (\<lambda>j. tx (jb_stream j)) js =
        [ack_frame @ ack_frame @ ack_frame, ack_frame @ ack_frame @ small_frame Method_Command OPTION_NONE 3]"
      "stat (view s) ([RootDir] @ [Normal ''a'']) = Some (File c)"
      "c = [9] @ drop (length [9 :: u8]) (replicate (length [5, 6 :: u8]) 0 @ [7])"
    by (elim exE conjE) (rule that)
  from j(3,4) show ?thesis by (intro exI[of _ js] exI[of _ s] conjI j(1,2)) simp
qed

end
