(* ===== verification/Crab_Live.thy ===== *)
theory Crab_Live
  imports Crab_Node Crab_Tasks
begin

text \<open>
  A remote node as a whole: \<open>RemoteNode\<close> of \<^verbatim>\<open>src/src/crab/nodes.rs\<close> with its handles
  (\<^verbatim>\<open>src/src/crab/node_handle.rs\<close>).

  \<open>serve\<close>, the two loops it spawns, the acceptor of streams, the callers that hold a handle and
  the peer run at the same time.  A \<open>live\<close> state is what they share: the status, the token,
  the channel of tasks (\<open>lv_queue\<close>, nothing once the receiver is gone), the channel of accepted
  streams (\<open>lv_inbox\<close>), the loops, and, to state what becomes of them, the tasks and streams
  that have been sent, refused, accepted and dropped.  \<open>live_env\<close> are the steps of callers, peer
  and parent; \<open>live_int\<close> are those of the node.
\<close>

section \<open>States\<close>

definition TASK_QUEUE :: nat where "TASK_QUEUE = 10"
definition STREAM_QUEUE :: nat where "STREAM_QUEUE = 32"

record ('t, 'w) live =
  lv_node :: node
  lv_started :: bool
  lv_over :: bool
  lv_handles :: nat
  lv_queue :: "'t list option"
  lv_tasks :: "'t loop_state"
  lv_accepting :: bool
  lv_inbox :: "'w option list"
  lv_streams :: "'w option loop_state"
  lv_sent :: "'t list"
  lv_refused :: "'t list"
  lv_dropped :: "'t list"
  lv_accepted :: "'w list"
  lv_closed :: "'w list"

text \<open>\<open>RemoteNode::new\<close>: the node with its one handle.\<close>

definition live_new :: "('t, 'w) live" where
  "live_new = \<lparr>lv_node = node_new, lv_started = False, lv_over = False, lv_handles = 1, lv_queue = Some [],
     lv_tasks = loop_init, lv_accepting = False, lv_inbox = [], lv_streams = loop_init, lv_sent = [],
     lv_refused = [], lv_dropped = [], lv_accepted = [], lv_closed = []\<rparr>"

text \<open>\<open>Node::status\<close> of the node and of a handle: both read the same watch channel.\<close>

definition live_status :: "('t, 'w) live \<Rightarrow> node_status" where
  "live_status s = nd_status (lv_node s)"

text \<open>
  The \<open>Node\<close> trait.  \<open>RemoteNode::new\<close> gives its handle the same metadata and the receiving end
  of the same status channel.
\<close>

record node_view =
  nv_id :: string
  nv_status :: node_status
  nv_addr :: socket_addr
  nv_as_client :: bool

definition remote_node_view :: "node_metadata \<Rightarrow> ('t, 'w) live \<Rightarrow> node_view" where
  "remote_node_view meta s =
    \<lparr>nv_id = nm_node_id meta, nv_status = live_status s, nv_addr = nm_remote_addr meta, nv_as_client = nm_as_client meta\<rparr>"

record handle =
  hd_meta :: node_metadata

definition handle_new :: "node_metadata \<Rightarrow> handle" where
  "handle_new meta = \<lparr>hd_meta = meta\<rparr>"

definition handle_clone :: "handle \<Rightarrow> handle" where
  "handle_clone hn = \<lparr>hd_meta = hd_meta hn\<rparr>"

definition handle_view :: "handle \<Rightarrow> ('t, 'w) live \<Rightarrow> node_view" where
  "handle_view hn s =
    \<lparr>nv_id = nm_node_id (hd_meta hn), nv_status = live_status s, nv_addr = nm_remote_addr (hd_meta hn),
     nv_as_client = nm_as_client (hd_meta hn)\<rparr>"

lemma handle_mirrors_node:
  "handle_view (handle_new meta) s = remote_node_view meta s" "handle_view (handle_clone hn) s = handle_view hn s"
  by (simp_all add: handle_view_def remote_node_view_def handle_new_def handle_clone_def)

definition live_cancelled :: "('t, 'w) live \<Rightarrow> bool" where
  "live_cancelled s = nd_cancelled (lv_node s)"

definition waiting :: "('t, 'w) live \<Rightarrow> 't list" where
  "waiting s = (case lv_queue s of None \<Rightarrow> [] | Some q \<Rightarrow> q)"

definition streams_in :: "'w option list \<Rightarrow> 'w list" where
  "streams_in ms = List.map_filter id ms"

text \<open>The receiver of the tasks goes away with what is in the channel.\<close>

definition drop_receiver :: "('t, 'w) live \<Rightarrow> ('t, 'w) live" where
  "drop_receiver s = s\<lparr>lv_queue := None, lv_dropped := lv_dropped s @ waiting s\<rparr>"

section \<open>Steps\<close>

text \<open>
  The callers clone, drop and use handles: \<open>send_task\<close> waits while the channel is full and
  fails when the receiver is gone.  The peer opens streams; \<open>accept\<close> passes them on, or drops
  them when nobody takes them any more.  The first heartbeat succeeds or fails, a later one
  fails, the parent cancels the token.
\<close>

inductive live_env :: "('t, 'w) live \<Rightarrow> ('t, 'w) live \<Rightarrow> bool" where
  clone: "0 < lv_handles s \<Longrightarrow> live_env s (s\<lparr>lv_handles := Suc (lv_handles s)\<rparr>)"
| drop: "0 < lv_handles s \<Longrightarrow> live_env s (s\<lparr>lv_handles := lv_handles s - 1\<rparr>)"
| send: "0 < lv_handles s \<Longrightarrow> lv_queue s = Some q \<Longrightarrow> length q < TASK_QUEUE \<Longrightarrow>
    live_env s (s\<lparr>lv_queue := Some (q @ [t]), lv_sent := lv_sent s @ [t]\<rparr>)"
| refuse: "0 < lv_handles s \<Longrightarrow> lv_queue s = None \<Longrightarrow> live_env s (s\<lparr>lv_refused := lv_refused s @ [t]\<rparr>)"
| accept: "lv_accepting s \<Longrightarrow> ls_open (lv_streams s) \<Longrightarrow> length (lv_inbox s) < STREAM_QUEUE \<Longrightarrow>
    live_env s (s\<lparr>lv_inbox := lv_inbox s @ [Some w], lv_accepted := lv_accepted s @ [w]\<rparr>)"
| accept_late: "lv_accepting s \<Longrightarrow> \<not> ls_open (lv_streams s) \<Longrightarrow>
    live_env s (s\<lparr>lv_accepted := lv_accepted s @ [w], lv_closed := lv_closed s @ [w]\<rparr>)"
| first_beat: "\<not> lv_started s \<Longrightarrow> \<not> lv_over s \<Longrightarrow>
    live_env s (s\<lparr>lv_node := set_status NodeStatus_Running (lv_node s), lv_started := True, lv_accepting := True\<rparr>)"
| no_beat: "\<not> lv_started s \<Longrightarrow> \<not> lv_over s \<Longrightarrow> live_env s (s\<lparr>lv_over := True\<rparr>)"
| lost_beat: "lv_started s \<Longrightarrow> live_status s = NodeStatus_Running \<Longrightarrow>
    live_env s (s\<lparr>lv_node := (set_status NodeStatus_Stopping (lv_node s))\<lparr>nd_cancelled := True\<rparr>\<rparr>)"
| cancel: "live_env s (s\<lparr>lv_node := (lv_node s)\<lparr>nd_cancelled := True\<rparr>\<rparr>)"

text \<open>
  \<open>serve_all_tasks\<close> takes a task, ends at the end of its channel or when cancelled, and joins;
  \<open>accept\<close> ends when cancelled and sends \<open>None\<close>; \<open>handle_all_streams\<close> takes a stream, ends at
  \<open>None\<close>, at the end of its channel or when cancelled, and joins; \<open>serve\<close> notices the
  cancellation, and returns when both loops have been joined; the endpoint then drops the node.
\<close>

inductive live_int :: "('t, 'w) live \<Rightarrow> ('t, 'w) live \<Rightarrow> bool" where
  take_task: "lv_started s \<Longrightarrow> ls_open (lv_tasks s) \<Longrightarrow> lv_queue s = Some (t # q) \<Longrightarrow>
    live_int s (s\<lparr>lv_queue := Some q, lv_tasks := tasks_step (lv_tasks s) (Le_recv (Some t))\<rparr>)"
| end_tasks: "lv_started s \<Longrightarrow> ls_open (lv_tasks s) \<Longrightarrow> lv_queue s = Some [] \<Longrightarrow> lv_handles s = 0 \<Longrightarrow>
    live_int s (drop_receiver (s\<lparr>lv_tasks := tasks_step (lv_tasks s) (Le_recv None)\<rparr>))"
| stop_tasks: "lv_started s \<Longrightarrow> ls_open (lv_tasks s) \<Longrightarrow> live_cancelled s \<Longrightarrow>
    live_int s (drop_receiver (s\<lparr>lv_tasks := tasks_step (lv_tasks s) Le_cancel\<rparr>))"
| join_task: "i < length (ls_running (lv_tasks s)) \<Longrightarrow>
    live_int s (s\<lparr>lv_tasks := tasks_step (lv_tasks s) (Le_join i)\<rparr>)"
| stop_accept: "lv_accepting s \<Longrightarrow> live_cancelled s \<Longrightarrow> ls_open (lv_streams s) \<Longrightarrow> length (lv_inbox s) < STREAM_QUEUE \<Longrightarrow>
    live_int s (s\<lparr>lv_accepting := False, lv_inbox := lv_inbox s @ [None]\<rparr>)"
| stop_accept_late: "lv_accepting s \<Longrightarrow> live_cancelled s \<Longrightarrow> \<not> ls_open (lv_streams s) \<Longrightarrow>
    live_int s (s\<lparr>lv_accepting := False\<rparr>)"
| take_stream: "lv_started s \<Longrightarrow> ls_open (lv_streams s) \<Longrightarrow> lv_inbox s = Some w # ms \<Longrightarrow>
    live_int s (s\<lparr>lv_inbox := ms, lv_streams := streams_step (lv_streams s) (Le_recv (Some (Some w)))\<rparr>)"
| last_stream: "lv_started s \<Longrightarrow> ls_open (lv_streams s) \<Longrightarrow> lv_inbox s = None # ms \<Longrightarrow>
    live_int s (s\<lparr>lv_inbox := [], lv_streams := streams_step (lv_streams s) (Le_recv (Some None)),
      lv_closed := lv_closed s @ streams_in ms\<rparr>)"
| stop_streams: "lv_started s \<Longrightarrow> ls_open (lv_streams s) \<Longrightarrow> live_cancelled s \<Longrightarrow>
    live_int s (s\<lparr>lv_inbox := [], lv_streams := streams_step (lv_streams s) Le_cancel,
      lv_closed := lv_closed s @ streams_in (lv_inbox s)\<rparr>)"
| join_stream: "i < length (ls_running (lv_streams s)) \<Longrightarrow>
    live_int s (s\<lparr>lv_streams := streams_step (lv_streams s) (Le_join i)\<rparr>)"
| notice: "lv_started s \<Longrightarrow> live_status s = NodeStatus_Running \<Longrightarrow> live_cancelled s \<Longrightarrow>
    live_int s (s\<lparr>lv_node := set_status NodeStatus_Stopping (lv_node s)\<rparr>)"
| stopped: "lv_started s \<Longrightarrow> live_status s = NodeStatus_Stopping \<Longrightarrow>
    \<not> ls_open (lv_tasks s) \<Longrightarrow> ls_running (lv_tasks s) = [] \<Longrightarrow>
    \<not> lv_accepting s \<Longrightarrow> \<not> ls_open (lv_streams s) \<Longrightarrow> ls_running (lv_streams s) = [] \<Longrightarrow>
    live_int s (s\<lparr>lv_node := set_status NodeStatus_Stopped (lv_node s), lv_over := True\<rparr>)"
| release: "lv_over s \<Longrightarrow> lv_queue s = Some q \<Longrightarrow> live_int s (drop_receiver s)"

inductive live_reach :: "('t, 'w) live \<Rightarrow> bool" where
  new: "live_reach live_new"
| env: "live_reach s \<Longrightarrow> live_env s t \<Longrightarrow> live_reach t"
| int: "live_reach s \<Longrightarrow> live_int s t \<Longrightarrow> live_reach t"

section \<open>The invariant\<close>

text \<open>Every task sent has been started, in the order of sending, or waits, or has been dropped.\<close>

definition tasks_inv :: "('t, 'w) live \<Rightarrow> bool" where
  "tasks_inv s \<longleftrightarrow>
    lv_sent s = ls_spawned (lv_tasks s) @ waiting s @ lv_dropped s \<and>
    (lv_queue s \<noteq> None \<longrightarrow> lv_dropped s = [] \<and> lv_refused s = []) \<and> length (waiting s) \<le> TASK_QUEUE \<and>
    mset (ls_running (lv_tasks s)) \<subseteq># mset (ls_spawned (lv_tasks s)) \<and>
    (if lv_started s then lv_queue s = None \<longleftrightarrow> \<not> ls_open (lv_tasks s)
     else lv_tasks s = loop_init \<and> (lv_queue s = None \<longrightarrow> lv_over s))"

text \<open>The same of the accepted streams.\<close>

definition streams_inv :: "('t, 'w) live \<Rightarrow> bool" where
  "streams_inv s \<longleftrightarrow>
    lv_accepted s = streams_in (ls_spawned (lv_streams s)) @ streams_in (lv_inbox s) @ lv_closed s \<and>
    (if ls_open (lv_streams s) then lv_closed s = [] else lv_inbox s = []) \<and> length (lv_inbox s) \<le> STREAM_QUEUE \<and>
    (\<not> lv_started s \<longrightarrow> lv_streams s = loop_init \<and> lv_inbox s = [] \<and> \<not> lv_accepting s)"

definition status_inv :: "('t, 'w) live \<Rightarrow> bool" where
  "status_inv s \<longleftrightarrow>
    (lv_started s \<longleftrightarrow> live_status s \<noteq> NodeStatus_Ready) \<and>
    (lv_started s \<longrightarrow> (lv_over s \<longleftrightarrow> live_status s = NodeStatus_Stopped)) \<and>
    (live_status s \<in> {NodeStatus_Stopping, NodeStatus_Stopped} \<longrightarrow> live_cancelled s) \<and>
    (live_status s = NodeStatus_Stopped \<longrightarrow>
       \<not> ls_open (lv_tasks s) \<and> ls_running (lv_tasks s) = [] \<and>
       \<not> lv_accepting s \<and> \<not> ls_open (lv_streams s) \<and> ls_running (lv_streams s) = [])"

lemma streams_in_simps [simp]:
  "streams_in [] = []" "streams_in (ms @ ns) = streams_in ms @ streams_in ns"
  "streams_in (Some w # ms) = w # streams_in ms" "streams_in (None # ms) = streams_in ms"
  by (simp_all add: streams_in_def List.map_filter_def)

lemma waiting_simps [simp]:
  "lv_queue s = None \<Longrightarrow> waiting s = []" "lv_queue s = Some q \<Longrightarrow> waiting s = q"
  by (simp_all add: waiting_def)

lemma drop_receiver_simps [simp]:
  "lv_queue (drop_receiver s) = None" "lv_dropped (drop_receiver s) = lv_dropped s @ waiting s"
  "lv_sent (drop_receiver s) = lv_sent s" "lv_tasks (drop_receiver s) = lv_tasks s"
  "lv_node (drop_receiver s) = lv_node s" "lv_started (drop_receiver s) = lv_started s"
  "lv_over (drop_receiver s) = lv_over s" "lv_handles (drop_receiver s) = lv_handles s"
  "lv_accepting (drop_receiver s) = lv_accepting s" "lv_inbox (drop_receiver s) = lv_inbox s"
  "lv_streams (drop_receiver s) = lv_streams s" "lv_refused (drop_receiver s) = lv_refused s"
  "lv_accepted (drop_receiver s) = lv_accepted s" "lv_closed (drop_receiver s) = lv_closed s"
  by (simp_all add: drop_receiver_def)

lemma reap_more [simp]:
  "mset (ls_running s) \<subseteq># M \<Longrightarrow> mset (ls_running (reap i s)) \<subseteq># M"
  by (meson reap_simps(3) subset_mset.order_trans)

lemma reap_nil [simp]: "ls_running s = [] \<Longrightarrow> reap i s = s"
  by (simp add: reap_def)

lemma drop_receiver_status [simp]:
  "live_status (drop_receiver s) = live_status s" "live_cancelled (drop_receiver s) = live_cancelled s"
  "waiting (drop_receiver s) = []"
  by (simp_all add: live_status_def live_cancelled_def)

lemma live_invs_new: "tasks_inv live_new" "streams_inv live_new" "status_inv live_new"
  by (simp_all add: tasks_inv_def streams_inv_def status_inv_def live_new_def loop_init_def live_status_def node_new_def
      waiting_def)

lemma tasks_inv_env: "live_env s t \<Longrightarrow> tasks_inv s \<Longrightarrow> tasks_inv t"
  by (cases rule: live_env.cases, assumption) (auto simp: tasks_inv_def waiting_def loop_init_def split: if_splits)

lemma streams_inv_env: "live_env s t \<Longrightarrow> streams_inv s \<Longrightarrow> streams_inv t"
  by (cases rule: live_env.cases, assumption) (auto simp: streams_inv_def split: if_splits)

lemma status_inv_env: "live_env s t \<Longrightarrow> status_inv s \<Longrightarrow> streams_inv s \<Longrightarrow> status_inv t"
  by (cases rule: live_env.cases, assumption)
    (auto simp: status_inv_def streams_inv_def live_status_def live_cancelled_def split: if_splits)

lemma tasks_inv_int: "live_int s t \<Longrightarrow> tasks_inv s \<Longrightarrow> status_inv s \<Longrightarrow> tasks_inv t"
  by (cases rule: live_int.cases, assumption)
    (auto simp: tasks_inv_def status_inv_def waiting_def drop_receiver_def loop_init_def
      intro: subset_mset.order_trans split: if_splits)

lemma streams_inv_int: "live_int s t \<Longrightarrow> streams_inv s \<Longrightarrow> streams_inv t"
  by (cases rule: live_int.cases, assumption) (auto simp: streams_inv_def drop_receiver_def loop_init_def split: if_splits)

lemma status_inv_int: "live_int s t \<Longrightarrow> status_inv s \<Longrightarrow> tasks_inv s \<Longrightarrow> status_inv t"
  by (cases rule: live_int.cases, assumption)
    (auto simp: status_inv_def tasks_inv_def live_status_def live_cancelled_def drop_receiver_def split: if_splits)

lemma live_invs:
  assumes "live_reach s"
  shows "tasks_inv s" "streams_inv s" "status_inv s"
proof -
  from assms have "tasks_inv s \<and> streams_inv s \<and> status_inv s"
    by induction (auto simp: live_invs_new intro: tasks_inv_env streams_inv_env status_inv_env
        tasks_inv_int streams_inv_int status_inv_int)
  then show "tasks_inv s" "streams_inv s" "status_inv s" by auto
qed

section \<open>Stopping\<close>

text \<open>The work that is left: every step of the node alone takes some of it.\<close>

definition live_work :: "('t, 'w) live \<Rightarrow> nat" where
  "live_work s =
    (if live_status s = NodeStatus_Running then 1 else 0) + (if lv_over s then 0 else 1) +
    (case lv_queue s of None \<Rightarrow> 0 | Some q \<Rightarrow> 1 + 2 * length q) + length (ls_running (lv_tasks s)) +
    (if ls_open (lv_tasks s) then 1 else 0) +
    (if lv_accepting s then 3 else 0) + 2 * length (lv_inbox s) + length (ls_running (lv_streams s)) +
    (if ls_open (lv_streams s) then 1 else 0)"

lemma reap_length: "i < length (ls_running s) \<Longrightarrow> length (ls_running (reap i s)) < length (ls_running s)"
  by (simp add: reap_def remove_nth_def)

lemma live_int_work:
  assumes "live_int s t" "status_inv s"
  shows "live_work t < live_work s"
  using assms
  by (cases rule: live_int.cases)
    (auto simp: live_work_def drop_receiver_def waiting_def live_status_def status_inv_def reap_length
      split: option.splits if_splits)

interpretation node_steps: winding_down live_int live_reach "measure live_work"
  by unfold_locales (auto simp: live_int_work live_invs intro: live_reach.int)

text \<open>A cancelled node has a step left until it is over and its receiver is gone.\<close>

lemma live_int_progress:
  assumes "live_reach s" "lv_started s" "live_cancelled s" "\<not> (lv_over s \<and> lv_queue s = None)"
  shows "\<exists>t. live_int s t"
proof -
  note inv = live_invs[OF assms(1)]
  consider "ls_open (lv_tasks s)" | "ls_open (lv_streams s)" | "ls_running (lv_tasks s) \<noteq> []"
    | "ls_running (lv_streams s) \<noteq> []" | "lv_accepting s" "\<not> ls_open (lv_streams s)"
    | "live_status s = NodeStatus_Running"
    | "\<not> ls_open (lv_tasks s)" "ls_running (lv_tasks s) = []" "\<not> lv_accepting s" "\<not> ls_open (lv_streams s)"
      "ls_running (lv_streams s) = []" "live_status s \<noteq> NodeStatus_Running" by blast
  then show ?thesis
  proof cases
    case 7
    from inv(3) assms(2) 7(6) have "live_status s \<in> {NodeStatus_Stopping, NodeStatus_Stopped}"
      by (cases "live_status s") (auto simp: status_inv_def)
    moreover have "live_status s \<noteq> NodeStatus_Stopped"
      using inv(1,3) assms(2,4) 7(1) by (auto simp: status_inv_def tasks_inv_def)
    ultimately show ?thesis using live_int.stopped[OF assms(2) _ 7(1-5)] by blast
  qed (use assms in \<open>blast intro: live_int.intros\<close>)+
qed

lemma live_int_keeps:
  assumes "live_int s t"
  shows "lv_started t = lv_started s" "live_cancelled t = live_cancelled s"
  using assms by (cases; simp add: live_cancelled_def)+

lemma live_run_keeps:
  assumes "live_int\<^sup>*\<^sup>* s t" "live_reach s"
  shows "live_reach t \<and> lv_started t = lv_started s \<and> live_cancelled t = live_cancelled s"
  using assms by (induction rule: rtranclp_induct) (auto simp: live_int_keeps intro: live_reach.int)

section \<open>Properties\<close>

text \<open>
  C6: no task and no stream of a node is lost from sight.  At every moment the tasks sent through
  the handles are, in their order, those that have been started, those that wait and those
  that have been dropped with the receiver; the same holds of the streams accepted from the
  peer.  A task is refused or dropped only when the receiver is gone, nothing is started before
  the first heartbeat, the channels keep their capacity, and a stopped node has nothing
  waiting or running.
\<close>

theorem live_tasks_accounted:
  assumes "live_reach s"
  shows "lv_sent s = ls_spawned (lv_tasks s) @ waiting s @ lv_dropped s \<and>
    lv_accepted s = streams_in (ls_spawned (lv_streams s)) @ streams_in (lv_inbox s) @ lv_closed s \<and>
    (lv_dropped s @ lv_refused s \<noteq> [] \<longrightarrow> lv_queue s = None) \<and>
    (live_status s = NodeStatus_Ready \<longrightarrow> ls_spawned (lv_tasks s) = [] \<and> ls_spawned (lv_streams s) = []) \<and>
    length (waiting s) \<le> TASK_QUEUE \<and> length (lv_inbox s) \<le> STREAM_QUEUE \<and>
    (live_status s = NodeStatus_Stopped \<longrightarrow>
      waiting s = [] \<and> lv_inbox s = [] \<and> ls_running (lv_tasks s) = [] \<and> ls_running (lv_streams s) = [])"
proof -
  note inv = live_invs[OF assms]
  have started: "lv_started s \<longleftrightarrow> live_status s \<noteq> NodeStatus_Ready" using inv(3) by (simp add: status_inv_def)
  have "live_status s = NodeStatus_Stopped \<Longrightarrow> lv_queue s = None"
    using inv(1,3) started by (auto simp: status_inv_def tasks_inv_def)
  with inv started show ?thesis
    by (auto simp: tasks_inv_def streams_inv_def status_inv_def loop_init_def)
qed

definition sample_life :: "(nat, nat) live" where
  "sample_life = live_new\<lparr>lv_queue := Some [3], lv_sent := [2, 3], lv_started := True, lv_accepting := True,
     lv_node := set_status NodeStatus_Running node_new, lv_tasks := tasks_step loop_init (Le_recv (Some 2))\<rparr>"

lemma sample_life_reach: "live_reach sample_life"
proof -
  let ?a = "live_new\<lparr>lv_queue := Some [2], lv_sent := [2]\<rparr> :: (nat, nat) live"
  let ?b = "live_new\<lparr>lv_queue := Some [2, 3], lv_sent := [2, 3]\<rparr> :: (nat, nat) live"
  let ?c = "?b\<lparr>lv_node := set_status NodeStatus_Running node_new, lv_started := True, lv_accepting := True\<rparr>"
  have "live_reach ?a" using live_reach.env[OF live_reach.new live_env.send[of live_new "[]" 2]]
    by (simp add: live_new_def TASK_QUEUE_def)
  from live_reach.env[OF this live_env.send[of ?a "[2]" 3]] have "live_reach ?b"
    by (simp add: live_new_def TASK_QUEUE_def)
  from live_reach.env[OF this live_env.first_beat[of ?b]] have c: "live_reach ?c"
    by (simp add: live_new_def)
  have "live_int ?c (?c\<lparr>lv_queue := Some [3], lv_tasks := tasks_step (lv_tasks ?c) (Le_recv (Some 2))\<rparr>)"
    by (rule live_int.take_task) (simp_all add: live_new_def loop_init_def)
  from live_reach.int[OF c this] show ?thesis by (simp add: sample_life_def live_new_def)
qed

theorem live_tasks_accounted_witness:
  "lv_sent sample_life = ls_spawned (lv_tasks sample_life) @ waiting sample_life @ lv_dropped sample_life \<and>
   ls_spawned (lv_tasks sample_life) = [2] \<and> waiting sample_life = [3] \<and> length (waiting sample_life) \<le> TASK_QUEUE"
  using live_tasks_accounted[OF sample_life_reach]
  by (simp add: sample_life_def live_new_def loop_init_def waiting_def)

text \<open>
  C19: a node that is told to stop does.  Once a served node has been cancelled, its own steps
  cannot go on for ever, whatever their order, if its tasks and the handlers of its streams
  end; where they end the node is stopped, \<open>serve\<close> has returned, nothing waits or runs, and
  every further call of a handle is answered \<open>NODE_ALREADY_EXIT\<close>.
\<close>

theorem node_stop_completes:
  assumes "live_reach s" "lv_started s" "live_cancelled s" "live_int\<^sup>*\<^sup>* s t"
  shows "(\<exists>u. live_int\<^sup>*\<^sup>* t u \<and> (\<nexists>v. live_int u v)) \<and> (\<nexists>f. f 0 = t \<and> (\<forall>n. live_int (f n) (f (Suc n)))) \<and>
    ((\<nexists>u. live_int t u) \<longrightarrow>
      live_status t = NodeStatus_Stopped \<and> lv_over t \<and> waiting t = [] \<and>
      ls_running (lv_tasks t) = [] \<and> ls_running (lv_streams t) = [] \<and>
      handle_exec ac cc (lv_queue t \<noteq> None) opened tok cmd callback = Inl (ErrorCode NODE_ALREADY_EXIT))"
proof (intro conjI)
  have t: "live_reach t" "lv_started t" "live_cancelled t" using live_run_keeps[OF assms(4,1)] assms(2,3) by auto
  note inv = live_invs[OF t(1)]
  show "\<exists>u. live_int\<^sup>*\<^sup>* t u \<and> (\<nexists>v. live_int u v)" by (rule node_steps.run_ends[OF t(1)])
  show "\<nexists>f. f 0 = t \<and> (\<forall>n. live_int (f n) (f (Suc n)))" by (rule node_steps.no_endless_run[OF t(1)])
  show "(\<nexists>u. live_int t u) \<longrightarrow>
      live_status t = NodeStatus_Stopped \<and> lv_over t \<and> waiting t = [] \<and>
      ls_running (lv_tasks t) = [] \<and> ls_running (lv_streams t) = [] \<and>
      handle_exec ac cc (lv_queue t \<noteq> None) opened tok cmd callback = Inl (ErrorCode NODE_ALREADY_EXIT)"
  proof
    assume "\<nexists>u. live_int t u"
    with live_int_progress[OF t] have "lv_over t" "lv_queue t = None" by blast+
    with inv(3) t(2) show "live_status t = NodeStatus_Stopped \<and> lv_over t \<and> waiting t = [] \<and>
      ls_running (lv_tasks t) = [] \<and> ls_running (lv_streams t) = [] \<and>
      handle_exec ac cc (lv_queue t \<noteq> None) opened tok cmd callback = Inl (ErrorCode NODE_ALREADY_EXIT)"
      by (simp add: status_inv_def handle_exec_def await_answer_def)
  qed
qed

theorem node_stop_completes_witness:
  "\<exists>s u. live_reach s \<and> lv_sent s = [2 :: nat, 3] \<and> live_cancelled (s :: (nat, nat) live) \<and>
    live_int\<^sup>*\<^sup>* s u \<and> live_status u = NodeStatus_Stopped \<and> waiting u = [] \<and> ls_running (lv_tasks u) = []"
proof -
  let ?s = "sample_life\<lparr>lv_node := (lv_node sample_life)\<lparr>nd_cancelled := True\<rparr>\<rparr>"
  have r: "live_reach ?s" by (rule live_reach.env[OF sample_life_reach live_env.cancel])
  have s: "lv_started ?s" "live_cancelled ?s" "lv_sent ?s = [2, 3]" by (simp_all add: sample_life_def live_cancelled_def)
  from node_stop_completes[OF r s(1,2) rtranclp.rtrancl_refl, THEN conjunct1] obtain u where
    u: "live_int\<^sup>*\<^sup>* ?s u" "\<nexists>v. live_int u v" by blast
  note e = mp[OF node_stop_completes[OF r s(1,2) u(1), THEN conjunct2, THEN conjunct2] u(2)]
  show ?thesis
    using r s u(1) e[THEN conjunct1] e[THEN conjunct2, THEN conjunct2, THEN conjunct1]
      e[THEN conjunct2, THEN conjunct2, THEN conjunct2, THEN conjunct1] by blast
qed

end
