(* ===== verification/Spec2Isabelle.thy ===== *)
theory Spec2Isabelle
  imports Crab_Answers Crab_Pair Crab_Meet Crab_Datagrams Crab_Start Crab_Transfer Crab_Race Crab_Live Crab_Beats Crab_Fleet
begin

text \<open>
  A verification development for \<^bold>\<open>crab.rs\<close>, a peer-to-peer tool for remote administration
  over QUIC.  Instances connect to each other; over a connection each side can send the
  other commands: ping, read, write, list and delete files, proxy HTTP requests, forward TCP
  connections and UDP datagrams.  An HTTP interface, TCP forwarding rules and SOCKS5 proxies
  make these commands available to local clients.

  \<^bold>\<open>The program\<close>.  \<^verbatim>\<open>src/src/crab\<close> is the communication library.  An endpoint
  (\<^verbatim>\<open>endpoint.rs\<close>) accepts connections and opens connections to configured addresses; each
  connection does a handshake (\<^verbatim>\<open>proto/hook_wrapper.rs\<close>, over the \<open>Protocol\<close> trait of
  \<^verbatim>\<open>proto/hook.rs\<close>) and becomes a remote node (\<^verbatim>\<open>nodes.rs\<close>), which keeps a heartbeat going,
  serves the streams the peer opens and runs the tasks (\<^verbatim>\<open>proto/tasks.rs\<close>) that the local side
  queues through a handle (\<^verbatim>\<open>node_handle.rs\<close>).  Every task has a stream of its own on which
  framed messages travel (\<^verbatim>\<open>proto/types.rs\<close>, \<^verbatim>\<open>proto/util.rs\<close>).  \<^verbatim>\<open>utils/runit.rs\<close> has the loops
  that run workers.  \<^verbatim>\<open>src/src/app\<close> is the application: the table of nodes (\<^verbatim>\<open>manager.rs\<close>), its
  protocol (\<^verbatim>\<open>protocol/proto.rs\<close>), the commands (\<^verbatim>\<open>protocol/types.rs\<close>, \<^verbatim>\<open>commands.rs\<close>, \<^verbatim>\<open>base.rs\<close>,
  \<^verbatim>\<open>forwarder\<close>) and their local clients (\<^verbatim>\<open>workers\<close>, \<^verbatim>\<open>forwarder/tcp_worker.rs\<close>,
  \<^verbatim>\<open>protocol/socks5\<close>), which look their node up in the table and call its handle.  \<^verbatim>\<open>main.rs\<close>
  reads the configuration and runs the endpoint and the local servers together.

  \<^bold>\<open>How the code is represented\<close>.  A fallible asynchronous function is a \<open>prog\<close>: a function from
  the state to a result, \<open>Inl\<close> an error or \<open>Inr\<close> a value, and the state left behind; the
  question mark operator is \<open>andthen\<close>.  The state of a stream is what the code can observe of
  it: the bytes the peer sends, how they end, the bytes written and how much more can be
  written.  Two sides of an exchange are two such states, and the theorems relate what one
  wrote to what the other reads.  A stream that is relayed is a \<open>link\<close>: it carries the state
  of the other connection beside its own.  A \<open>select!\<close> is resolved by a parameter that says
  which of its branches wins (\<open>wait\<close>, \<open>token\<close>, \<open>stops\<close>), a loop over \<open>select!\<close> is a step
  function over the list of its events, and the interleaving of tasks is a list of events.
  Where several tasks share state (\<open>Crab_Race\<close>, \<open>Crab_Live\<close>, \<open>Crab_Fleet\<close>) they are an inductive
  step relation, one step for what happens between two awaits, and the theorems are about its
  reachable states; what the environment does and what the program does are two relations, so
  that one can say what the program does when it is left alone.
  Errors of other libraries are the text they print.  The payload serialiser (bincode), the
  name lookup, the sockets, the HTTP, URL, SOCKS and TLS libraries and what the system refuses
  are parameters.  Of these the theorems assume \<open>codec_ok\<close>, the round trip of a serialiser,
  and \<open>header_laws\<close>, the replacing insertion of a header map; \<open>table_codec\<close> and
  \<open>sample_header_lib\<close> show that these can hold.

  \<^bold>\<open>The theories\<close>.
  \<^item> \<open>Crab_Prelude\<close>: integers, programs and what they keep of the state (locale \<open>kept_relation\<close>,
    with instances for the bytes written and for the files), byte layouts (locale \<open>fixed_codec\<close>),
    one-shot channels, step relations that come to an end (locale \<open>winding_down\<close>).
  \<^item> \<open>Crab_Errors\<close>: \<^verbatim>\<open>crab/errors.rs\<close>; the codes and their messages.
  \<^item> \<open>Crab_Types\<close>: \<^verbatim>\<open>crab/types.rs\<close>; status, options, metadata.
  \<^item> \<open>Crab_Wire\<close>: \<^verbatim>\<open>proto/types.rs\<close>; the header, an interpretation of \<open>fixed_codec\<close>, and the
    acknowledgement.
  \<^item> \<open>Crab_Stream\<close>: \<^verbatim>\<open>proto/util.rs\<close>; reading and writing messages.  A message is read back as
    it was written, what is read was there, cut-off, oversized and error messages are
    recognised.
  \<^item> \<open>Crab_Tasks\<close>: \<^verbatim>\<open>proto/tasks.rs\<close> and \<^verbatim>\<open>node_handle.rs\<close>; the calls of a handle are refined by
    the exchange on the stream, the second stage of a task waits for the caller.
  \<^item> \<open>Crab_Hook\<close>: \<^verbatim>\<open>proto/hook.rs\<close> and \<^verbatim>\<open>proto/hook_wrapper.rs\<close>; handshake and heartbeat, the
    locale \<open>live_protocol\<close> of protocols whose heartbeats succeed, the defaults of the hook.
  \<^item> \<open>Crab_Runit\<close>: \<^verbatim>\<open>utils/runit.rs\<close>; vectors of workers and the receiving loops under the
    contract \<open>spawn_loop\<close>, from which follows that none is lost and that the loops end.
  \<^item> \<open>Crab_Node\<close>: \<^verbatim>\<open>nodes.rs\<close>; the states of a node, its heartbeat loop and its two loops as
    instances of \<open>spawn_loop\<close>.
  \<^item> \<open>Crab_Beats\<close>: the timing of the heartbeats, in milliseconds: which delays a node outlives.
  \<^item> \<open>Crab_Pair\<close>: the heartbeats on both ends of one stream (locale \<open>beating\<close>, the application's
    protocol being its instance): the two nodes keep each other running and do not deadlock.
  \<^item> \<open>Crab_Live\<close>: a node with its handles, its channels, \<open>serve\<close>, the acceptor and the two loops
    running side by side: no task and no stream is lost from sight, and a cancelled node stops
    (an instance of \<open>winding_down\<close>).
  \<^item> \<open>Crab_App_Types\<close>: the data of the application and the \<open>Command\<close> enum.
  \<^item> \<open>Crab_Registry\<close>: \<^verbatim>\<open>app/manager.rs\<close> and \<^verbatim>\<open>protocol/proto.rs\<close>; the table of nodes (locale
    \<open>registry\<close>), the application's protocol (an instance of \<open>live_protocol\<close>) and the life of
    connections as events: the table is never stale, it is exact while ids are distinct, and
    the race that breaks it otherwise.
  \<^item> \<open>Crab_Endpoint\<close>: \<^verbatim>\<open>crab/endpoint.rs\<close> and \<^verbatim>\<open>crab/utils.rs\<close>; connecting, admission of nodes,
    reconnecting, and the endpoint's loops as instances of \<open>spawn_loop\<close>.
  \<^item> \<open>Crab_Fleet\<close>: the endpoint with its channels, connection tasks and node tasks side by side:
    a refinement of the registry's events, which stops when it is cancelled (\<open>winding_down\<close>)
    but may leave entries in the table.
  \<^item> \<open>Crab_Files\<close>: the file system (locale \<open>file_store\<close>) and \<^verbatim>\<open>protocol/util.rs\<close>.
  \<^item> \<open>Crab_Commands\<close>: \<^verbatim>\<open>protocol/commands.rs\<close>; the file commands.  A write is atomic and publishes
    exactly what follows the acknowledgement on the stream (\<open>after_frame\<close>), succeeds
    when nothing interferes, and how it treats existing targets and abandoned streams.
  \<^item> \<open>Crab_Inodes\<close>, \<open>Crab_Writes\<close>, \<open>Crab_Race\<close>: the file system with inodes and open files, which
    through \<open>view\<close> behaves like \<open>Crab_Files\<close>; the write handler step by step, which reaches
    the ends that \<open>Crab_Commands\<close> computes (\<open>winding_down\<close>), also when writes are refused; many
    write handlers at once, which do not disturb each other if they have no file in common,
    and can on one target.
  \<^item> \<open>Crab_Packet\<close>, \<open>Crab_Forward\<close>: \<^verbatim>\<open>protocol/forwarder\<close>; packets and copy loops of the UDP
    tunnel, which sends each packet where its sender meant it to go, the TCP relay.
  \<^item> \<open>Crab_Datagrams\<close>: the boundaries of the datagrams in the tunnel, and how long a packet can be.
  \<^item> \<open>Crab_Link\<close>: the caller's side of the commands that carry data: copies between the stream
    and the other connection, the two-stage call of a handle with the executor handed over,
    and its runs when the peer accepts, refuses or is gone.
  \<^item> \<open>Crab_Http\<close>: \<^verbatim>\<open>utils/http.rs\<close> and \<^verbatim>\<open>forwarder/http.rs\<close>; both sides of a proxied request.
  \<^item> \<open>Crab_Dispatch\<close>: \<^verbatim>\<open>protocol/types.rs\<close> and \<^verbatim>\<open>protocol/base.rs\<close>; the dispatch of commands, the
    calls of the sending side, and the commands end to end.
  \<^item> \<open>Crab_Footprint\<close>: what a command may do to the files of a node, and that the handlers stay within.
  \<^item> \<open>Crab_Answers\<close>: the shapes of the answers, a type of the conversation for each command, and
    that the handlers answer in these shapes.
  \<^item> \<open>Crab_Proxy\<close>: a proxied HTTP request end to end.
  \<^item> \<open>Crab_Listener\<close>: \<^verbatim>\<open>forwarder/tcp_worker.rs\<close>; the accept loop of a forwarding rule and its pool
    of workers as events (locale \<open>accept_loop\<close>, over \<open>spawn_loop\<close>), which connections it
    serves, and a forwarded connection end to end.
  \<^item> \<open>Crab_Socks\<close>: \<^verbatim>\<open>protocol/socks5\<close>; sessions, handshakes and the server, a second instance of
    \<open>accept_loop\<close>.  A connect is the forwarding call with a reply; refusals; what an accept
    error does to the server.
  \<^item> \<open>Crab_Api_Types\<close>, \<open>Crab_Api\<close>: \<^verbatim>\<open>workers/ctrl/types.rs\<close>, \<^verbatim>\<open>workers/ctrl/ctrl.rs\<close> and
    \<^verbatim>\<open>workers/workers.rs\<close>; the answers, the routes and the handlers of the HTTP interface,
    which requests the proxy forwards.
  \<^item> \<open>Crab_Transfer\<close>: uploads and downloads over HTTP end to end and one after the other, and what
    becomes of an upload that breaks off and of a file that cannot be opened.
  \<^item> \<open>Crab_Service\<close>, \<open>Crab_Meet\<close>: the HTTP interface on the table of a running endpoint, a directory
    listed over HTTP end to end, a deletion whose outcome is not looked at, and two nodes that
    connect, each reading what the other writes, and then know each other.
  \<^item> \<open>Crab_Tls\<close>: \<^verbatim>\<open>crab/utils/crypto.rs\<close>; what the two sides of a connection trust and show.
  \<^item> \<open>Crab_Start\<close>: \<^verbatim>\<open>config.rs\<close>, \<^verbatim>\<open>provider.rs\<close>, \<^verbatim>\<open>main.rs\<close>, \<^verbatim>\<open>runit/linux.rs\<close>, \<^verbatim>\<open>runit/win.rs\<close> and the
    set-up of the endpoint; the workers of the program and its exit code.

  \<^bold>\<open>Bounds\<close>.  Integers have their width: lengths on the wire are \<open>u32\<close> and \<open>u16\<close>, and the
  theorems state the bounds under which they do not wrap.  The only loop that is not
  structural is \<open>udp_copy\<close>, which terminates because every turn takes bytes from the stream;
  no fuel is used.  The capacities of the channels of a node (10 and 32) and of the endpoint
  (64 and 20) are invariants of \<open>Crab_Live\<close> and \<open>Crab_Fleet\<close>.

  \<^bold>\<open>Not modelled\<close>.  The QUIC transport, rustls, the HTTP server, the parsers of TOML, PEM and URLs
  and the SOCKS5 protocol are other people's code and appear as parameters; logging is left
  out; modules that only declare or re-export others have nothing to model.  The back pressure
  of a stream, pipe or pool of workers is not represented: it delays its writer but does not
  change what is sent.  A peer that is alive and silent is not represented either: a stream
  brings all its bytes and then ends, so the calls of a handle, which have no timeout, always
  return here.  A refused operation of the file system leaves the tree as it is, where
  \<^verbatim>\<open>create_dir_all\<close>, \<^verbatim>\<open>remove_dir_all\<close> and a write to a full disk may have done a part of it.  Paths are the components as they are written: \<^verbatim>\<open>..\<close> and symbolic links are not resolved,
  so what \<open>Crab_Footprint\<close> says of a path it says of its spelling.  A panic in a task of a node
  (which would skip \<open>on_node_exited\<close>) is not a step of \<open>Crab_Fleet\<close>.  The time a file was last
  changed is what the system reports, it does not follow the writes.  \<open>Crab_Live\<close> leaves it open
  when a task or a handler ends, \<open>Crab_Fleet\<close> when a node does: what they do meanwhile is in the
  theories of the single parts.
\<close>

end
